(* ===== verification/Prelude.thy ===== *)
theory Prelude
  imports Main "HOL-Library.Word" "HOL-Library.Monad_Syntax"
begin

text \<open>
  Shared vocabulary of the development: the machine integers of the Rust code, byte strings with
  the little- and big-endian conversions of the standard library, array indexing that panics,
  and the counted loops of the circuits as folds in the option monad, where \<^const>\<open>None\<close> is a
  panic. The lemmas below are generic facts on these; they are in the simpset or in one of the
  two collections so that the component theories need not name them.
\<close>

unbundle bit_operations_syntax

named_theorems byte_simps \<open>lengths and values of byte conversions\<close>
named_theorems loop_simps \<open>equations of the counted loops\<close>

section \<open>Machine integers and byte strings\<close>

type_synonym u8 = "8 word"
type_synonym u16 = "16 word"
type_synonym u32 = "32 word"
type_synonym u64 = "64 word"
type_synonym u256 = "256 word"
type_synonym i32 = "32 word"
type_synonym bytes = "u8 list"

text \<open>
  A fixed array \<open>[u8; 32]\<close> of the code is a byte list; that it has 32 elements is stated where a
  theorem needs it.
\<close>

fun le_bytes :: "nat \<Rightarrow> nat \<Rightarrow> bytes" where
  "le_bytes 0 x = []"
| "le_bytes (Suc n) x = word_of_nat (x mod 256) # le_bytes n (x div 256)"

fun from_le :: "bytes \<Rightarrow> nat" where
  "from_le [] = 0"
| "from_le (b # bs) = unat b + 256 * from_le bs"

definition u8_le :: "u8 \<Rightarrow> bytes" where
  "u8_le w = [w]"

definition u16_le :: "u16 \<Rightarrow> bytes" where
  "u16_le w = le_bytes 2 (unat w)"

definition u32_le :: "u32 \<Rightarrow> bytes" where
  "u32_le w = le_bytes 4 (unat w)"

definition u64_le :: "u64 \<Rightarrow> bytes" where
  "u64_le w = le_bytes 8 (unat w)"

definition u32_be :: "u32 \<Rightarrow> bytes" where
  "u32_be w = rev (le_bytes 4 (unat w))"

definition u64_be :: "u64 \<Rightarrow> bytes" where
  "u64_be w = rev (le_bytes 8 (unat w))"

lemma length_le_bytes [simp, byte_simps]: "length (le_bytes n x) = n"
  by (induction n arbitrary: x) auto

lemma length_word_le [simp, byte_simps]:
  "length (u8_le a) = 1" "length (u16_le b) = 2" "length (u32_le c) = 4"
  "length (u64_le d) = 8" "length (u32_be c) = 4" "length (u64_be d) = 8"
  by (simp_all add: u8_le_def u16_le_def u32_le_def u64_le_def u32_be_def u64_be_def)

lemma unat_byte [simp]: "unat (word_of_nat (x mod 256) :: u8) = x mod 256"
  by (simp add: unat_of_nat)

lemma from_le_le_bytes [byte_simps]: "from_le (le_bytes n x) = x mod 256 ^ n"
proof (induction n arbitrary: x)
  case 0
  show ?case by simp
next
  case (Suc n)
  have "from_le (le_bytes (Suc n) x) = x mod 256 + 256 * (x div 256 mod 256 ^ n)"
    by (simp add: Suc.IH)
  also have "\<dots> = x mod (256 * 256 ^ n)"
    by (simp add: mod_mult2_eq)
  finally show ?case by simp
qed

lemma from_le_bound: "from_le bs < 256 ^ length bs"
proof (induction bs)
  case Nil
  show ?case by simp
next
  case (Cons b bs)
  have "unat b < 256"
    using unsigned_less [of b] by simp
  with Cons show ?case by simp
qed

lemma le_bytes_from_le [byte_simps]: "le_bytes (length bs) (from_le bs) = bs"
proof (induction bs)
  case Nil
  show ?case by simp
next
  case (Cons b bs)
  have b: "unat b < 256"
    using unsigned_less [of b] by simp
  then have "(unat b + 256 * from_le bs) mod 256 = unat b"
    and "(unat b + 256 * from_le bs) div 256 = from_le bs"
    by simp_all
  with Cons show ?case by simp
qed

lemma from_le_inj: "length as = length bs \<Longrightarrow> from_le as = from_le bs \<Longrightarrow> as = bs"
  by (metis le_bytes_from_le)

lemma from_le_append: "from_le (as @ bs) = from_le as + 256 ^ length as * from_le bs"
  by (induction as) (simp_all add: algebra_simps)

lemma from_le_replicate_0 [simp]: "from_le (replicate n 0) = 0"
  by (induction n) auto

lemma from_le_replicate_max: "from_le (replicate n 0xff) + 1 = 256 ^ n"
  by (induction n) auto

lemma le_bytes_eq_iff:
  assumes "x < 256 ^ n" "y < 256 ^ n"
  shows "le_bytes n x = le_bytes n y \<longleftrightarrow> x = y"
  by (metis assms from_le_le_bytes mod_less)

lemma unat_less_pow: "unat (w :: 'a::len word) < 2 ^ LENGTH('a)"
  by (rule unsigned_less)

lemma unat_le_bytes_inj:
  fixes a b :: "'a::len word"
  assumes "(2::nat) ^ LENGTH('a) = 256 ^ n"
  shows "le_bytes n (unat a) = le_bytes n (unat b) \<longleftrightarrow> a = b"
  using le_bytes_eq_iff [of "unat a" n "unat b"] unat_less_pow [of a] unat_less_pow [of b] assms
  by (simp add: word_unat_eq_iff)

lemma u16_le_inj [simp]: "u16_le a = u16_le b \<longleftrightarrow> a = b"
  by (simp add: u16_le_def unat_le_bytes_inj)

lemma u32_le_inj [simp]: "u32_le a = u32_le b \<longleftrightarrow> a = b"
  by (simp add: u32_le_def unat_le_bytes_inj)

lemma u64_le_inj [simp]: "u64_le a = u64_le b \<longleftrightarrow> a = b"
  by (simp add: u64_le_def unat_le_bytes_inj)

lemma u32_be_inj [simp]: "u32_be a = u32_be b \<longleftrightarrow> a = b"
  by (simp add: u32_be_def unat_le_bytes_inj)

text \<open>The same encoding on binary integers, for evaluation.\<close>

fun le_bytes_int :: "nat \<Rightarrow> int \<Rightarrow> bytes" where
  "le_bytes_int 0 x = []"
| "le_bytes_int (Suc n) x = word_of_int x # le_bytes_int n (x div 256)"

lemma le_bytes_int: "le_bytes_int n (int x) = le_bytes n x"
proof (induction n arbitrary: x)
  case (Suc n)
  have "(word_of_nat (x mod 256) :: u8) = word_of_nat x"
    by (simp add: word_of_nat_eq_iff take_bit_eq_mod)
  then show ?case
    using Suc.IH [of "x div 256"] by (simp add: zdiv_int)
qed simp

lemma u64_be_code [code]: "u64_be w = rev (le_bytes_int 8 (uint w))"
  using le_bytes_int [of 8 "unat w"] by (simp add: u64_be_def)

lemma u64_be_inj [simp]: "u64_be a = u64_be b \<longleftrightarrow> a = b"
  by (simp add: u64_be_def unat_le_bytes_inj)

lemma div_pow_Suc: "(n :: nat) div 2 ^ Suc i = n div 2 ^ i div 2"
  by (simp only: power_Suc2 div_mult2_eq)

section \<open>Indexing and counted loops\<close>

text \<open>Rust's \<open>xs[i]\<close> and \<open>xs[i] = v\<close>, which panic out of range.\<close>

definition array_get :: "'a list \<Rightarrow> nat \<Rightarrow> 'a option" where
  "array_get xs i = (if i < length xs then Some (xs ! i) else None)"

definition array_set :: "'a list \<Rightarrow> nat \<Rightarrow> 'a \<Rightarrow> 'a list option" where
  "array_set xs i v = (if i < length xs then Some (xs[i := v]) else None)"

lemma array_get_lt [simp]: "i < length xs \<Longrightarrow> array_get xs i = Some (xs ! i)"
  by (simp add: array_get_def)

lemma array_get_ge [simp]: "length xs \<le> i \<Longrightarrow> array_get xs i = None"
  by (simp add: array_get_def)

lemma array_set_lt [simp]: "i < length xs \<Longrightarrow> array_set xs i v = Some (xs[i := v])"
  by (simp add: array_set_def)

lemma array_set_ge [simp]: "length xs \<le> i \<Longrightarrow> array_set xs i v = None"
  by (simp add: array_set_def)

lemma array_get_eq_Some [simp]: "array_get xs i = Some x \<longleftrightarrow> i < length xs \<and> xs ! i = x"
  by (auto simp: array_get_def)

text \<open>
  \<open>for i in is { a = f(i, a) }\<close> with a body that may panic; a loop \<open>for i in 0..n\<close> runs over
  \<open>[0..<n]\<close>.
\<close>

fun for_each :: "'i list \<Rightarrow> ('i \<Rightarrow> 'a \<Rightarrow> 'a option) \<Rightarrow> 'a \<Rightarrow> 'a option" where
  "for_each [] f a = Some a"
| "for_each (i # is) f a = do { a' \<leftarrow> f i a; for_each is f a' }"

lemma for_each_append [loop_simps]:
  "for_each (is @ js) f a = do { a' \<leftarrow> for_each is f a; for_each js f a' }"
  by (induction "is" arbitrary: a) (auto split: Option.bind_split)

lemma for_each_upt_Suc [loop_simps]:
  "for_each [0..<Suc n] f a = do { a' \<leftarrow> for_each [0..<n] f a; f n a' }"
  by (simp add: for_each_append split: Option.bind_split)

lemma for_each_const:
  "for_each is (\<lambda>_. f) a = for_each js (\<lambda>_. f) a" if "length is = length js"
  using that by (induction "is" js arbitrary: a rule: list_induct2) (auto split: Option.bind_split)

text \<open>The rule for a loop: an invariant indexed by the number of iterations done.\<close>

lemma for_each_invariant:
  assumes run: "for_each [0..<n] f a = Some b"
    and start: "I 0 a"
    and step: "\<And>i x y. i < n \<Longrightarrow> I i x \<Longrightarrow> f i x = Some y \<Longrightarrow> I (Suc i) y"
  shows "I n b"
proof -
  have "m \<le> n \<Longrightarrow> for_each [0..<m] f a = Some c \<Longrightarrow> I m c" for m c
  proof (induction m arbitrary: c)
    case 0
    with start show ?case by simp
  next
    case (Suc m)
    then obtain x where "for_each [0..<m] f a = Some x" "f m x = Some c"
      by (auto simp: for_each_upt_Suc simp del: upt_Suc split: Option.bind_splits)
    with Suc step show ?case by simp
  qed
  with run show ?thesis by simp
qed

text \<open>A loop whose body always succeeds.\<close>

lemma for_each_total:
  assumes start: "I 0 a"
    and step: "\<And>i x. i < n \<Longrightarrow> I i x \<Longrightarrow> \<exists>y. f i x = Some y \<and> I (Suc i) y"
  shows "\<exists>b. for_each [0..<n] f a = Some b \<and> I n b"
proof -
  have "m \<le> n \<Longrightarrow> \<exists>c. for_each [0..<m] f a = Some c \<and> I m c" for m
  proof (induction m)
    case 0
    with start show ?case by simp
  next
    case (Suc m)
    then obtain c where c: "for_each [0..<m] f a = Some c" "I m c" by auto
    with step [of m c] Suc.prems obtain d where "f m c = Some d" "I (Suc m) d" by auto
    with c show ?case by (auto simp: for_each_upt_Suc simp del: upt_Suc)
  qed
  then show ?thesis by simp
qed

end
