(* ===== verification/Bridge_Outcome.thy ===== *)
theory Bridge_Outcome
  imports Prelude
begin

text \<open>
  How the Rust functions of \<open>core\<close> end: with a value, with a \<open>BridgeError\<close> (the enum of
  \<open>core/src/errors.rs\<close>; the payloads of errors wrapped from other crates are dropped), or with a
  panic. A pure fallible function returns an \<open>outcome\<close>; a function with effects is an \<open>action\<close>,
  which takes the world and returns an outcome with the world it leaves, also when it fails. The
  operator \<open>?\<close> is \<open>attempt\<close> on outcomes and \<open>ask\<close> on actions.
\<close>

section \<open>Errors\<close>

datatype (plugins only: code) bridge_error =
    Secp256k1Error
  | BitcoinSighashTaprootError
  | DepositNotFinalized
  | InvalidDepositUTXO
  | UTXOSpent
  | FailedToGetPresigns
  | TxidNotFound
  | BitcoinRpcError
  | NoConfirmationData
  | VecConversionError
  | TryFromSliceError
  | BitcoinConsensusEncodeError
  | TxInputNotFound
  | PreimageNotFound
  | TaprootBuilderError
  | TaprootScriptError
  | ControlBlockError
  | PkSkLengthMismatch
  | PublicKeyNotFound
  | InvalidOperatorKey
  | AlreadyInitialized
  | BlockhashNotFound
  | BlockNotFound
  | MerkleBlockError
  | MerkleProofError
  | JsonRpcError
  | ConfigError
  | BitcoinAddressParseError
  | PortError
  | DatabaseError
  | PgDatabaseError
  | AlreadySpentWithdrawal
  | ServerError
  | OperatorFundingUtxoNotFound bytes
  | OperatorFundingUtxoAmountNotEnough bytes
  | OperatorWithdrawalFeeNotSet
  | InvalidKickoffUtxo
  | KeyAggContextError
  | KeyAggContextTweakError
  | InvalidScalarBytes
  | NoncesNotFound
  | MuSig2VerifyError
  | KickoffOutpointsNotFound
  | DepositInfoNotFound
  | FromHexError
  | FromSliceError
  | InvalidInputUTXO bytes bytes
  | InvalidOperatorIndex nat nat
  | InvalidDepositOutpointGiven nat nat
  | NotEnoughFeeForOperator
  | KickoffGeneratorTxNotFound
  | KickoffGeneratorTxsTooManyIterations
  | OperatorSlashOrTakeSigNotFound
  | OperatorTakesSigNotFound
  | Musig2Error

section \<open>Outcomes\<close>

datatype 'a outcome = Ok 'a | Err bridge_error | Panic

fun attempt :: "'a outcome \<Rightarrow> ('a \<Rightarrow> 'b outcome) \<Rightarrow> 'b outcome" where
  "attempt (Ok a) f = f a"
| "attempt (Err e) f = Err e"
| "attempt Panic f = Panic"

definition ok_or :: "'a option \<Rightarrow> bridge_error \<Rightarrow> 'a outcome" where
  "ok_or x e = (case x of Some a \<Rightarrow> Ok a | None \<Rightarrow> Err e)"

definition unwrap :: "'a option \<Rightarrow> 'a outcome" where
  "unwrap x = (case x of Some a \<Rightarrow> Ok a | None \<Rightarrow> Panic)"

fun unwrap_ok :: "'a outcome \<Rightarrow> 'a outcome" where
  "unwrap_ok (Ok a) = Ok a"
| "unwrap_ok (Err e) = Panic"
| "unwrap_ok Panic = Panic"

text \<open>\<open>assert!\<close>, and an early return of an error.\<close>

definition assert_that :: "bool \<Rightarrow> unit outcome" where
  "assert_that b = (if b then Ok () else Panic)"

definition ensure :: "bool \<Rightarrow> bridge_error \<Rightarrow> unit outcome" where
  "ensure b e = (if b then Ok () else Err e)"

text \<open>\<open>xs[i]\<close>.\<close>

definition item_at :: "'a list \<Rightarrow> nat \<Rightarrow> 'a outcome" where
  "item_at xs i = unwrap (array_get xs i)"

fun is_Ok :: "'a outcome \<Rightarrow> bool" where
  "is_Ok (Ok a) = True"
| "is_Ok _ = False"

text \<open>A loop over a list that collects the results and stops at the first failure.\<close>

fun attempt_map :: "('a \<Rightarrow> 'b outcome) \<Rightarrow> 'a list \<Rightarrow> 'b list outcome" where
  "attempt_map f [] = Ok []"
| "attempt_map f (x # xs) = attempt (f x) (\<lambda>y. attempt (attempt_map f xs) (\<lambda>ys. Ok (y # ys)))"

lemma attempt_eq_Ok [simp]: "attempt x f = Ok b \<longleftrightarrow> (\<exists>a. x = Ok a \<and> f a = Ok b)"
  by (cases x) auto

lemma ok_or_eq_Ok [simp]: "ok_or x e = Ok a \<longleftrightarrow> x = Some a"
  by (auto simp: ok_or_def split: option.splits)

lemma unwrap_eq_Ok [simp]: "unwrap x = Ok a \<longleftrightarrow> x = Some a"
  by (auto simp: unwrap_def split: option.splits)

lemma unwrap_ok_eq_Ok [simp]: "unwrap_ok x = Ok a \<longleftrightarrow> x = Ok a"
  by (cases x) auto

lemma assert_that_eq_Ok [simp]: "assert_that b = Ok u \<longleftrightarrow> b"
  by (auto simp: assert_that_def)

lemma ensure_eq_Ok [simp]: "ensure b e = Ok u \<longleftrightarrow> b"
  by (auto simp: ensure_def)

lemma is_Ok_iff: "is_Ok x \<longleftrightarrow> (\<exists>a. x = Ok a)"
  by (cases x) auto

lemma item_at_eq_Ok [simp]: "item_at xs i = Ok a \<longleftrightarrow> i < length xs \<and> xs ! i = a"
  by (simp add: item_at_def)

lemma simple_outcomes [simp]:
  "ok_or (Some a) e = Ok a" "ok_or None e = Err e" "unwrap (Some a) = Ok a" "unwrap None = Panic"
  "assert_that True = Ok ()" "assert_that False = Panic" "ensure True e = Ok ()"
  "ensure False e = Err e" "i < length xs \<Longrightarrow> item_at xs i = Ok (xs ! i)"
  "length xs \<le> i \<Longrightarrow> item_at xs i = Panic"
  by (simp_all add: ok_or_def unwrap_def assert_that_def ensure_def item_at_def)

lemma attempt_map_eq_Ok:
  "attempt_map f xs = Ok ys \<longleftrightarrow> list_all2 (\<lambda>x y. f x = Ok y) xs ys"
  by (induction xs arbitrary: ys) (auto simp: list_all2_Cons1)

lemma attempt_map_length: "attempt_map f xs = Ok ys \<Longrightarrow> length ys = length xs"
  by (auto simp: attempt_map_eq_Ok dest: list_all2_lengthD)

lemma attempt_map_nth:
  "attempt_map f xs = Ok ys \<Longrightarrow> i < length xs \<Longrightarrow> f (xs ! i) = Ok (ys ! i)"
  by (auto simp: attempt_map_eq_Ok dest: list_all2_nthD)

section \<open>Actions\<close>

type_synonym ('w, 'a) action = "'w \<Rightarrow> 'a outcome \<times> 'w"

definition ask :: "('w, 'a) action \<Rightarrow> ('a \<Rightarrow> ('w, 'b) action) \<Rightarrow> ('w, 'b) action" where
  "ask m f w = (case m w of
      (Ok a, w') \<Rightarrow> f a w'
    | (Err e, w') \<Rightarrow> (Err e, w')
    | (Panic, w') \<Rightarrow> (Panic, w'))"

definition lift :: "'a outcome \<Rightarrow> ('w, 'a) action" where
  "lift x w = (x, w)"

abbreviation return :: "'a \<Rightarrow> ('w, 'a) action" where
  "return a \<equiv> lift (Ok a)"

lemma ask_lift [simp]:
  "ask (lift (Ok a)) f = f a" "ask (lift (Err e)) f = lift (Err e)" "ask (lift Panic) f = lift Panic"
  by (simp_all add: ask_def lift_def fun_eq_iff)

lemma lift_eq [simp]: "lift x w = (y, w') \<longleftrightarrow> x = y \<and> w = w'"
  by (simp add: lift_def)

lemma fst_snd_lift [simp]: "fst (lift x w) = x" "snd (lift x w) = w"
  by (simp_all add: lift_def)

lemma ask_eq_Ok:
  "ask m f w = (Ok b, w') \<longleftrightarrow> (\<exists>a w1. m w = (Ok a, w1) \<and> f a w1 = (Ok b, w'))"
  by (auto simp: ask_def split: prod.splits outcome.splits)

lemma ask_cases:
  assumes "ask m f w = (r, w')"
  obtains (ok) a w1 where "m w = (Ok a, w1)" "f a w1 = (r, w')"
    | (err) e where "m w = (Err e, w')" "r = Err e"
    | (panic) "m w = (Panic, w')" "r = Panic"
  using assms by (auto simp: ask_def split: prod.splits outcome.splits)

text \<open>A property of the world that every part of a sequence keeps.\<close>

definition keeps :: "('w \<Rightarrow> bool) \<Rightarrow> ('w, 'a) action \<Rightarrow> bool" where
  "keeps I m \<longleftrightarrow> (\<forall>w. I w \<longrightarrow> I (snd (m w)))"

lemma keeps_lift [intro, simp]: "keeps I (lift x)"
  by (simp add: keeps_def)

lemma keeps_ask [intro]: "keeps I m \<Longrightarrow> (\<And>a. keeps I (f a)) \<Longrightarrow> keeps I (ask m f)"
  by (auto simp: keeps_def ask_def split: prod.splits outcome.splits)

end
