(* ===== verification/Btc_Types.thy ===== *)
theory Btc_Types
  imports Bridge_Outcome
begin

text \<open>
  The data of \<open>core\<close>: outpoints, outputs, transactions and the \<open>TxHandler\<close> of
  \<open>core/src/builder/transaction.rs\<close>, the configuration of \<open>core/src/config.rs\<close>, and the crates the
  code calls. Keys, signatures, scripts, addresses and hashes are byte strings whose structure the
  code does not look into. What the crates \<open>bitcoin\<close>, \<open>secp256k1\<close> and \<open>musig2\<close> compute is a
  record of functions, a parameter of every definition that calls them; a fallible function of a
  crate returns an option. An amount is a \<open>u64\<close> whose addition and subtraction panic on overflow,
  as the operators of \<open>bitcoin::Amount\<close> do.
\<close>

section \<open>Data\<close>

type_synonym txid = bytes
type_synonym script = bytes
type_synonym address = bytes
type_synonym xonly = bytes
type_synonym public_key = bytes
type_synonym secret_key = bytes
type_synonym keypair = bytes
type_synonym signature = bytes
type_synonym evm_address = bytes
type_synonym amount = u64

datatype network = Bitcoin | Testnet | Signet | Regtest

record outpoint =
  op_txid :: txid
  op_vout :: u32

record txout =
  txout_value :: amount
  txout_script :: script

record utxo =
  utxo_outpoint :: outpoint
  utxo_txout :: txout

record txin =
  txin_previous_output :: outpoint
  txin_sequence :: u32
  txin_script_sig :: script
  txin_witness :: "bytes list"

record btc_tx =
  btc_version :: i32
  btc_lock_time :: u32
  btc_input :: "txin list"
  btc_output :: "txout list"

text \<open>A spend info is the list of leaves and the internal key it was made from.\<close>

type_synonym tap_leaves = "(u8 \<times> script) list"
type_synonym spend_info = "tap_leaves \<times> xonly"

record tx_handler =
  handler_tx :: btc_tx
  handler_prevouts :: "txout list"
  handler_scripts :: "script list list"
  handler_spend_infos :: "spend_info list"

datatype sighash_type = Default | SinglePlusAnyoneCanPay

datatype prevouts_arg = All_Prevouts "txout list" | One_Prevout nat txout

section \<open>Amounts\<close>

definition amount_add :: "amount \<Rightarrow> amount \<Rightarrow> amount outcome" where
  "amount_add a b = (if uint a + uint b < 2 ^ 64 then Ok (a + b) else Panic)"

definition amount_sub :: "amount \<Rightarrow> amount \<Rightarrow> amount outcome" where
  "amount_sub a b = (if b \<le> a then Ok (a - b) else Panic)"

lemma amount_add_eq_Ok:
  "amount_add a b = Ok c \<longleftrightarrow> unat a + unat b < 2 ^ 64 \<and> unat c = unat a + unat b"
proof -
  have "uint a + uint b < 2 ^ 64 \<longleftrightarrow> int (unat a + unat b) < int (2 ^ 64)"
    by simp
  then have "uint a + uint b < 2 ^ 64 \<longleftrightarrow> unat a + unat b < 2 ^ 64"
    by (simp only: of_nat_less_iff)
  then show ?thesis
    by (auto simp: amount_add_def unat_word_ariths word_unat_eq_iff)
qed

lemma amount_sub_eq_Ok:
  "amount_sub a b = Ok c \<longleftrightarrow> unat b \<le> unat a \<and> unat c = unat a - unat b"
  by (auto simp: amount_sub_def word_le_nat_alt unat_sub word_unat_eq_iff)

lemma amounts_run:
  "unat b \<le> unat a \<Longrightarrow> \<exists>c. amount_sub a b = Ok c \<and> unat c = unat a - unat b"
  "unat a + unat b < 2 ^ 64 \<Longrightarrow> \<exists>c. amount_add a b = Ok c \<and> unat c = unat a + unat b"
proof -
  show "\<exists>c. amount_sub a b = Ok c \<and> unat c = unat a - unat b" if "unat b \<le> unat a"
    using that by (intro exI [of _ "a - b"]) (simp add: amount_sub_eq_Ok unat_sub word_le_nat_alt)
  show "\<exists>c. amount_add a b = Ok c \<and> unat c = unat a + unat b" if "unat a + unat b < 2 ^ 64"
    using that by (intro exI [of _ "a + b"]) (simp add: amount_add_eq_Ok unat_word_ariths)
qed

section \<open>The crates\<close>

text \<open>
  \<open>script::Builder\<close> is used only to push and to finish, so a script under construction is the list
  of the pushes.
\<close>

datatype script_item =
    Push_Opcode u8
  | Push_Slice bytes
  | Push_X_Only_Key xonly
  | Push_Int int

record script_lib =
  into_script :: "script_item list \<Rightarrow> script"
  to_p2wsh :: "script \<Rightarrow> script"
  minimal_non_dust :: "script \<Rightarrow> amount"
  add_leaf :: "tap_leaves \<Rightarrow> u8 \<Rightarrow> script \<Rightarrow> tap_leaves option"
  finalize :: "tap_leaves \<Rightarrow> xonly \<Rightarrow> spend_info option"
  spend_info_merkle_root :: "spend_info \<Rightarrow> bytes option"
  control_block :: "spend_info \<Rightarrow> script \<Rightarrow> bytes option"
  p2tr :: "xonly \<Rightarrow> bytes option \<Rightarrow> network \<Rightarrow> address"
  address_script_pubkey :: "address \<Rightarrow> script"
  require_network :: "address \<Rightarrow> network \<Rightarrow> address option"
  compute_txid :: "btc_tx \<Rightarrow> txid"
  raw_hex :: "btc_tx \<Rightarrow> string"
  hex_encode :: "bytes \<Rightarrow> string"
  hex_decode :: "string \<Rightarrow> bytes option"
  deserialize_tx :: "bytes \<Rightarrow> btc_tx option"

text \<open>
  \<open>Secp256k1::sign_schnorr\<close> draws 32 bytes of auxiliary randomness from the generator of the thread; they
  are the first argument of \<open>sign_schnorr\<close> here.
\<close>

record sign_lib = script_lib +
  sha256 :: "bytes \<Rightarrow> bytes"
  tap_leaf_hash_from_script :: "script \<Rightarrow> bytes"
  script_spend_signature_hash :: "btc_tx \<Rightarrow> nat \<Rightarrow> prevouts_arg \<Rightarrow> bytes \<Rightarrow> sighash_type \<Rightarrow> bytes option"
  key_spend_signature_hash :: "btc_tx \<Rightarrow> nat \<Rightarrow> prevouts_arg \<Rightarrow> sighash_type \<Rightarrow> bytes option"
  keypair_from_secret_key :: "secret_key \<Rightarrow> keypair"
  keypair_secret_key :: "keypair \<Rightarrow> secret_key"
  keypair_public_key :: "keypair \<Rightarrow> public_key"
  keypair_xonly :: "keypair \<Rightarrow> xonly"
  add_xonly_tweak :: "keypair \<Rightarrow> bytes \<Rightarrow> keypair option"
  tap_tweak_hash :: "xonly \<Rightarrow> bytes option \<Rightarrow> bytes"
  sign_schnorr :: "bytes \<Rightarrow> bytes \<Rightarrow> keypair \<Rightarrow> signature"
  verify_schnorr :: "signature \<Rightarrow> bytes \<Rightarrow> xonly \<Rightarrow> bool"
  xonly_from_slice :: "bytes \<Rightarrow> xonly option"
  signature_from_slice :: "bytes \<Rightarrow> signature option"
  taproot_signature_serialize :: "signature \<Rightarrow> sighash_type \<Rightarrow> bytes"

record lib = sign_lib +
  key_agg_new :: "public_key list \<Rightarrow> bytes option"
  with_taproot_tweak :: "bytes \<Rightarrow> bytes \<Rightarrow> bytes option"
  with_unspendable_taproot_tweak :: "bytes \<Rightarrow> bytes option"
  aggregated_pubkey :: "bytes \<Rightarrow> public_key"
  aggregated_pubkey_untweaked :: "bytes \<Rightarrow> public_key"
  public_key_xonly :: "public_key \<Rightarrow> bytes"
  pub_nonce_from_bytes :: "bytes \<Rightarrow> bytes option"
  agg_nonce_sum :: "bytes list \<Rightarrow> bytes"
  agg_nonce_from_bytes :: "bytes \<Rightarrow> bytes option"
  sec_nonce_from_bytes :: "bytes \<Rightarrow> bytes option"
  partial_signature_from_slice :: "bytes \<Rightarrow> bytes option"
  musig_aggregate :: "bytes \<Rightarrow> bytes \<Rightarrow> bytes list \<Rightarrow> bytes \<Rightarrow> bytes option"
  musig_sign_partial :: "bytes \<Rightarrow> secret_key \<Rightarrow> bytes \<Rightarrow> bytes \<Rightarrow> bytes \<Rightarrow> bytes option"
  sec_nonce_build :: "bytes \<Rightarrow> public_key \<Rightarrow> secret_key \<Rightarrow> bytes"
  sec_nonce_public :: "bytes \<Rightarrow> bytes"

text \<open>Consensus encoding, its hexadecimal form, and their inverses.\<close>

definition tx_roundtrip :: "'x script_lib_scheme \<Rightarrow> bool" where
  "tx_roundtrip L \<longleftrightarrow> (\<forall>tx. \<exists>raw. hex_decode L (raw_hex L tx) = Some raw \<and> deserialize_tx L raw = Some tx)"

section \<open>Configuration\<close>

record bridge_config =
  cfg_host :: string
  cfg_port :: u16
  cfg_network :: network
  cfg_secret_key :: secret_key
  cfg_verifiers_public_keys :: "public_key list"
  cfg_num_verifiers :: nat
  cfg_operators_xonly_pks :: "xonly list"
  cfg_operator_wallet_addresses :: "address list"
  cfg_num_operators :: nat
  cfg_operator_withdrawal_fee_sats :: "amount option"
  cfg_user_takes_after :: u32
  cfg_operator_takes_after :: u32
  cfg_bridge_amount_sats :: amount
  cfg_operator_num_kickoff_utxos_per_tx :: u64
  cfg_confirmation_threshold :: u32
  cfg_bitcoin_rpc_url :: string
  cfg_bitcoin_rpc_user :: string
  cfg_bitcoin_rpc_password :: string
  cfg_all_verifiers_secret_keys :: "secret_key list option"
  cfg_all_operators_secret_keys :: "secret_key list option"
  cfg_verifier_endpoints :: "string list option"
  cfg_db_host :: string
  cfg_db_port :: u64
  cfg_db_user :: string
  cfg_db_password :: string
  cfg_db_name :: string
  cfg_citrea_rpc_url :: string
  cfg_bridge_contract_address :: string

definition default_config :: "secret_key \<Rightarrow> bridge_config" where
  "default_config random_secret_key =
    \<lparr>cfg_host = ''127.0.0.1'', cfg_port = 3030, cfg_network = Regtest,
     cfg_secret_key = random_secret_key, cfg_verifiers_public_keys = [], cfg_num_verifiers = 7,
     cfg_operators_xonly_pks = [], cfg_operator_wallet_addresses = [], cfg_num_operators = 3,
     cfg_operator_withdrawal_fee_sats = None, cfg_user_takes_after = 5,
     cfg_operator_takes_after = 5, cfg_bridge_amount_sats = 100000000,
     cfg_operator_num_kickoff_utxos_per_tx = 10, cfg_confirmation_threshold = 1,
     cfg_bitcoin_rpc_url = ''http://127.0.0.1:18443'', cfg_bitcoin_rpc_user = ''admin'',
     cfg_bitcoin_rpc_password = ''admin'', cfg_all_verifiers_secret_keys = None,
     cfg_all_operators_secret_keys = None, cfg_verifier_endpoints = None,
     cfg_db_host = ''127.0.0.1'', cfg_db_port = 5432, cfg_db_user = ''postgres'',
     cfg_db_password = ''postgres'', cfg_db_name = ''postgres'',
     cfg_citrea_rpc_url = ''http://127.0.0.1:12345'',
     cfg_bridge_contract_address = ''3100000000000000000000000000000000000002''\<rparr>"

end
