(* ===== verification/World.thy ===== *)
theory World
  imports Bridge_Outcome
begin

text \<open>
  The world a handler of \<open>core\<close> runs in: the tables of its PostgreSQL database, everything outside
  the process (the Bitcoin node, the Citrea node, the random generator) as one opaque state, and a
  list that says which of the next database messages are lost. A lost request has no effect, a lost
  reply comes after the effect; both end in an error of the connection. A handler runs to its end
  before the next one starts: the interleaving of transactions in PostgreSQL is not modelled.
\<close>

section \<open>Databases\<close>

datatype fault = No_Fault | Lost_Request | Lost_Reply

record ('d, 'n) world =
  world_db :: 'd
  world_faults :: "fault list"
  world_node :: 'n

datatype sql_error =
    Row_Not_Found
  | Check_Violation
  | Unique_Violation
  | Raised_Exception
  | Syntax_Error
  | Unexpected_Null
  | Connection_Error

text \<open>A statement reads and changes the tables, or fails.\<close>

type_synonym ('d, 'a) sql = "'d \<Rightarrow> (sql_error + 'a) \<times> 'd"

definition next_fault :: "('d, 'n) world \<Rightarrow> fault" where
  "next_fault w = (case world_faults w of [] \<Rightarrow> No_Fault | f # fs \<Rightarrow> f)"

definition run_sql :: "('d, 'a) sql \<Rightarrow> (('d, 'n) world, sql_error + 'a) action" where
  "run_sql q w =
    (let w' = w\<lparr>world_faults := tl (world_faults w)\<rparr>; (r, d) = q (world_db w)
     in case next_fault w of
       No_Fault \<Rightarrow> (Ok r, w'\<lparr>world_db := d\<rparr>)
     | Lost_Request \<Rightarrow> (Ok (Inl Connection_Error), w')
     | Lost_Reply \<Rightarrow> (Ok (Inl Connection_Error), w'\<lparr>world_db := d\<rparr>))"

text \<open>A statement followed by \<open>?\<close>.\<close>

definition or_database_error :: "sql_error + 'a \<Rightarrow> (('d, 'n) world, 'a) action" where
  "or_database_error r = lift (case r of Inl e \<Rightarrow> Err DatabaseError | Inr a \<Rightarrow> Ok a)"

definition query :: "('d, 'a) sql \<Rightarrow> (('d, 'n) world, 'a) action" where
  "query q = ask (run_sql q) or_database_error"

text \<open>
  \<open>begin_transaction\<close>, a body and \<open>commit\<close>. When the body fails or panics the transaction is dropped,
  which rolls it back.
\<close>

definition begin_transaction :: "(('d, 'n) world, unit) action" where
  "begin_transaction = query (\<lambda>d. (Inr (), d))"

definition in_dbtx :: "(('d, 'n) world, 'a) action \<Rightarrow> (('d, 'n) world, 'a) action" where
  "in_dbtx body = ask begin_transaction (\<lambda>_ w.
    (case body w of
       (Ok a, w') \<Rightarrow>
         (let w'' = w'\<lparr>world_faults := tl (world_faults w')\<rparr>
          in case next_fault w' of
            No_Fault \<Rightarrow> (Ok a, w'')
          | Lost_Request \<Rightarrow> (Err DatabaseError, w''\<lparr>world_db := world_db w\<rparr>)
          | Lost_Reply \<Rightarrow> (Err DatabaseError, w''))
     | (r, w') \<Rightarrow> (r, w'\<lparr>world_db := world_db w\<rparr>)))"

section \<open>The outside\<close>

definition call :: "('n \<Rightarrow> 'a \<times> 'n) \<Rightarrow> (('d, 'n) world, 'a) action" where
  "call f w = (let (a, n) = f (world_node w) in (Ok a, w\<lparr>world_node := n\<rparr>))"

text \<open>A request that may fail, followed by \<open>?\<close>.\<close>

definition request :: "('n \<Rightarrow> 'a option \<times> 'n) \<Rightarrow> bridge_error \<Rightarrow> (('d, 'n) world, 'a) action" where
  "request f e = ask (call f) (\<lambda>r. lift (ok_or r e))"

section \<open>Evaluation without faults\<close>

lemma run_sql_no_fault:
  "world_faults w = [] \<Longrightarrow> run_sql q w = (Ok (fst (q (world_db w))), w\<lparr>world_db := snd (q (world_db w))\<rparr>)"
  by (simp add: run_sql_def next_fault_def split: prod.splits)

lemma query_no_fault:
  assumes "world_faults w = []" "q (world_db w) = (Inr a, d)"
  shows "query q w = (Ok a, w\<lparr>world_db := d\<rparr>)"
  using assms by (simp add: query_def ask_def run_sql_no_fault or_database_error_def)

lemma in_dbtx_no_fault:
  assumes "world_faults w = []" "body w = (Ok a, w')" "world_faults w' = []"
  shows "in_dbtx body w = (Ok a, w')"
  using assms
  by (simp add: in_dbtx_def begin_transaction_def ask_def query_no_fault next_fault_def)

lemma query_eq_Ok:
  assumes "query q w = (Ok a, w')"
  shows "q (world_db w) = (Inr a, world_db w') \<and> world_node w' = world_node w"
  using assms
  by (auto simp: query_def ask_def run_sql_def or_database_error_def Let_def
      split: prod.splits fault.splits sum.splits)

lemma run_sql_eq_Ok:
  assumes "run_sql q w = (Ok r, w')"
  shows "(r = Inl Connection_Error \<and> world_db w' \<in> {world_db w, snd (q (world_db w))} \<or>
    q (world_db w) = (r, world_db w')) \<and> world_node w' = world_node w"
  using assms by (auto simp: run_sql_def Let_def split: prod.splits fault.splits)

lemma run_sql_not [simp]: "run_sql q w \<noteq> (Err e, w')" "run_sql q w \<noteq> (Panic, w')"
  by (auto simp: run_sql_def Let_def split: prod.splits fault.splits)

lemma call_eq: "call f w = (r, w') \<longleftrightarrow>
    (\<exists>a. r = Ok a \<and> f (world_node w) = (a, world_node w') \<and> w' = w\<lparr>world_node := world_node w'\<rparr>)"
  by (cases "f (world_node w)") (auto simp: call_def)

lemma request_eq_Ok:
  assumes "request f e w = (Ok a, w')"
  shows "f (world_node w) = (Some a, world_node w') \<and> world_db w' = world_db w"
  using assms by (auto simp: request_def ask_eq_Ok call_eq) (metis world.select_convs(1) world.surjective world.update_convs(3))+

lemma begin_transaction_eq:
  assumes "begin_transaction w = (r, w')"
  shows "world_db w' = world_db w \<and> world_node w' = world_node w \<and> (r = Ok () \<or> r = Err DatabaseError)"
  using assms
  by (auto simp: begin_transaction_def query_def ask_def run_sql_def or_database_error_def Let_def
      split: prod.splits fault.splits sum.splits)

text \<open>A transaction either took effect as a whole or left the tables as they were.\<close>

lemma in_dbtx_cases:
  assumes "in_dbtx body w = (r, w')"
  obtains (committed) w1 a w2 where "world_db w1 = world_db w" "world_node w1 = world_node w"
      "body w1 = (Ok a, w2)" "world_db w' = world_db w2" "world_node w' = world_node w2"
      "r = Ok a \<or> r = Err DatabaseError"
    | (unchanged) "world_db w' = world_db w" "\<not> is_Ok r"
proof -
  obtain r1 w1 where b: "begin_transaction w = (r1, w1)"
    by (meson prod.exhaust)
  note b1 = begin_transaction_eq [OF b]
  show ?thesis
  proof (cases r1)
    case (Ok u)
    obtain rb w2 where body: "body w1 = (rb, w2)"
      by (meson prod.exhaust)
    show ?thesis
    proof (cases rb)
      case (Ok a)
      with body b b1 \<open>r1 = Ok u\<close> assms show ?thesis
        by (cases "next_fault w2") (auto simp: in_dbtx_def ask_def Let_def intro: committed unchanged)
    qed (use body b b1 Ok assms in \<open>auto simp: in_dbtx_def ask_def intro: unchanged\<close>)
  qed (use b b1 assms in \<open>auto simp: in_dbtx_def ask_def intro: unchanged\<close>)
qed

lemma in_dbtx_eq_Ok:
  assumes "in_dbtx body w = (Ok a, w')"
  obtains w1 w2 where "world_db w1 = world_db w" "world_node w1 = world_node w"
    "body w1 = (Ok a, w2)" "world_db w' = world_db w2" "world_node w' = world_node w2"
  using assms by (cases rule: in_dbtx_cases) auto

section \<open>What handlers do to the tables\<close>

text \<open>
  \<open>moves R m\<close> says that \<open>m\<close> takes the tables only along the relation \<open>R\<close>, however it ends and
  whatever messages are lost. For a reflexive and transitive \<open>R\<close> this follows from the statements.
\<close>

definition moves :: "('d \<Rightarrow> 'd \<Rightarrow> bool) \<Rightarrow> (('d, 'n) world, 'a) action \<Rightarrow> bool" where
  "moves R m \<longleftrightarrow> (\<forall>w. R (world_db w) (world_db (snd (m w))))"

locale db_order =
  fixes R :: "'d \<Rightarrow> 'd \<Rightarrow> bool"
  assumes refl: "R d d"
    and trans: "R d1 d2 \<Longrightarrow> R d2 d3 \<Longrightarrow> R d1 d3"
begin

lemma moves_lift: "moves R (lift x)"
  by (simp add: moves_def refl)

lemma moves_ask:
  assumes "moves R m" "\<And>a. moves R (f a)"
  shows "moves R (ask m f)"
  unfolding moves_def
proof
  fix w
  obtain r w1 where m: "m w = (r, w1)"
    by (meson prod.exhaust)
  with assms(1) have "R (world_db w) (world_db w1)"
    unfolding moves_def by (metis snd_conv)
  moreover have "R (world_db w1) (world_db (snd (f a w1)))" for a
    using assms(2) by (simp add: moves_def)
  ultimately show "R (world_db w) (world_db (snd (ask m f w)))"
    using m trans by (cases r) (auto simp: ask_def)
qed

lemma moves_run_sql: "(\<And>d. R d (snd (q d))) \<Longrightarrow> moves R (run_sql q)"
  by (auto simp: moves_def run_sql_def Let_def refl split: prod.splits fault.splits)
    (metis snd_conv)+

lemma moves_query: "(\<And>d. R d (snd (q d))) \<Longrightarrow> moves R (query q)"
  unfolding query_def or_database_error_def by (intro moves_ask moves_run_sql moves_lift) auto

lemma moves_call: "moves R (call f)"
  by (simp add: moves_def call_def refl split: prod.splits)

lemma moves_request: "moves R (request f e)"
  unfolding request_def by (intro moves_ask moves_call moves_lift)

lemma moves_in_dbtx:
  assumes "moves R body"
  shows "moves R (in_dbtx body)"
  unfolding moves_def
proof
  fix w
  obtain r w' where w': "in_dbtx body w = (r, w')"
    by (meson prod.exhaust)
  from w' show "R (world_db w) (world_db (snd (in_dbtx body w)))"
  proof (cases rule: in_dbtx_cases)
    case (committed w1 a w2)
    with assms [unfolded moves_def, rule_format, of w1] w' show ?thesis
      by simp
  qed (simp add: w' refl)
qed

lemma moves_if: "moves R m \<Longrightarrow> moves R m' \<Longrightarrow> moves R (if b then m else m')"
  by simp

lemma moves_prod: "(\<And>a b. moves R (f a b)) \<Longrightarrow> moves R (case p of (a, b) \<Rightarrow> f a b)"
  by (cases p) simp

lemma moves_option:
  "moves R m \<Longrightarrow> (\<And>a. moves R (f a)) \<Longrightarrow> moves R (case x of None \<Rightarrow> m | Some a \<Rightarrow> f a)"
  by (cases x) simp_all

lemma moves_sum:
  "(\<And>e. moves R (g e)) \<Longrightarrow> (\<And>a. moves R (f a)) \<Longrightarrow> moves R (case x of Inl e \<Rightarrow> g e | Inr a \<Rightarrow> f a)"
  by (cases x) simp_all

lemmas moves_intros = moves_lift moves_ask moves_run_sql moves_query moves_call moves_request
  moves_in_dbtx moves_if moves_prod moves_option moves_sum

lemma moves_ok: "moves R m \<Longrightarrow> m w = (r, w') \<Longrightarrow> R (world_db w) (world_db w')"
  unfolding moves_def by (metis snd_conv)

end

text \<open>Handlers that only read.\<close>

interpretation same_db: db_order "(=)"
  by unfold_locales auto

end
