(* ===== verification/Bridge_Database.thy ===== *)
theory Bridge_Database
  imports Btc_Types World
begin

text \<open>
  \<open>core/src/database/common.rs\<close> over the schema of \<open>scripts/schema.sql\<close>: a table is the list of its
  rows in the order of insertion, which is the order of the serial ids; a SQL statement is a
  function on the tables with the constraints, the trigger and the errors of PostgreSQL; a function of
  \<open>Database\<close> runs a statement and maps the result. A bound \<open>i32\<close> is an integer; the index columns are
  naturals, which agree with the casts below 2^31 rows. The argument \<open>tx\<close> only says which connection
  runs the statement: a call with \<open>Some tx\<close> stands inside \<open>in_dbtx\<close>.
\<close>

section \<open>Tables\<close>

record generator_row =
  gen_txid :: txid
  gen_raw_signed_tx :: string
  gen_num_kickoffs :: int
  gen_cur_unused :: int
  gen_funding_txid :: txid

record nonce_row =
  nonce_deposit :: outpoint
  nonce_idx :: nat
  nonce_pub :: bytes
  nonce_sec :: bytes
  nonce_agg :: "bytes option"
  nonce_sighash :: "bytes option"

record kickoff_row =
  kickoff_deposit :: outpoint
  kickoff_operator_idx :: nat
  kickoff_row_utxo :: utxo
  kickoff_slash_or_take_sig :: "signature option"
  kickoff_operator_take_sig :: "signature option"

record deposit_row =
  deposit_row_outpoint :: outpoint
  deposit_row_recovery :: address
  deposit_row_evm :: evm_address

record database =
  funding_utxos :: "utxo list"
  deposit_kickoff_generator_txs :: "generator_row list"
  operators_kickoff_utxo :: "(outpoint \<times> utxo) list"
  nonces :: "nonce_row list"
  deposit_kickoff_utxos :: "kickoff_row list"
  deposit_infos :: "deposit_row list"

definition empty_database :: database where
  "empty_database = \<lparr>funding_utxos = [], deposit_kickoff_generator_txs = [],
     operators_kickoff_utxo = [], nonces = [], deposit_kickoff_utxos = [], deposit_infos = []\<rparr>"

type_synonym 'a statement = "(database, 'a) sql"
type_synonym ('n, 'a) handler = "((database, 'n) world, 'a) action"

text \<open>\<open>as i32\<close>, and an \<open>i32\<close> read back \<open>as u32\<close> or \<open>as usize\<close>.\<close>

definition i32_of_usize :: "u64 \<Rightarrow> int" where
  "i32_of_usize x = sint (ucast x :: i32)"

text \<open>Opening the pool of connections.\<close>

definition database_new :: "('n, unit) handler" where
  "database_new = query (\<lambda>d. (Inr (), d))"

section \<open>Statements of an operator\<close>

definition sql_get_kickoff_utxo :: "outpoint \<Rightarrow> utxo statement" where
  "sql_get_kickoff_utxo deposit_outpoint d =
    (case map_of (operators_kickoff_utxo d) deposit_outpoint of
       None \<Rightarrow> (Inl Row_Not_Found, d)
     | Some utxo \<Rightarrow> (Inr utxo, d))"

text \<open>
  The row with the largest id among those with an unused output, with its counter after the update.
\<close>

definition has_unused :: "generator_row \<Rightarrow> bool" where
  "has_unused row \<longleftrightarrow> gen_cur_unused row < gen_num_kickoffs row"

fun update_last :: "('r \<Rightarrow> bool) \<Rightarrow> ('r \<Rightarrow> 'r) \<Rightarrow> 'r list \<Rightarrow> ('r \<times> 'r list) option" where
  "update_last p f [] = None"
| "update_last p f (r # rs) =
    (case update_last p f rs of
       Some (r', rs') \<Rightarrow> Some (r', r # rs')
     | None \<Rightarrow> if p r then Some (f r, f r # rs) else None)"

definition sql_increase_unused :: "(txid \<times> string \<times> int) statement" where
  "sql_increase_unused d =
    (case update_last has_unused (\<lambda>row. row\<lparr>gen_cur_unused := gen_cur_unused row + 1\<rparr>)
        (deposit_kickoff_generator_txs d) of
       None \<Rightarrow> (Inl Row_Not_Found, d)
     | Some (row, rows) \<Rightarrow>
         if gen_cur_unused row \<le> gen_num_kickoffs row
         then (Inr (gen_txid row, gen_raw_signed_tx row, gen_cur_unused row),
           d\<lparr>deposit_kickoff_generator_txs := rows\<rparr>)
         else (Inl Check_Violation, d))"

definition sql_get_funding_utxo :: "utxo statement" where
  "sql_get_funding_utxo d =
    (if funding_utxos d = [] then (Inl Row_Not_Found, d) else (Inr (last (funding_utxos d)), d))"

definition sql_set_funding_utxo :: "utxo \<Rightarrow> unit statement" where
  "sql_set_funding_utxo funding_utxo d =
    (Inr (), d\<lparr>funding_utxos := funding_utxos d @ [funding_utxo]\<rparr>)"

definition sql_save_kickoff_utxo :: "outpoint \<Rightarrow> utxo \<Rightarrow> unit statement" where
  "sql_save_kickoff_utxo deposit_outpoint kickoff_utxo d =
    (if deposit_outpoint \<in> fst ` set (operators_kickoff_utxo d) then (Inl Unique_Violation, d)
     else (Inr (), d\<lparr>operators_kickoff_utxo :=
       operators_kickoff_utxo d @ [(deposit_outpoint, kickoff_utxo)]\<rparr>))"

definition sql_add_generator_tx :: "txid \<Rightarrow> string \<Rightarrow> int \<Rightarrow> txid \<Rightarrow> unit statement" where
  "sql_add_generator_tx txid raw num_kickoffs funding_txid d =
    (if \<not> 1 \<le> num_kickoffs then (Inl Check_Violation, d)
     else if txid \<in> gen_txid ` set (deposit_kickoff_generator_txs d) then (Inl Unique_Violation, d)
     else (Inr (), d\<lparr>deposit_kickoff_generator_txs := deposit_kickoff_generator_txs d @
       [\<lparr>gen_txid = txid, gen_raw_signed_tx = raw, gen_num_kickoffs = num_kickoffs,
         gen_cur_unused = 1, gen_funding_txid = funding_txid\<rparr>]\<rparr>))"

definition sql_get_generator_tx :: "txid \<Rightarrow> generator_row option statement" where
  "sql_get_generator_tx txid d =
    (Inr (find (\<lambda>row. gen_txid row = txid) (deposit_kickoff_generator_txs d)), d)"

section \<open>Functions of an operator\<close>

text \<open>The match that turns the error \<open>RowNotFound\<close> of \<open>fetch_one\<close> into \<open>None\<close>.\<close>

definition optional_row :: "sql_error + 'a \<Rightarrow> ('w, 'a option) action" where
  "optional_row result = (case result of
      Inr a \<Rightarrow> return (Some a)
    | Inl e \<Rightarrow> if e = Row_Not_Found then return None else lift (Err DatabaseError))"

definition lock_operators_kickoff_utxo_table :: "('n, unit) handler" where
  "lock_operators_kickoff_utxo_table = query (\<lambda>d. (Inr (), d))"

definition get_kickoff_utxo :: "outpoint \<Rightarrow> ('n, utxo option) handler" where
  "get_kickoff_utxo deposit_outpoint =
    ask (run_sql (sql_get_kickoff_utxo deposit_outpoint)) optional_row"

definition unused_kickoff_result ::
  "'x script_lib_scheme \<Rightarrow> sql_error + (txid \<times> string \<times> int) \<Rightarrow> ('w, utxo option) action" where
  "unused_kickoff_result L result = (case result of
      Inr (txid, raw_signed_tx, cur_unused_kickoff_index) \<Rightarrow>
        lift (attempt (unwrap (hex_decode L raw_signed_tx)) (\<lambda>raw.
        attempt (ok_or (deserialize_tx L raw) BitcoinConsensusEncodeError) (\<lambda>tx.
        let outpoint = \<lparr>op_txid = txid, op_vout = word_of_int cur_unused_kickoff_index - 1\<rparr>
        in attempt (item_at (btc_output tx) (unat (word_of_int cur_unused_kickoff_index - 1 :: u64))) (\<lambda>txout.
        Ok (Some \<lparr>utxo_outpoint = outpoint, utxo_txout = txout\<rparr>)))))
    | Inl e \<Rightarrow>
        if e = Row_Not_Found then return None
        else if e = Check_Violation then return None
        else lift (Err DatabaseError))"

definition get_unused_kickoff_utxo_and_increase_idx ::
  "'x script_lib_scheme \<Rightarrow> ('n, utxo option) handler" where
  "get_unused_kickoff_utxo_and_increase_idx L =
    ask (run_sql sql_increase_unused) (unused_kickoff_result L)"

definition get_funding_utxo :: "('n, utxo option) handler" where
  "get_funding_utxo =
    ask (run_sql sql_get_funding_utxo) optional_row"

definition set_funding_utxo :: "utxo \<Rightarrow> ('n, unit) handler" where
  "set_funding_utxo funding_utxo = query (sql_set_funding_utxo funding_utxo)"

definition save_kickoff_utxo :: "outpoint \<Rightarrow> utxo \<Rightarrow> ('n, unit) handler" where
  "save_kickoff_utxo deposit_outpoint kickoff_utxo =
    query (sql_save_kickoff_utxo deposit_outpoint kickoff_utxo)"

definition add_deposit_kickoff_generator_tx ::
  "txid \<Rightarrow> string \<Rightarrow> u64 \<Rightarrow> txid \<Rightarrow> ('n, unit) handler" where
  "add_deposit_kickoff_generator_tx txid raw num_kickoffs funding_txid =
    query (sql_add_generator_tx txid raw (i32_of_usize num_kickoffs) funding_txid)"

definition get_deposit_kickoff_generator_tx ::
  "txid \<Rightarrow> ('n, (string \<times> u64 \<times> u64 \<times> txid) option) handler" where
  "get_deposit_kickoff_generator_tx txid =
    ask (query (sql_get_generator_tx txid)) (\<lambda>qr.
    return (case qr of
        Some row \<Rightarrow> Some (gen_raw_signed_tx row, word_of_int (gen_num_kickoffs row),
          word_of_int (gen_cur_unused row), gen_funding_txid row)
      | None \<Rightarrow> None))"

section \<open>Statements of a verifier\<close>

text \<open>A batch is the rows given to \<open>VALUES\<close>; an empty one is not valid SQL.\<close>

definition batch_of :: "'a list \<Rightarrow> (nat \<times> 'a) list" where
  "batch_of xs = zip [0..<length xs] xs"

definition sql_get_kickoff_utxos :: "outpoint \<Rightarrow> utxo list statement" where
  "sql_get_kickoff_utxos deposit_outpoint d =
    (Inr (List.map kickoff_row_utxo (sort_key kickoff_operator_idx
       (filter (\<lambda>row. kickoff_deposit row = deposit_outpoint) (deposit_kickoff_utxos d)))), d)"

definition insert_kickoff_row :: "outpoint \<Rightarrow> nat \<times> utxo \<Rightarrow> kickoff_row list \<Rightarrow> kickoff_row list" where
  "insert_kickoff_row deposit_outpoint = (\<lambda>(i, utxo) rows.
    if (deposit_outpoint, i) \<in> (\<lambda>row. (kickoff_deposit row, kickoff_operator_idx row)) ` set rows
    then rows
    else rows @ [\<lparr>kickoff_deposit = deposit_outpoint, kickoff_operator_idx = i,
      kickoff_row_utxo = utxo, kickoff_slash_or_take_sig = None, kickoff_operator_take_sig = None\<rparr>])"

definition sql_save_kickoff_utxos :: "outpoint \<Rightarrow> utxo list \<Rightarrow> unit statement" where
  "sql_save_kickoff_utxos deposit_outpoint utxos d =
    (if utxos = [] then (Inl Syntax_Error, d)
     else (Inr (), d\<lparr>deposit_kickoff_utxos :=
       fold (insert_kickoff_row deposit_outpoint) (batch_of utxos) (deposit_kickoff_utxos d)\<rparr>))"

definition nonce_rows :: "outpoint \<Rightarrow> database \<Rightarrow> nonce_row list" where
  "nonce_rows deposit_outpoint d =
    sort_key nonce_idx (filter (\<lambda>row. nonce_deposit row = deposit_outpoint) (nonces d))"

definition sql_get_pub_nonces :: "outpoint \<Rightarrow> bytes list statement" where
  "sql_get_pub_nonces deposit_outpoint d =
    (Inr (List.map nonce_pub (nonce_rows deposit_outpoint d)), d)"

definition nonce_key :: "nonce_row \<Rightarrow> outpoint \<times> nat" where
  "nonce_key row = (nonce_deposit row, nonce_idx row)"

definition nonce_row_of :: "outpoint \<Rightarrow> nat \<times> (bytes \<times> bytes) \<Rightarrow> nonce_row" where
  "nonce_row_of deposit_outpoint = (\<lambda>(i, (sec, pub)).
    \<lparr>nonce_deposit = deposit_outpoint, nonce_idx = i, nonce_pub = pub, nonce_sec = sec,
     nonce_agg = None, nonce_sighash = None\<rparr>)"

definition sql_save_nonces :: "outpoint \<Rightarrow> (bytes \<times> bytes) list \<Rightarrow> unit statement" where
  "sql_save_nonces deposit_outpoint pairs d =
    (let rows = List.map (nonce_row_of deposit_outpoint) (batch_of pairs)
     in if pairs = [] then (Inl Syntax_Error, d)
     else if \<exists>row \<in> set rows. nonce_key row \<in> nonce_key ` set (nonces d) then (Inl Unique_Violation, d)
     else (Inr (), d\<lparr>nonces := nonces d @ rows\<rparr>))"

definition sql_save_deposit_info :: "outpoint \<Rightarrow> address \<Rightarrow> evm_address \<Rightarrow> unit statement" where
  "sql_save_deposit_info deposit_outpoint recovery_taproot_address evm_address d =
    (if deposit_outpoint \<in> deposit_row_outpoint ` set (deposit_infos d)
     then (Inl Unique_Violation, d)
     else (Inr (), d\<lparr>deposit_infos := deposit_infos d @
       [\<lparr>deposit_row_outpoint = deposit_outpoint, deposit_row_recovery = recovery_taproot_address,
         deposit_row_evm = evm_address\<rparr>]\<rparr>))"

definition sql_get_deposit_info :: "outpoint \<Rightarrow> (address \<times> evm_address) statement" where
  "sql_get_deposit_info deposit_outpoint d =
    (case find (\<lambda>row. deposit_row_outpoint row = deposit_outpoint) (deposit_infos d) of
       Some row \<Rightarrow> (Inr (deposit_row_recovery row, deposit_row_evm row), d)
     | None \<Rightarrow> (Inl Row_Not_Found, d))"

text \<open>The trigger \<open>prevent_sighash_update\<close>, which looks at every updated row of the table.\<close>

definition sighash_update_allowed :: "nonce_row \<Rightarrow> nonce_row \<Rightarrow> bool" where
  "sighash_update_allowed old_row new_row \<longleftrightarrow>
    \<not> (nonce_sighash old_row \<noteq> None \<and> nonce_sighash new_row \<noteq> nonce_sighash old_row)"

definition update_nonces :: "(nonce_row \<Rightarrow> nonce_row) \<Rightarrow> unit statement" where
  "update_nonces f d =
    (if \<forall>row \<in> set (nonces d). sighash_update_allowed row (f row)
     then (Inr (), d\<lparr>nonces := List.map f (nonces d)\<rparr>)
     else (Inl Raised_Exception, d))"

text \<open>
  The statement sets the hashes of the batch and returns the nonces of the rows it updated; a row
  without an aggregated nonce cannot be decoded by the client, after the update was made.
\<close>

definition set_sighash :: "outpoint \<Rightarrow> (nat \<times> bytes) list \<Rightarrow> nonce_row \<Rightarrow> nonce_row" where
  "set_sighash deposit_outpoint batch row =
    (if nonce_deposit row = deposit_outpoint then
       (case map_of batch (nonce_idx row) of
          Some sighash \<Rightarrow> row\<lparr>nonce_sighash := Some sighash\<rparr>
        | None \<Rightarrow> row)
     else row)"

definition decode_nonces :: "nonce_row list \<Rightarrow> (bytes \<times> bytes) list option" where
  "decode_nonces rows = those (List.map (\<lambda>row. map_option (Pair (nonce_sec row)) (nonce_agg row)) rows)"

definition sql_save_sighashes_and_get_nonces ::
  "outpoint \<Rightarrow> nat \<Rightarrow> bytes list \<Rightarrow> (bytes \<times> bytes) list statement" where
  "sql_save_sighashes_and_get_nonces deposit_outpoint index sighashes d =
    (let batch = List.map (\<lambda>(i, sighash). (index + i, sighash)) (batch_of sighashes)
     in if sighashes = [] then (Inl Syntax_Error, d)
     else case update_nonces (set_sighash deposit_outpoint batch) d of
       (Inl e, d') \<Rightarrow> (Inl e, d')
     | (Inr _, d') \<Rightarrow>
         (case decode_nonces (filter (\<lambda>row. nonce_idx row \<in> fst ` set batch)
             (nonce_rows deposit_outpoint d')) of
            Some result \<Rightarrow> (Inr result, d')
          | None \<Rightarrow> (Inl Unexpected_Null, d')))"

definition set_agg_nonce :: "outpoint \<Rightarrow> (nat \<times> bytes) list \<Rightarrow> nonce_row \<Rightarrow> nonce_row" where
  "set_agg_nonce deposit_outpoint batch row =
    (if nonce_deposit row = deposit_outpoint then
       (case map_of batch (nonce_idx row) of
          Some agg_nonce \<Rightarrow> row\<lparr>nonce_agg := Some agg_nonce\<rparr>
        | None \<Rightarrow> row)
     else row)"

definition sql_save_agg_nonces :: "outpoint \<Rightarrow> bytes list \<Rightarrow> unit statement" where
  "sql_save_agg_nonces deposit_outpoint agg_nonces d =
    (if agg_nonces = [] then (Inl Syntax_Error, d)
     else update_nonces (set_agg_nonce deposit_outpoint (batch_of agg_nonces)) d)"

text \<open>When the batch of the second statement holds an output twice, the first entry is taken.\<close>

definition sql_save_slash_or_take_sigs :: "outpoint \<Rightarrow> signature list \<Rightarrow> unit statement" where
  "sql_save_slash_or_take_sigs deposit_outpoint sigs d =
    (if sigs = [] then (Inl Syntax_Error, d)
     else (Inr (), d\<lparr>deposit_kickoff_utxos := List.map (\<lambda>row.
       if kickoff_deposit row = deposit_outpoint then
         (case map_of (batch_of sigs) (kickoff_operator_idx row) of
            Some sig \<Rightarrow> row\<lparr>kickoff_slash_or_take_sig := Some sig\<rparr>
          | None \<Rightarrow> row)
       else row) (deposit_kickoff_utxos d)\<rparr>))"

definition sql_save_operator_take_sigs :: "outpoint \<Rightarrow> (utxo \<times> signature) list \<Rightarrow> unit statement" where
  "sql_save_operator_take_sigs deposit_outpoint utxos_and_sigs d =
    (if utxos_and_sigs = [] then (Inl Syntax_Error, d)
     else (Inr (), d\<lparr>deposit_kickoff_utxos := List.map (\<lambda>row.
       if kickoff_deposit row = deposit_outpoint then
         (case map_of utxos_and_sigs (kickoff_row_utxo row) of
            Some sig \<Rightarrow> row\<lparr>kickoff_operator_take_sig := Some sig\<rparr>
          | None \<Rightarrow> row)
       else row) (deposit_kickoff_utxos d)\<rparr>))"

text \<open>The first row of the deposit with the output; a missing signature cannot be decoded.\<close>

definition sql_get_sig ::
  "(kickoff_row \<Rightarrow> signature option) \<Rightarrow> outpoint \<Rightarrow> utxo \<Rightarrow> signature option statement" where
  "sql_get_sig column deposit_outpoint kickoff_utxo d =
    (case find (\<lambda>row. kickoff_deposit row = deposit_outpoint \<and> kickoff_row_utxo row = kickoff_utxo)
        (deposit_kickoff_utxos d) of
       None \<Rightarrow> (Inr None, d)
     | Some row \<Rightarrow>
         (case column row of
            Some sig \<Rightarrow> (Inr (Some sig), d)
          | None \<Rightarrow> (Inl Unexpected_Null, d)))"

section \<open>Functions of a verifier\<close>

definition some_unless_empty :: "'a list \<Rightarrow> 'a list option" where
  "some_unless_empty xs = (if xs = [] then None else Some xs)"

definition get_kickoff_utxos :: "outpoint \<Rightarrow> ('n, utxo list option) handler" where
  "get_kickoff_utxos deposit_outpoint =
    ask (query (sql_get_kickoff_utxos deposit_outpoint)) (\<lambda>qr. return (some_unless_empty qr))"

definition save_kickoff_utxos :: "outpoint \<Rightarrow> utxo list \<Rightarrow> ('n, unit) handler" where
  "save_kickoff_utxos deposit_outpoint utxos = query (sql_save_kickoff_utxos deposit_outpoint utxos)"

definition get_pub_nonces :: "outpoint \<Rightarrow> ('n, bytes list option) handler" where
  "get_pub_nonces deposit_outpoint =
    ask (query (sql_get_pub_nonces deposit_outpoint)) (\<lambda>result. return (some_unless_empty result))"

definition save_nonces :: "outpoint \<Rightarrow> (bytes \<times> bytes) list \<Rightarrow> ('n, unit) handler" where
  "save_nonces deposit_outpoint pairs = query (sql_save_nonces deposit_outpoint pairs)"

definition save_deposit_info :: "outpoint \<Rightarrow> address \<Rightarrow> evm_address \<Rightarrow> ('n, unit) handler" where
  "save_deposit_info deposit_outpoint recovery_taproot_address evm_address =
    query (sql_save_deposit_info deposit_outpoint recovery_taproot_address evm_address)"

definition get_deposit_info :: "outpoint \<Rightarrow> ('n, (address \<times> evm_address) option) handler" where
  "get_deposit_info deposit_outpoint =
    ask (query (sql_get_deposit_info deposit_outpoint)) (\<lambda>qr. return (Some qr))"

definition save_sighashes_and_get_nonces ::
  "outpoint \<Rightarrow> nat \<Rightarrow> bytes list \<Rightarrow> ('n, (bytes \<times> bytes) list option) handler" where
  "save_sighashes_and_get_nonces deposit_outpoint index sighashes =
    ask (run_sql (sql_save_sighashes_and_get_nonces deposit_outpoint index sighashes)) optional_row"

definition save_agg_nonces :: "outpoint \<Rightarrow> bytes list \<Rightarrow> ('n, unit) handler" where
  "save_agg_nonces deposit_outpoint agg_nonces = query (sql_save_agg_nonces deposit_outpoint agg_nonces)"

definition save_slash_or_take_sigs :: "outpoint \<Rightarrow> signature list \<Rightarrow> ('n, unit) handler" where
  "save_slash_or_take_sigs deposit_outpoint sigs =
    query (sql_save_slash_or_take_sigs deposit_outpoint sigs)"

definition get_slash_or_take_sig :: "outpoint \<Rightarrow> utxo \<Rightarrow> ('n, signature option) handler" where
  "get_slash_or_take_sig deposit_outpoint kickoff_utxo =
    query (sql_get_sig kickoff_slash_or_take_sig deposit_outpoint kickoff_utxo)"

definition save_operator_take_sigs :: "outpoint \<Rightarrow> (utxo \<times> signature) list \<Rightarrow> ('n, unit) handler" where
  "save_operator_take_sigs deposit_outpoint utxos_and_sigs =
    query (sql_save_operator_take_sigs deposit_outpoint utxos_and_sigs)"

definition get_operator_take_sig :: "outpoint \<Rightarrow> utxo \<Rightarrow> ('n, signature option) handler" where
  "get_operator_take_sig deposit_outpoint kickoff_utxo =
    query (sql_get_sig kickoff_operator_take_sig deposit_outpoint kickoff_utxo)"

section \<open>Tables written once\<close>

text \<open>
  What the handlers rely on where a table has a primary key and rows that never change: a value can
  be saved only under a new key, and is found from then on.
\<close>

locale write_once_table =
  fixes lookup :: "'d \<Rightarrow> 'k \<Rightarrow> 'v option"
    and save :: "'k \<Rightarrow> 'v \<Rightarrow> ('d, unit) sql"
  assumes save_new: "lookup d k = None \<Longrightarrow>
      \<exists>d'. save k v d = (Inr (), d') \<and> lookup d' = (lookup d)(k \<mapsto> v)"
    and save_old: "lookup d k = Some v' \<Longrightarrow> \<exists>e. save k v d = (Inl e, d)"
begin

definition kept :: "'d \<Rightarrow> 'd \<Rightarrow> bool" where
  "kept d d' \<longleftrightarrow> lookup d \<subseteq>\<^sub>m lookup d'"

lemma kept_lookup: "kept d d' \<Longrightarrow> lookup d k = Some v \<Longrightarrow> lookup d' k = Some v"
  by (auto simp: kept_def map_le_def dom_def)

lemma save_kept: "kept d (snd (save k v d))"
proof (cases "lookup d k")
  case None
  then obtain d' where "save k v d = (Inr (), d')" "lookup d' = (lookup d)(k \<mapsto> v)"
    using save_new by blast
  with None show ?thesis
    by (auto simp: kept_def map_le_def dom_def)
next
  case (Some v')
  then obtain e where "save k v d = (Inl e, d)"
    using save_old by blast
  then show ?thesis
    by (simp add: kept_def)
qed

lemma save_Inr:
  assumes "save k v d = (Inr u, d')"
  shows "lookup d k = None \<and> lookup d' = (lookup d)(k \<mapsto> v)"
proof (cases "lookup d k")
  case None
  with save_new [OF None, of v] assms show ?thesis
    by auto
next
  case (Some v')
  with save_old [OF Some, of v] assms show ?thesis
    by auto
qed

end

sublocale write_once_table \<subseteq> order: db_order kept
  by unfold_locales (auto simp: kept_def intro: map_le_trans)

definition kickoff_of :: "database \<Rightarrow> outpoint \<Rightarrow> utxo option" where
  "kickoff_of d = map_of (operators_kickoff_utxo d)"

lemma map_of_snoc: "k \<notin> fst ` set xs \<Longrightarrow> [k \<mapsto> v] ++ map_of xs = (map_of xs)(k \<mapsto> v)"
  unfolding map_of_eq_None_iff [symmetric] by (auto simp: fun_eq_iff map_add_def split: option.splits)

interpretation kickoff_table: write_once_table kickoff_of sql_save_kickoff_utxo
proof
  fix d k v v'
  show "\<exists>d'. sql_save_kickoff_utxo k v d = (Inr (), d') \<and> kickoff_of d' = (kickoff_of d)(k \<mapsto> v)"
    if "kickoff_of d k = None"
    using that by (simp add: kickoff_of_def sql_save_kickoff_utxo_def map_of_eq_None_iff map_of_snoc)
  show "\<exists>e. sql_save_kickoff_utxo k v d = (Inl e, d)" if "kickoff_of d k = Some v'"
    using map_of_SomeD [OF that [unfolded kickoff_of_def]]
    by (force simp: sql_save_kickoff_utxo_def)
qed

definition deposit_info_of :: "database \<Rightarrow> outpoint \<Rightarrow> (address \<times> evm_address) option" where
  "deposit_info_of d = map_of (List.map (\<lambda>row.
     (deposit_row_outpoint row, (deposit_row_recovery row, deposit_row_evm row))) (deposit_infos d))"

definition sql_save_info :: "outpoint \<Rightarrow> address \<times> evm_address \<Rightarrow> unit statement" where
  "sql_save_info deposit_outpoint info =
    sql_save_deposit_info deposit_outpoint (fst info) (snd info)"

interpretation deposit_table: write_once_table deposit_info_of sql_save_info
proof
  fix d k v
  assume "deposit_info_of d k = None"
  then have k: "k \<notin> deposit_row_outpoint ` set (deposit_infos d)"
    by (simp add: deposit_info_of_def map_of_eq_None_iff image_image)
  then have "k \<notin> fst ` set (List.map (\<lambda>row. (deposit_row_outpoint row,
      (deposit_row_recovery row, deposit_row_evm row))) (deposit_infos d))"
    by (simp add: image_image)
  from map_of_snoc [OF this] k show "\<exists>d'. sql_save_info k v d = (Inr (), d') \<and> deposit_info_of d' = (deposit_info_of d)(k \<mapsto> v)"
    by (simp add: sql_save_info_def sql_save_deposit_info_def deposit_info_of_def)
next
  fix d k v v'
  assume "deposit_info_of d k = Some v'"
  then have "k \<in> deposit_row_outpoint ` set (deposit_infos d)"
    by (auto simp: deposit_info_of_def dest!: map_of_SomeD)
  then show "\<exists>e. sql_save_info k v d = (Inl e, d)"
    by (simp add: sql_save_info_def sql_save_deposit_info_def)
qed

lemma sql_get_deposit_info_eq:
  "sql_get_deposit_info k d = (case deposit_info_of d k of
     Some info \<Rightarrow> (Inr info, d) | None \<Rightarrow> (Inl Row_Not_Found, d))"
proof -
  have "map_of (List.map (\<lambda>row. (deposit_row_outpoint row, f row)) rows) k =
      map_option f (find (\<lambda>row. deposit_row_outpoint row = k) rows)" for rows :: "deposit_row list" and f :: "deposit_row \<Rightarrow> address \<times> evm_address"
    by (induction rows) auto
  then show ?thesis
    by (auto simp: sql_get_deposit_info_def deposit_info_of_def split: option.splits)
qed

lemma optional_row_eq_Ok:
  "optional_row result w = (Ok r, w') \<longleftrightarrow>
    w' = w \<and> (result = Inl Row_Not_Found \<and> r = None \<or> (\<exists>a. result = Inr a \<and> r = Some a))"
  by (cases result) (auto simp: optional_row_def)

lemma get_kickoff_utxo_eq_Ok:
  assumes "get_kickoff_utxo k w = (Ok r, w')"
  shows "r = kickoff_of (world_db w) k \<and> world_db w' = world_db w \<and> world_node w' = world_node w"
proof -
  from assms obtain result where r: "run_sql (sql_get_kickoff_utxo k) w = (Ok result, w')"
    "result = Inl Row_Not_Found \<and> r = None \<or> (\<exists>a. result = Inr a \<and> r = Some a)"
    by (auto simp: get_kickoff_utxo_def ask_eq_Ok optional_row_eq_Ok)
  from run_sql_eq_Ok [OF r(1)] r(2) show ?thesis
    by (auto simp: sql_get_kickoff_utxo_def kickoff_of_def split: option.splits)
qed

section \<open>Statements that only read\<close>

lemma read_statements [simp]:
  "snd (sql_get_kickoff_utxo k d) = d" "snd (sql_get_funding_utxo d) = d"
  "snd (sql_get_generator_tx txid d) = d" "snd (sql_get_kickoff_utxos k d) = d"
  "snd (sql_get_pub_nonces k d) = d" "snd (sql_get_deposit_info k d) = d"
  "snd (sql_get_sig column k u d) = d"
  by (simp_all add: sql_get_kickoff_utxo_def sql_get_funding_utxo_def sql_get_generator_tx_def
      sql_get_kickoff_utxos_def sql_get_pub_nonces_def sql_get_deposit_info_def sql_get_sig_def
      split: option.splits)

context db_order begin

lemma moves_optional_row: "moves R (optional_row result)"
  unfolding optional_row_def by (intro moves_intros)

end

lemma get_functions_read [intro]:
  "moves (=) (get_kickoff_utxo k)" "moves (=) get_funding_utxo"
  "moves (=) (get_deposit_kickoff_generator_tx txid)" "moves (=) (get_kickoff_utxos k)"
  "moves (=) (get_pub_nonces k)" "moves (=) (get_deposit_info k)"
  "moves (=) (get_slash_or_take_sig k u)" "moves (=) (get_operator_take_sig k u)"
  "moves (=) lock_operators_kickoff_utxo_table"
  unfolding get_kickoff_utxo_def get_funding_utxo_def get_deposit_kickoff_generator_tx_def
    get_kickoff_utxos_def get_pub_nonces_def get_deposit_info_def get_slash_or_take_sig_def
    get_operator_take_sig_def lock_operators_kickoff_utxo_table_def
  by (intro same_db.moves_intros same_db.moves_optional_row; simp)+

end
