(* ===== verification/Utilities.thy ===== *)
theory Utilities
  imports Prelude
begin

text \<open>
  The two arithmetic helpers of \<open>core/src/utils.rs\<close>. \<open>usize_to_var_len_bytes\<close> encodes the index of
  an operator in the connector scripts; \<open>get_claim_reveal_indices\<close> names the subtrees of a claim
  tree whose preimages are revealed. A \<open>usize\<close> is 64 bits wide. The lemmas show that the encoding
  is the shortest big-endian one, and that the subtrees tile exactly the unclaimed leaves.
\<close>

section \<open>Variable-length integers\<close>

text \<open>\<open>ilog2\<close> of the standard library, for a positive argument.\<close>

fun ilog2 :: "nat \<Rightarrow> nat" where
  "ilog2 n = (if n < 2 then 0 else Suc (ilog2 (n div 2)))"

declare ilog2.simps [simp del]

definition usize_to_var_len_bytes :: "u64 \<Rightarrow> bytes" where
  "usize_to_var_len_bytes x =
    (let usize_bytes = 8;
         bits = ilog2 (max (unat x) 1) + 1;
         len = (bits + 7) div 8;
         empty = usize_bytes - len
     in drop empty (u64_be x))"

lemma ilog2_bounds: "0 < n \<Longrightarrow> 2 ^ ilog2 n \<le> n \<and> n < 2 ^ Suc (ilog2 n)"
proof (induction n rule: ilog2.induct)
  case (1 n)
  show ?case
  proof (cases "n < 2")
    case True
    with 1 have "n = 1" by simp
    then show ?thesis by (simp add: ilog2.simps)
  next
    case False
    with 1 have "2 ^ ilog2 (n div 2) \<le> n div 2 \<and> n div 2 < 2 ^ Suc (ilog2 (n div 2))"
      by simp
    moreover have "ilog2 n = Suc (ilog2 (n div 2))"
      using False by (subst ilog2.simps) simp
    ultimately show ?thesis by auto
  qed
qed

lemma ilog2_less: "0 < n \<Longrightarrow> n < 2 ^ k \<Longrightarrow> ilog2 n < k"
  using ilog2_bounds [of n] power_less_imp_less_exp [of "2::nat" "ilog2 n" k] by linarith

text \<open>The number of bytes kept, as a bound on the value in base 256.\<close>

definition var_len :: "u64 \<Rightarrow> nat" where
  "var_len x = (ilog2 (max (unat x) 1) + 8) div 8"

lemma var_len_range: "0 < var_len x" "var_len x \<le> 8"
proof -
  have "max (unat x) 1 < 2 ^ 64"
    using unat_less_pow [of x] by simp
  then have "ilog2 (max (unat x) 1) < 64"
    by (rule ilog2_less [rotated]) simp
  then show "0 < var_len x" "var_len x \<le> 8"
    by (simp_all add: var_len_def)
qed

lemma var_len_upper: "unat x < 256 ^ var_len x"
proof -
  let ?l = "ilog2 (max (unat x) 1)"
  have "unat x < 2 ^ Suc ?l"
    using ilog2_bounds [of "max (unat x) 1"] by linarith
  also have "\<dots> \<le> 2 ^ (8 * var_len x)"
    by (rule power_increasing) (auto simp: var_len_def)
  finally show ?thesis by (simp add: power_mult)
qed

lemma var_len_lower: "256 ^ (var_len x - 1) \<le> max 1 (unat x)"
proof -
  let ?l = "ilog2 (max (unat x) 1)"
  have "(256::nat) ^ (var_len x - 1) = 2 ^ (8 * (var_len x - 1))"
    by (simp add: power_mult)
  also have "\<dots> \<le> 2 ^ ?l"
    by (rule power_increasing) (auto simp: var_len_def)
  also have "\<dots> \<le> max 1 (unat x)"
    using ilog2_bounds [of "max (unat x) 1"] by (simp add: max.commute)
  finally show ?thesis .
qed

lemma take_le_bytes [byte_simps]: "m \<le> n \<Longrightarrow> take m (le_bytes n x) = le_bytes m x"
proof (induction n arbitrary: m x)
  case 0
  then show ?case by simp
next
  case (Suc n)
  then show ?case by (cases m) auto
qed

lemma usize_to_var_len_bytes_eq:
  "usize_to_var_len_bytes x = rev (le_bytes (var_len x) (unat x))"
  using var_len_range(2) [of x]
  by (simp add: usize_to_var_len_bytes_def u64_be_def var_len_def Let_def
      drop_rev take_le_bytes add.commute)

lemma usize_to_var_len_bytes_inject:
  "usize_to_var_len_bytes x = usize_to_var_len_bytes y \<longleftrightarrow> x = y"
proof
  assume "usize_to_var_len_bytes x = usize_to_var_len_bytes y"
  then have "from_le (rev (usize_to_var_len_bytes x)) = from_le (rev (usize_to_var_len_bytes y))"
    by simp
  then have "unat x = unat y"
    using var_len_upper [of x] var_len_upper [of y]
    by (simp add: usize_to_var_len_bytes_eq from_le_le_bytes)
  then show "x = y"
    by (simp add: word_unat_eq_iff)
qed simp

section \<open>Claim tree indices\<close>

text \<open>
  \<open>assert!\<close> is the branch \<^const>\<open>None\<close>. The subtraction \<open>depth - 1\<close> does not underflow: at depth 0 the
  assertion leaves only the two values of \<open>count\<close> that return before it.
\<close>

fun get_claim_reveal_indices :: "nat \<Rightarrow> u32 \<Rightarrow> (nat \<times> nat) list option" where
  "get_claim_reveal_indices depth count =
    (let pow = 2 ^ unat (word_of_nat depth :: u32) in
     if \<not> count \<le> pow then None
     else if count = 0 then Some [(0, 0)]
     else if count = pow then Some []
     else case depth of
       0 \<Rightarrow> None
     | Suc d \<Rightarrow>
         if count mod 2 = 1 then do {
           rest \<leftarrow> get_claim_reveal_indices d ((count + 1) div 2);
           Some ((depth, unat count) # rest)
         }
         else get_claim_reveal_indices d (count div 2))"

declare get_claim_reveal_indices.simps [simp del]

text \<open>The leaves under node \<open>(d, i)\<close> of a tree of the given depth.\<close>

definition leaves_under :: "nat \<Rightarrow> nat \<times> nat \<Rightarrow> nat list" where
  "leaves_under depth = (\<lambda>(d, i). [i * 2 ^ (depth - d)..<(i + 1) * 2 ^ (depth - d)])"

lemma pow_word32:
  assumes "depth < 32"
  shows "unat (2 ^ unat (word_of_nat depth :: u32) :: u32) = 2 ^ depth"
proof -
  have "unat (word_of_nat depth :: u32) = depth"
    using assms by (simp add: unat_of_nat)
  moreover have "(2::nat) ^ depth < 2 ^ 32"
    using assms by (intro power_strict_increasing) simp_all
  then have "unat (word_of_nat (2 ^ depth) :: u32) = 2 ^ depth"
    by (simp add: unat_of_nat del: of_nat_power)
  then have "unat (2 ^ depth :: u32) = 2 ^ depth"
    by simp
  ultimately show ?thesis by simp
qed

lemma word_parity:
  fixes count :: u32
  shows "count mod 2 = 1 \<longleftrightarrow> odd (unat count)" "unat (count div 2) = unat count div 2"
  by (simp_all add: word_unat_eq_iff unat_mod unat_div odd_iff_mod_2_eq_one)

lemma odd_half:
  fixes count :: u32
  assumes "unat count < 2 ^ 31"
  shows "unat ((count + 1) div 2) = (unat count + 1) div 2"
  using assms by (simp add: unat_div unat_word_ariths)

text \<open>Of a tree deeper by \<open>k\<close> levels the same nodes cover the leaves below the unclaimed ones.\<close>

lemma reveal_indices_tile:
  assumes "depth < 32" "unat count \<le> 2 ^ depth"
  shows "\<exists>idx. get_claim_reveal_indices depth count = Some idx \<and>
    concat (List.map (leaves_under (depth + k)) idx) = [unat count * 2 ^ k..<2 ^ (depth + k)] \<and>
    (\<forall>x \<in> set idx. fst x \<le> depth) \<and> sorted_wrt (>) (List.map fst idx)"
  using assms
proof (induction depth arbitrary: count k)
  case 0
  then show ?case
    by (auto simp: get_claim_reveal_indices.simps leaves_under_def word_le_nat_alt
        word_unat_eq_iff le_Suc_eq)
next
  case (Suc d)
  let ?c = "unat count" and ?g = get_claim_reveal_indices
  let ?tile = "\<lambda>D j idx c. concat (List.map (leaves_under (D + j)) idx) = [c * 2 ^ j..<2 ^ (D + j)]"
  have pow: "unat (2 ^ unat (word_of_nat (Suc d) :: u32) :: u32) = 2 ^ Suc d"
    using Suc.prems(1) by (rule pow_word32)
  have step: "?g (Suc d) count = (if ?c = 0 then Some [(0, 0)] else if ?c = 2 ^ Suc d then Some []
      else if odd ?c then
        do { rest \<leftarrow> ?g d ((count + 1) div 2); Some ((Suc d, ?c) # rest) }
      else ?g d (count div 2))"
    using Suc.prems(2) pow
    by (subst get_claim_reveal_indices.simps)
      (simp add: word_le_nat_alt word_unat_eq_iff [of count] word_parity del: power_Suc of_nat_Suc)
  have small: "?c < 2 ^ 31" if "odd ?c" "?c < 2 ^ Suc d"
  proof -
    have "(2::nat) ^ Suc d \<le> 2 ^ 31"
      using Suc.prems(1) by (intro power_increasing) simp_all
    with that show ?thesis by simp
  qed
  consider "?c = 0" | "?c = 2 ^ Suc d" | "?c \<noteq> 0" "?c < 2 ^ Suc d" "odd ?c"
    | "?c \<noteq> 0" "?c < 2 ^ Suc d" "even ?c"
    using Suc.prems(2) by linarith
  then show ?case
  proof cases
    case 3
    then have half: "unat ((count + 1) div 2) = (?c + 1) div 2"
      by (intro odd_half small)
    with 3 have "unat ((count + 1) div 2) \<le> 2 ^ d" by simp
    with Suc.IH [of "(count + 1) div 2" "Suc k"] Suc.prems(1) half obtain idx where
      idx: "?g d ((count + 1) div 2) = Some idx" "\<forall>x \<in> set idx. fst x \<le> d"
        "sorted_wrt (>) (List.map fst idx)" and tile: "?tile d (Suc k) idx ((?c + 1) div 2)"
      by auto
    have half_k: "(?c + 1) div 2 * 2 ^ Suc k = (?c + 1) * 2 ^ k"
      using 3 by (auto elim!: oddE)
    with tile have "concat (List.map (leaves_under (Suc d + k)) idx)
        = [(?c + 1) * 2 ^ k..<2 ^ (d + Suc k)]"
      by (simp only: add_Suc add_Suc_right)
    moreover have "[?c * 2 ^ k..<2 ^ (d + Suc k)]
        = [?c * 2 ^ k..<(?c + 1) * 2 ^ k] @ [(?c + 1) * 2 ^ k..<2 ^ (d + Suc k)]"
    proof -
      have "(?c + 1) * 2 ^ k \<le> 2 ^ Suc d * 2 ^ k"
        using 3 by (intro mult_right_mono) simp_all
      then have "(?c + 1) * 2 ^ k \<le> 2 ^ (d + Suc k)"
        by (simp add: power_add)
      moreover have "?c * 2 ^ k \<le> (?c + 1) * 2 ^ k"
        by simp
      ultimately show ?thesis
        by (metis le_Suc_ex upt_add_eq_append)
    qed
    moreover have "leaves_under (Suc d + k) (Suc d, ?c) = [?c * 2 ^ k..<(?c + 1) * 2 ^ k]"
      by (simp add: leaves_under_def)
    ultimately have "concat (List.map (leaves_under (Suc d + k)) ((Suc d, ?c) # idx))
        = [?c * 2 ^ k..<2 ^ (Suc d + k)]"
      by simp
    with 3 idx show ?thesis by (auto simp: step)
  next
    case 4
    then have "unat (count div 2) \<le> 2 ^ d"
      by (simp add: word_parity)
    with Suc.IH [of "count div 2" "Suc k"] Suc.prems(1) obtain idx where
      idx: "?g d (count div 2) = Some idx" "\<forall>x \<in> set idx. fst x \<le> d"
        "sorted_wrt (>) (List.map fst idx)" and tile: "?tile d (Suc k) idx (?c div 2)"
      by (auto simp: word_parity)
    have "?c div 2 * 2 ^ Suc k = ?c * 2 ^ k"
      using 4 by (auto elim!: evenE)
    with tile have "?tile (Suc d) k idx ?c"
      by (simp only: add_Suc add_Suc_right)
    with 4 idx show ?thesis by (auto simp: step)
  qed (auto simp: step leaves_under_def power_add)
qed

text \<open>
  The variable-length encoding of an operator index is read back by a big-endian decoder, and
  no shorter string holds the value: its leading byte is zero only for the index 0.
\<close>

lemma var_len_bytes_roundtrip_minimal:
  "from_le (rev (usize_to_var_len_bytes x)) = unat x \<and>
   256 ^ (length (usize_to_var_len_bytes x) - 1) \<le> max 1 (unat x) \<and>
   length (usize_to_var_len_bytes x) \<in> {1..8}"
  using var_len_upper [of x] var_len_lower [of x] var_len_range [of x]
  by (simp add: usize_to_var_len_bytes_eq from_le_le_bytes Suc_leI)

text \<open>
  C36. For every claim count that fits a tree of depth below 32, the indices returned name subtrees
  whose leaves, in order, are exactly the leaves from \<open>count\<close> to the last one, each once; there is
  at most one subtree per level. Asking for more leaves than the tree has panics.
\<close>

theorem claim_reveal_indices_tile:
  assumes "depth < 32"
  shows "case get_claim_reveal_indices depth count of
      None \<Rightarrow> 2 ^ depth < unat count
    | Some idx \<Rightarrow> unat count \<le> 2 ^ depth \<and>
        concat (List.map (leaves_under depth) idx) = [unat count..<2 ^ depth] \<and>
        sorted_wrt (>) (List.map fst idx)"
proof (cases "unat count \<le> 2 ^ depth")
  case True
  with reveal_indices_tile [OF assms True, of 0] show ?thesis by auto
next
  case False
  then have "get_claim_reveal_indices depth count = None"
    using pow_word32 [OF assms]
    by (subst get_claim_reveal_indices.simps) (simp add: word_le_nat_alt)
  with False show ?thesis by simp
qed

theorem claim_reveal_indices_tile_witness:
  "get_claim_reveal_indices 3 3 = Some [(3, 3), (1, 1)] \<and>
   concat (List.map (leaves_under 3) [(3, 3), (1, 1)]) = [3..<8]"
proof -
  have "get_claim_reveal_indices 3 3 = Some [(3, 3), (1, 1)]"
    by code_simp
  with claim_reveal_indices_tile [of 3 3] show ?thesis by simp
qed

end
