(* ===== verification/Script_Builder.thy ===== *)
theory Script_Builder
  imports Btc_Types Utilities
begin

text \<open>
  \<open>core/src/builder/script.rs\<close> and \<open>core/src/builder/address.rs\<close>: the scripts of the bridge as the
  pushes made to the builder of the \<open>bitcoin\<close> crate, and the taproot addresses made from them. The
  lemmas show that the depths given to the leaves of a taproot tree fill a binary tree exactly.
\<close>

section \<open>Scripts\<close>

definition OP_PUSHNUM_1 :: u8 where "OP_PUSHNUM_1 = 0x51"
definition OP_FALSE :: u8 where "OP_FALSE = 0x00"
definition OP_IF :: u8 where "OP_IF = 0x63"
definition OP_ENDIF :: u8 where "OP_ENDIF = 0x68"
definition OP_RETURN :: u8 where "OP_RETURN = 0x6a"
definition OP_DROP :: u8 where "OP_DROP = 0x75"
definition OP_CHECKSIG :: u8 where "OP_CHECKSIG = 0xac"
definition OP_CHECKSIGVERIFY :: u8 where "OP_CHECKSIGVERIFY = 0xad"
definition OP_CSV :: u8 where "OP_CSV = 0xb2"

definition anyone_can_spend_txout :: "'x script_lib_scheme \<Rightarrow> txout" where
  "anyone_can_spend_txout L =
    (let script = into_script L [Push_Opcode OP_PUSHNUM_1];
         script_pubkey = to_p2wsh L script;
         value = minimal_non_dust L script_pubkey
     in \<lparr>txout_value = value, txout_script = script_pubkey\<rparr>)"

definition op_return_txout :: "'x script_lib_scheme \<Rightarrow> bytes \<Rightarrow> txout" where
  "op_return_txout L pushed =
    (let script = into_script L [Push_Opcode OP_RETURN, Push_Slice pushed]
     in \<lparr>txout_value = 0, txout_script = script\<rparr>)"

definition create_deposit_script ::
  "'x script_lib_scheme \<Rightarrow> xonly \<Rightarrow> evm_address \<Rightarrow> amount \<Rightarrow> script" where
  "create_deposit_script L nofn_xonly_pk evm_address amount =
    (let citrea = [99, 105, 116, 114, 101, 97] in
     into_script L
       [Push_X_Only_Key nofn_xonly_pk, Push_Opcode OP_CHECKSIG, Push_Opcode OP_FALSE,
        Push_Opcode OP_IF, Push_Slice citrea, Push_Slice evm_address, Push_Slice (u64_be amount),
        Push_Opcode OP_ENDIF])"

definition create_musig2_and_operator_multisig_script ::
  "'x script_lib_scheme \<Rightarrow> xonly \<Rightarrow> xonly \<Rightarrow> script" where
  "create_musig2_and_operator_multisig_script L nofn_xonly_pk operator_xonly_pk =
    into_script L
      [Push_X_Only_Key nofn_xonly_pk, Push_Opcode OP_CHECKSIGVERIFY,
       Push_X_Only_Key operator_xonly_pk, Push_Opcode OP_CHECKSIG]"

definition generate_relative_timelock_script :: "'x script_lib_scheme \<Rightarrow> xonly \<Rightarrow> u32 \<Rightarrow> script" where
  "generate_relative_timelock_script L actor_taproot_xonly_pk block_count =
    into_script L
      [Push_Int (uint block_count), Push_Opcode OP_CSV, Push_Opcode OP_DROP,
       Push_X_Only_Key actor_taproot_xonly_pk, Push_Opcode OP_CHECKSIG]"

section \<open>Addresses\<close>

definition UNSPENDABLE_XONLY_PUBKEY :: xonly where
  "UNSPENDABLE_XONLY_PUBKEY =
    [0x93, 0xc7, 0x37, 0x8d, 0x96, 0x51, 0x8a, 0x75, 0x44, 0x88, 0x21, 0xc4, 0xf7, 0xc8, 0xf4, 0xba,
     0xe7, 0xce, 0x60, 0xf8, 0x04, 0xd0, 0x3d, 0x1f, 0x06, 0x28, 0xdd, 0x5d, 0xd0, 0xf5, 0xde, 0x51]"

text \<open>The depth \<open>m - ((i >= n - k) as u8)\<close> of leaf \<open>i\<close> of \<open>n > 1\<close> leaves.\<close>

definition leaf_depth :: "nat \<Rightarrow> nat \<Rightarrow> u8" where
  "leaf_depth n i =
    (let m = word_of_nat (ilog2 (n - 1) + 1) :: u8;
         k = 2 ^ unat m - n
     in m - (if n - k \<le> i then 1 else 0))"

definition add_leaf_unwrap ::
  "'x script_lib_scheme \<Rightarrow> u8 \<Rightarrow> script \<Rightarrow> tap_leaves \<Rightarrow> tap_leaves outcome" where
  "add_leaf_unwrap L depth script acc = unwrap (add_leaf L acc depth script)"

fun add_leaves ::
  "'x script_lib_scheme \<Rightarrow> (u8 \<times> script) list \<Rightarrow> tap_leaves \<Rightarrow> tap_leaves outcome" where
  "add_leaves L [] acc = Ok acc"
| "add_leaves L ((depth, script) # leaves) acc =
    attempt (add_leaf_unwrap L depth script acc) (add_leaves L leaves)"

definition create_taproot_address ::
  "'x script_lib_scheme \<Rightarrow> script list \<Rightarrow> xonly option \<Rightarrow> network \<Rightarrow> (address \<times> spend_info) outcome" where
  "create_taproot_address L scripts internal_key network =
    (let n = length scripts in
     attempt
       (if n = 0 then Ok []
        else if n > 1 then
          add_leaves L (List.map (\<lambda>i. (leaf_depth n i, scripts ! i)) [0..<n]) []
        else add_leaf_unwrap L 0 (scripts ! 0) [])
     (\<lambda>taproot_builder.
     attempt
       (case internal_key of
          Some xonly_pk \<Rightarrow> unwrap (finalize L taproot_builder xonly_pk)
        | None \<Rightarrow> unwrap (finalize L taproot_builder UNSPENDABLE_XONLY_PUBKEY))
     (\<lambda>tree_info.
     let taproot_address = (case internal_key of
          Some xonly_pk \<Rightarrow> p2tr L xonly_pk (spend_info_merkle_root L tree_info) network
        | None \<Rightarrow> p2tr L UNSPENDABLE_XONLY_PUBKEY (spend_info_merkle_root L tree_info) network)
     in Ok (taproot_address, tree_info))))"

text \<open>The slice \<open>[2..34]\<close> of a script panics when the script is shorter.\<close>

definition slice_2_34 :: "bytes \<Rightarrow> bytes outcome" where
  "slice_2_34 bs = (if length bs < 34 then Panic else Ok (take 32 (drop 2 bs)))"

definition generate_deposit_address ::
  "'x sign_lib_scheme \<Rightarrow> xonly \<Rightarrow> address \<Rightarrow> evm_address \<Rightarrow> amount \<Rightarrow> network \<Rightarrow> u32 \<Rightarrow>
   (address \<times> spend_info) outcome" where
  "generate_deposit_address L nofn_xonly_pk recovery_taproot_address user_evm_address amount network
     user_takes_after =
    (let deposit_script = create_deposit_script L nofn_xonly_pk user_evm_address amount;
         recovery_script_pubkey = address_script_pubkey L recovery_taproot_address
     in attempt (slice_2_34 recovery_script_pubkey) (\<lambda>pk_bytes.
     attempt (unwrap (xonly_from_slice L pk_bytes)) (\<lambda>recovery_extracted_xonly_pk.
     let script_timelock =
       generate_relative_timelock_script L recovery_extracted_xonly_pk user_takes_after
     in create_taproot_address L [deposit_script, script_timelock] None network)))"

definition create_musig2_address ::
  "'x script_lib_scheme \<Rightarrow> xonly \<Rightarrow> network \<Rightarrow> (address \<times> spend_info) outcome" where
  "create_musig2_address L nofn_xonly_pk network =
    create_taproot_address L [] (Some nofn_xonly_pk) network"

definition create_kickoff_address ::
  "'x script_lib_scheme \<Rightarrow> xonly \<Rightarrow> xonly \<Rightarrow> network \<Rightarrow> (address \<times> spend_info) outcome" where
  "create_kickoff_address L nofn_xonly_pk operator_xonly_pk network =
    (let musig2_and_operator_script =
       create_musig2_and_operator_multisig_script L nofn_xonly_pk operator_xonly_pk
     in create_taproot_address L [musig2_and_operator_script] None network)"

section \<open>The shape of a taproot tree\<close>

lemma leaf_depth_bounds:
  assumes "1 < n" "n < 2 ^ 255"
  shows "unat (word_of_nat (ilog2 (n - 1) + 1) :: u8) = ilog2 (n - 1) + 1"
    "n \<le> 2 ^ (ilog2 (n - 1) + 1)" "2 ^ ilog2 (n - 1) < n"
proof -
  have b: "2 ^ ilog2 (n - 1) \<le> n - 1" "n - 1 < 2 ^ Suc (ilog2 (n - 1))"
    using ilog2_bounds [of "n - 1"] assms by auto
  then show "n \<le> 2 ^ (ilog2 (n - 1) + 1)" "2 ^ ilog2 (n - 1) < n"
    using assms by auto
  have "ilog2 (n - 1) < 255"
    using assms by (intro ilog2_less) auto
  then have "(ilog2 (n - 1) + 1) mod 2 ^ 8 = ilog2 (n - 1) + 1"
    by simp
  then show "unat (word_of_nat (ilog2 (n - 1) + 1) :: u8) = ilog2 (n - 1) + 1"
    using unat_of_nat [of "ilog2 (n - 1) + 1", where 'a = 8] by (simp only: len_num1 len_bit0) simp
qed

lemma leaf_depth_value:
  assumes "1 < n" "n < 2 ^ 255"
  shows "unat (leaf_depth n i) = ilog2 (n - 1) + 1 -
    (if n - (2 ^ (ilog2 (n - 1) + 1) - n) \<le> i then 1 else 0)"
proof -
  let ?m = "word_of_nat (ilog2 (n - 1) + 1) :: u8"
  have m: "unat ?m = ilog2 (n - 1) + 1"
    using assms by (rule leaf_depth_bounds)
  then have "unat (?m - 1) = unat ?m - 1"
    by (intro unat_minus_one) auto
  with m show ?thesis
    by (simp add: leaf_depth_def Let_def)
qed

text \<open>
  C34. The depths that a taproot tree of two or more scripts gives its leaves fill a binary tree
  exactly: the leaves' shares of the deepest level add up to all of it, deeper leaves come first,
  and no depth exceeds the rounded-up binary logarithm of the number of scripts.
\<close>

theorem taproot_leaf_depths_fill_tree:
  assumes "1 < n" "n < 2 ^ 255"
  shows "(\<Sum>i<n. 2 ^ (ilog2 (n - 1) + 1 - unat (leaf_depth n i))) = (2 ^ (ilog2 (n - 1) + 1) :: nat) \<and>
    (\<forall>i. unat (leaf_depth n i) \<le> ilog2 (n - 1) + 1) \<and>
    (\<forall>i j. i \<le> j \<longrightarrow> unat (leaf_depth n j) \<le> unat (leaf_depth n i))"
proof (intro conjI allI impI)
  let ?m = "ilog2 (n - 1) + 1"
  let ?k = "2 ^ ?m - n"
  have k: "?k \<le> n" "n + ?k = 2 ^ ?m"
    using leaf_depth_bounds(2,3) [OF assms] by auto
  have share: "2 ^ (?m - unat (leaf_depth n i)) = (if i < n - ?k then 1 else 2 :: nat)" for i
    by (simp add: leaf_depth_value [OF assms])
  have "(\<Sum>i<n. 2 ^ (?m - unat (leaf_depth n i))) = (\<Sum>i<n. if i < n - ?k then 1 else 2 :: nat)"
    by (simp only: share)
  also have "\<dots> = (\<Sum>i<n. 1) + (\<Sum>i<n. if n - ?k \<le> i then 1 else 0)"
    by (subst sum.distrib [symmetric]) (rule sum.cong, auto)
  also have "(\<Sum>i<n. if n - ?k \<le> i then 1 else 0 :: nat) = card {i \<in> {..<n}. n - ?k \<le> i}"
    by (simp add: sum.If_cases Int_def)
  also have "{i \<in> {..<n}. n - ?k \<le> i} = {n - ?k..<n}"
    by auto
  also have "(\<Sum>i<n. 1) + card {n - ?k..<n} = 2 ^ ?m"
    using k by simp
  finally show "(\<Sum>i<n. 2 ^ (?m - unat (leaf_depth n i))) = (2 ^ ?m :: nat)" .
  show "unat (leaf_depth n i) \<le> ?m" for i
    by (simp add: leaf_depth_value [OF assms])
  show "unat (leaf_depth n j) \<le> unat (leaf_depth n i)" if "i \<le> j" for i j
    using that by (simp add: leaf_depth_value [OF assms])
qed

theorem taproot_leaf_depths_fill_tree_witness:
  "(\<Sum>i<5. 2 ^ (3 - unat (leaf_depth 5 i))) = (8 :: nat) \<and> ilog2 4 = 2"
proof -
  have "ilog2 4 = 2"
    by code_simp
  with taproot_leaf_depths_fill_tree [of 5] show ?thesis
    by simp
qed

end
