(* ===== verification/Example_Lib.thy ===== *)
theory Example_Lib
  imports Btc_Types
begin

text \<open>
  A computable instance of the crates on which the examples of the development run: it has the
  lengths and the round trips of the real functions and none of their security. Only the examples
  use it; no definition of the model does.
\<close>

section \<open>A serialisation of transactions\<close>

text \<open>A decoder reads back what its encoder wrote and leaves the rest of the bytes.\<close>

definition codec :: "('a \<Rightarrow> bytes) \<Rightarrow> (bytes \<Rightarrow> ('a \<times> bytes) option) \<Rightarrow> bool" where
  "codec enc dec \<longleftrightarrow> (\<forall>x rest. dec (enc x @ rest) = Some (x, rest))"

fun enc_long :: "bytes \<Rightarrow> bytes" where
  "enc_long [] = [0]"
| "enc_long (b # bs) = 1 # b # enc_long bs"

fun dec_long :: "bytes \<Rightarrow> (bytes \<times> bytes) option" where
  "dec_long (t # bs) =
    (if t = 0 then Some ([], bs)
     else case bs of
       b # cs \<Rightarrow> do { (xs, rest) \<leftarrow> dec_long cs; Some (b # xs, rest) }
     | [] \<Rightarrow> None)"
| "dec_long [] = None"

definition enc_bytes :: "bytes \<Rightarrow> bytes" where
  "enc_bytes bs = (if length bs < 255 then word_of_nat (length bs) # bs else 255 # enc_long bs)"

fun dec_bytes :: "bytes \<Rightarrow> (bytes \<times> bytes) option" where
  "dec_bytes (n # bs) =
    (if n = 255 then dec_long bs else Some (take (nat (uint n)) bs, drop (nat (uint n)) bs))"
| "dec_bytes [] = None"

fun enc_list :: "('a \<Rightarrow> bytes) \<Rightarrow> 'a list \<Rightarrow> bytes" where
  "enc_list enc [] = [0]"
| "enc_list enc (x # xs) = 1 # enc x @ enc_list enc xs"

fun dec_items :: "(bytes \<Rightarrow> ('a \<times> bytes) option) \<Rightarrow> nat \<Rightarrow> bytes \<Rightarrow> ('a list \<times> bytes) option" where
  "dec_items dec 0 bs = None"
| "dec_items dec (Suc n) [] = None"
| "dec_items dec (Suc n) (t # bs) =
    (if t = 0 then Some ([], bs)
     else do { (x, r) \<leftarrow> dec bs; (xs, rest) \<leftarrow> dec_items dec n r; Some (x # xs, rest) })"

definition dec_list :: "(bytes \<Rightarrow> ('a \<times> bytes) option) \<Rightarrow> bytes \<Rightarrow> ('a list \<times> bytes) option" where
  "dec_list dec bs = dec_items dec (length bs) bs"

definition enc_word :: "'a::len word \<Rightarrow> bytes" where
  "enc_word w = le_bytes_int 8 (uint w)"

fun int_of_bytes :: "bytes \<Rightarrow> int" where
  "int_of_bytes [] = 0"
| "int_of_bytes (b # bs) = uint b + 256 * int_of_bytes bs"

definition dec_word :: "bytes \<Rightarrow> ('a::len word \<times> bytes) option" where
  "dec_word bs = Some (word_of_int (int_of_bytes (take 8 bs)), drop 8 bs)"

lemma codec_bytes: "codec enc_bytes dec_bytes"
proof -
  have long: "dec_long (enc_long bs @ rest) = Some (bs, rest)" for bs rest
    by (induction bs) auto
  have "uint (word_of_nat n :: u8) = int n" if "n < 255" for n
    using that by (simp add: unsigned_of_nat take_bit_nat_eq_self)
  then have "nat (uint (word_of_nat n :: u8)) = n \<and> (word_of_nat n :: u8) \<noteq> 255" if "n < 255" for n
    using that by (auto dest: arg_cong [where f = uint])
  with long show ?thesis
    by (simp add: codec_def enc_bytes_def)
qed

lemma codec_list:
  assumes "codec enc dec"
  shows "codec (enc_list enc) (dec_list dec)"
proof -
  have "dec_items dec n (enc_list enc xs @ rest) = Some (xs, rest)" if "length xs < n" for xs rest n
    using that assms
  proof (induction xs arbitrary: n)
    case Nil
    then show ?case
      by (cases n) auto
  next
    case (Cons x xs)
    then show ?case
      by (cases n) (auto simp: codec_def)
  qed
  moreover have "length xs < length (enc_list enc xs @ rest)" for xs rest
    by (induction xs) auto
  ultimately show ?thesis
    unfolding codec_def dec_list_def by blast
qed

lemma int_of_le_bytes: "0 \<le> x \<Longrightarrow> x < 256 ^ n \<Longrightarrow> int_of_bytes (le_bytes_int n x) = x"
proof (induction n arbitrary: x)
  case (Suc n)
  have "x div 256 < 256 ^ n"
    using Suc.prems by (simp add: int_div_less_self zdiv_mono1 div_less_iff_less_mult mult.commute)
  with Suc show ?case
    by (simp add: unsigned_of_int take_bit_eq_mod pos_imp_zdiv_nonneg_iff)
qed simp

lemma length_le_bytes_int [simp]: "length (le_bytes_int n x) = n"
  by (induction n arbitrary: x) auto

lemma codec_word:
  assumes "LENGTH('a::len) \<le> 64"
  shows "codec (enc_word :: 'a word \<Rightarrow> bytes) dec_word"
proof -
  have "int_of_bytes (le_bytes_int 8 (uint w)) = uint w" for w :: "'a word"
  proof (rule int_of_le_bytes)
    have "uint w < 2 ^ LENGTH('a)"
      by (rule uint_lt2p)
    also have "\<dots> \<le> 2 ^ 64"
      using assms by (intro power_increasing) auto
    finally show "uint w < 256 ^ 8"
      by simp
  qed simp
  then show ?thesis
    by (simp add: codec_def enc_word_def dec_word_def)
qed

definition enc_pair :: "('a \<Rightarrow> bytes) \<Rightarrow> ('b \<Rightarrow> bytes) \<Rightarrow> 'a \<times> 'b \<Rightarrow> bytes" where
  "enc_pair enc enc' = (\<lambda>(x, y). enc x @ enc' y)"

definition dec_pair ::
  "(bytes \<Rightarrow> ('a \<times> bytes) option) \<Rightarrow> (bytes \<Rightarrow> ('b \<times> bytes) option) \<Rightarrow> bytes \<Rightarrow> (('a \<times> 'b) \<times> bytes) option" where
  "dec_pair dec dec' bs = do { (x, r) \<leftarrow> dec bs; (y, rest) \<leftarrow> dec' r; Some ((x, y), rest) }"

lemma codec_pair: "codec enc dec \<Longrightarrow> codec enc' dec' \<Longrightarrow> codec (enc_pair enc enc') (dec_pair dec dec')"
  by (auto simp: codec_def enc_pair_def dec_pair_def)

definition enc_txin :: "txin \<Rightarrow> bytes" where
  "enc_txin i = enc_pair (enc_pair enc_bytes enc_word) (enc_pair enc_word (enc_pair enc_bytes (enc_list enc_bytes)))
    ((op_txid (txin_previous_output i), op_vout (txin_previous_output i)),
     (txin_sequence i, (txin_script_sig i, txin_witness i)))"

definition dec_txin :: "bytes \<Rightarrow> (txin \<times> bytes) option" where
  "dec_txin bs = map_option (\<lambda>(((t, v), (s, (g, wit))), rest).
     (\<lparr>txin_previous_output = \<lparr>op_txid = t, op_vout = v\<rparr>, txin_sequence = s, txin_script_sig = g,
       txin_witness = wit\<rparr>, rest))
    (dec_pair (dec_pair dec_bytes dec_word) (dec_pair dec_word (dec_pair dec_bytes (dec_list dec_bytes))) bs)"

definition enc_txout :: "txout \<Rightarrow> bytes" where
  "enc_txout out = enc_pair enc_word enc_bytes (txout_value out, txout_script out)"

definition dec_txout :: "bytes \<Rightarrow> (txout \<times> bytes) option" where
  "dec_txout bs = map_option (\<lambda>((v, s), rest). (\<lparr>txout_value = v, txout_script = s\<rparr>, rest))
    (dec_pair dec_word dec_bytes bs)"

definition enc_tx :: "btc_tx \<Rightarrow> bytes" where
  "enc_tx tx = enc_pair (enc_pair enc_word enc_word) (enc_pair (enc_list enc_txin) (enc_list enc_txout))
    ((btc_version tx, btc_lock_time tx), (btc_input tx, btc_output tx))"

definition dec_tx :: "bytes \<Rightarrow> btc_tx option" where
  "dec_tx bs = map_option (\<lambda>(((v, l), (i, out)), rest).
     \<lparr>btc_version = v, btc_lock_time = l, btc_input = i, btc_output = out\<rparr>)
    (dec_pair (dec_pair dec_word dec_word) (dec_pair (dec_list dec_txin) (dec_list dec_txout)) bs)"

lemma codec_txin: "codec enc_txin dec_txin"
  using codec_pair [OF codec_pair [OF codec_bytes codec_word [where 'a = 32]]
      codec_pair [OF codec_word [where 'a = 32] codec_pair [OF codec_bytes codec_list [OF codec_bytes]]]]
  by (simp add: codec_def enc_txin_def dec_txin_def)

lemma codec_txout: "codec enc_txout dec_txout"
  using codec_pair [OF codec_word [where 'a = 64] codec_bytes]
  by (simp add: codec_def enc_txout_def dec_txout_def)

lemma dec_enc_tx: "dec_tx (enc_tx tx) = Some tx"
proof -
  have "codec (enc_pair (enc_pair (enc_word :: i32 \<Rightarrow> bytes) (enc_word :: u32 \<Rightarrow> bytes))
      (enc_pair (enc_list enc_txin) (enc_list enc_txout)))
    (dec_pair (dec_pair dec_word dec_word) (dec_pair (dec_list dec_txin) (dec_list dec_txout)))"
    by (intro codec_pair codec_word codec_list codec_txin codec_txout) simp_all
  from this [unfolded codec_def, rule_format, of _ "[]"] show ?thesis
    by (simp add: enc_tx_def dec_tx_def)
qed

section \<open>The instance\<close>

definition digest :: "bytes \<Rightarrow> bytes" where
  "digest bs = take 32 (7 # rev bs @ replicate 31 0)"

definition tx_digest :: "btc_tx \<Rightarrow> bytes" where
  "tx_digest tx = digest (concat (List.map (\<lambda>i. op_txid (txin_previous_output i) @
     [ucast (op_vout (txin_previous_output i))]) (btc_input tx)) @ [word_of_nat (length (btc_output tx))])"

definition hex_digit :: "nat \<Rightarrow> char" where
  "hex_digit n = ''0123456789abcdef'' ! n"

fun digit_value :: "char \<Rightarrow> nat option" where
  "digit_value (Char b0 b1 b2 b3 b4 b5 b6 b7) =
    (let low = of_bool b0 + 2 * of_bool b1 + 4 * of_bool b2 + 8 * of_bool b3 in
     if b4 \<and> b5 \<and> \<not> b6 \<and> \<not> b7 then Some low
     else if \<not> b4 \<and> b5 \<and> b6 \<and> \<not> b7 then Some (low + 9)
     else None)"

definition hex_of_bytes :: "bytes \<Rightarrow> string" where
  "hex_of_bytes bs =
    concat (List.map (\<lambda>b. [hex_digit (unat b div 16), hex_digit (unat b mod 16)]) bs)"

fun bytes_of_hex :: "string \<Rightarrow> bytes option" where
  "bytes_of_hex [] = Some []"
| "bytes_of_hex [c] = None"
| "bytes_of_hex (c # d # cs) = do {
     h \<leftarrow> digit_value c;
     l \<leftarrow> digit_value d;
     bs \<leftarrow> bytes_of_hex cs;
     Some (word_of_nat (16 * h + l) # bs)
   }"

fun item_bytes :: "script_item \<Rightarrow> bytes" where
  "item_bytes (Push_Opcode c) = [c]"
| "item_bytes (Push_Slice bs) = word_of_nat (length bs) # bs"
| "item_bytes (Push_X_Only_Key k) = 32 # k"
| "item_bytes (Push_Int n) = [4, word_of_int n, word_of_int (n div 256), word_of_int (n div 65536),
     word_of_int (n div 16777216)]"

definition ex_into_script :: "script_item list \<Rightarrow> script" where
  "ex_into_script items = concat (List.map item_bytes items)"

definition ex_to_p2wsh :: "script \<Rightarrow> script" where
  "ex_to_p2wsh s = [0, 32] @ digest s"

definition ex_minimal_non_dust :: "script \<Rightarrow> amount" where
  "ex_minimal_non_dust s = 330"

definition ex_add_leaf :: "tap_leaves \<Rightarrow> u8 \<Rightarrow> script \<Rightarrow> tap_leaves option" where
  "ex_add_leaf acc d s = Some (acc @ [(d, s)])"

definition ex_finalize :: "tap_leaves \<Rightarrow> xonly \<Rightarrow> spend_info option" where
  "ex_finalize acc k = Some (acc, k)"

definition ex_spend_info_merkle_root :: "spend_info \<Rightarrow> bytes option" where
  "ex_spend_info_merkle_root i = (if fst i = [] then None else Some (digest (concat (List.map snd (fst i)))))"

definition ex_control_block :: "spend_info \<Rightarrow> script \<Rightarrow> bytes option" where
  "ex_control_block i s = (if s \<in> set (List.map snd (fst i)) then Some (0xc0 # snd i) else None)"

definition ex_p2tr :: "xonly \<Rightarrow> bytes option \<Rightarrow> network \<Rightarrow> address" where
  "ex_p2tr k m n = digest (k @ (case m of None \<Rightarrow> [] | Some r \<Rightarrow> r))"

definition ex_address_script_pubkey :: "address \<Rightarrow> script" where
  "ex_address_script_pubkey a = [0x51, 0x20] @ a"

definition ex_require_network :: "address \<Rightarrow> network \<Rightarrow> address option" where
  "ex_require_network a n = Some a"

definition ex_raw_hex :: "btc_tx \<Rightarrow> string" where
  "ex_raw_hex tx = hex_of_bytes (enc_tx tx)"

definition ex_script_spend_signature_hash :: "btc_tx \<Rightarrow> nat \<Rightarrow> prevouts_arg \<Rightarrow> bytes \<Rightarrow> sighash_type \<Rightarrow> bytes option" where
  "ex_script_spend_signature_hash tx i p h t = Some (digest (tx_digest tx @ h))"

definition ex_key_spend_signature_hash :: "btc_tx \<Rightarrow> nat \<Rightarrow> prevouts_arg \<Rightarrow> sighash_type \<Rightarrow> bytes option" where
  "ex_key_spend_signature_hash tx i p t = Some (digest (tx_digest tx))"

definition ex_keypair_from_secret_key :: "secret_key \<Rightarrow> keypair" where
  "ex_keypair_from_secret_key sk = sk"

definition ex_keypair_secret_key :: "keypair \<Rightarrow> secret_key" where
  "ex_keypair_secret_key kp = kp"

definition ex_keypair_public_key :: "keypair \<Rightarrow> public_key" where
  "ex_keypair_public_key kp = 2 # kp"

definition ex_keypair_xonly :: "keypair \<Rightarrow> xonly" where
  "ex_keypair_xonly kp = kp"

definition ex_add_xonly_tweak :: "keypair \<Rightarrow> bytes \<Rightarrow> keypair option" where
  "ex_add_xonly_tweak kp t = Some t"

definition ex_tap_tweak_hash :: "xonly \<Rightarrow> bytes option \<Rightarrow> bytes" where
  "ex_tap_tweak_hash x r = digest (x @ (case r of None \<Rightarrow> [] | Some m \<Rightarrow> m))"

definition ex_sign_schnorr :: "bytes \<Rightarrow> bytes \<Rightarrow> keypair \<Rightarrow> signature" where
  "ex_sign_schnorr aux m kp = m @ kp @ aux"

definition ex_verify_schnorr :: "signature \<Rightarrow> bytes \<Rightarrow> xonly \<Rightarrow> bool" where
  "ex_verify_schnorr s m x \<longleftrightarrow> take (length m + length x) s = m @ x"

definition ex_xonly_from_slice :: "bytes \<Rightarrow> xonly option" where
  "ex_xonly_from_slice bs = (if length bs = 32 then Some bs else None)"

definition ex_signature_from_slice :: "bytes \<Rightarrow> signature option" where
  "ex_signature_from_slice bs = (if length bs = 64 then Some bs else None)"

definition ex_taproot_signature_serialize :: "signature \<Rightarrow> sighash_type \<Rightarrow> bytes" where
  "ex_taproot_signature_serialize s t = (case t of Default \<Rightarrow> s | SinglePlusAnyoneCanPay \<Rightarrow> s @ [0x83])"

definition ex_key_agg_new :: "public_key list \<Rightarrow> bytes option" where
  "ex_key_agg_new pks = (if pks = [] then None else Some (concat pks))"

definition ex_with_taproot_tweak :: "bytes \<Rightarrow> bytes \<Rightarrow> bytes option" where
  "ex_with_taproot_tweak c t = Some c"

definition ex_with_unspendable_taproot_tweak :: "bytes \<Rightarrow> bytes option" where
  "ex_with_unspendable_taproot_tweak c = Some (digest c)"

definition ex_aggregated_pubkey :: "bytes \<Rightarrow> public_key" where
  "ex_aggregated_pubkey c = 2 # digest c"

definition ex_aggregated_pubkey_untweaked :: "bytes \<Rightarrow> public_key" where
  "ex_aggregated_pubkey_untweaked c = 2 # digest c"

definition ex_pub_nonce_from_bytes :: "bytes \<Rightarrow> bytes option" where
  "ex_pub_nonce_from_bytes bs = (if length bs = 66 then Some bs else None)"

definition ex_agg_nonce_sum :: "bytes list \<Rightarrow> bytes" where
  "ex_agg_nonce_sum ns = digest (concat ns) @ digest (concat ns) @ [2, 2]"

definition ex_agg_nonce_from_bytes :: "bytes \<Rightarrow> bytes option" where
  "ex_agg_nonce_from_bytes bs = (if length bs = 66 then Some bs else None)"

definition ex_sec_nonce_from_bytes :: "bytes \<Rightarrow> bytes option" where
  "ex_sec_nonce_from_bytes bs = (if length bs = 64 then Some bs else None)"

definition ex_partial_signature_from_slice :: "bytes \<Rightarrow> bytes option" where
  "ex_partial_signature_from_slice bs = (if length bs = 32 then Some bs else None)"

definition ex_musig_aggregate :: "bytes \<Rightarrow> bytes \<Rightarrow> bytes list \<Rightarrow> bytes \<Rightarrow> bytes option" where
  "ex_musig_aggregate c n sigs m = Some (m @ digest c)"

definition ex_musig_sign_partial :: "bytes \<Rightarrow> secret_key \<Rightarrow> bytes \<Rightarrow> bytes \<Rightarrow> bytes \<Rightarrow> bytes option" where
  "ex_musig_sign_partial c sk sn an m = Some (digest (m @ sk))"

definition ex_sec_nonce_build :: "bytes \<Rightarrow> public_key \<Rightarrow> secret_key \<Rightarrow> bytes" where
  "ex_sec_nonce_build seed pk sk = digest seed @ digest sk"

definition ex_sec_nonce_public :: "bytes \<Rightarrow> bytes" where
  "ex_sec_nonce_public n = 2 # take 32 n @ 2 # drop 32 n"

definition example_lib :: lib where
  "example_lib =
    \<lparr>into_script = ex_into_script, to_p2wsh = ex_to_p2wsh,
     minimal_non_dust = ex_minimal_non_dust, add_leaf = ex_add_leaf, finalize = ex_finalize,
     spend_info_merkle_root = ex_spend_info_merkle_root, control_block = ex_control_block,
     p2tr = ex_p2tr, address_script_pubkey = ex_address_script_pubkey,
     require_network = ex_require_network, compute_txid = tx_digest, raw_hex = ex_raw_hex,
     hex_encode = hex_of_bytes, hex_decode = bytes_of_hex, deserialize_tx = dec_tx, sha256 = digest,
     tap_leaf_hash_from_script = digest,
     script_spend_signature_hash = ex_script_spend_signature_hash,
     key_spend_signature_hash = ex_key_spend_signature_hash,
     keypair_from_secret_key = ex_keypair_from_secret_key,
     keypair_secret_key = ex_keypair_secret_key, keypair_public_key = ex_keypair_public_key,
     keypair_xonly = ex_keypair_xonly, add_xonly_tweak = ex_add_xonly_tweak,
     tap_tweak_hash = ex_tap_tweak_hash, sign_schnorr = ex_sign_schnorr,
     verify_schnorr = ex_verify_schnorr, xonly_from_slice = ex_xonly_from_slice,
     signature_from_slice = ex_signature_from_slice,
     taproot_signature_serialize = ex_taproot_signature_serialize, key_agg_new = ex_key_agg_new,
     with_taproot_tweak = ex_with_taproot_tweak,
     with_unspendable_taproot_tweak = ex_with_unspendable_taproot_tweak,
     aggregated_pubkey = ex_aggregated_pubkey,
     aggregated_pubkey_untweaked = ex_aggregated_pubkey_untweaked, public_key_xonly = tl,
     pub_nonce_from_bytes = ex_pub_nonce_from_bytes, agg_nonce_sum = ex_agg_nonce_sum,
     agg_nonce_from_bytes = ex_agg_nonce_from_bytes, sec_nonce_from_bytes = ex_sec_nonce_from_bytes,
     partial_signature_from_slice = ex_partial_signature_from_slice,
     musig_aggregate = ex_musig_aggregate, musig_sign_partial = ex_musig_sign_partial,
     sec_nonce_build = ex_sec_nonce_build, sec_nonce_public = ex_sec_nonce_public\<rparr>"

lemmas ex_defs = ex_into_script_def ex_to_p2wsh_def ex_minimal_non_dust_def ex_add_leaf_def
  ex_finalize_def ex_spend_info_merkle_root_def ex_control_block_def ex_p2tr_def
  ex_address_script_pubkey_def ex_require_network_def ex_raw_hex_def
  ex_script_spend_signature_hash_def ex_key_spend_signature_hash_def ex_keypair_from_secret_key_def
  ex_keypair_secret_key_def ex_keypair_public_key_def ex_keypair_xonly_def ex_add_xonly_tweak_def
  ex_tap_tweak_hash_def ex_sign_schnorr_def ex_verify_schnorr_def ex_xonly_from_slice_def
  ex_signature_from_slice_def ex_taproot_signature_serialize_def ex_key_agg_new_def
  ex_with_taproot_tweak_def ex_with_unspendable_taproot_tweak_def ex_aggregated_pubkey_def
  ex_aggregated_pubkey_untweaked_def ex_pub_nonce_from_bytes_def ex_agg_nonce_sum_def
  ex_agg_nonce_from_bytes_def ex_sec_nonce_from_bytes_def ex_partial_signature_from_slice_def
  ex_musig_aggregate_def ex_musig_sign_partial_def ex_sec_nonce_build_def ex_sec_nonce_public_def

lemma length_digest [simp]: "length (digest bs) = 32"
  by (simp add: digest_def)

lemma digit_value_hex_digit: "n < 16 \<Longrightarrow> digit_value (hex_digit n) = Some n"
proof -
  have "\<forall>n \<in> set [0..<16]. digit_value (hex_digit n) = Some n"
    by code_simp
  then show "n < 16 \<Longrightarrow> digit_value (hex_digit n) = Some n"
    by simp
qed

lemma word_of_nat_digits:
  "16 * word_of_nat (unat b div 16) + word_of_nat (unat b mod 16) = (b :: u8)"
proof -
  have "word_of_nat (16 * (unat b div 16) + unat b mod 16) = b"
    by (simp only: mult_div_mod_eq of_nat_unat ucast_id)
  then show ?thesis
    by (simp only: of_nat_add of_nat_mult of_nat_numeral)
qed

lemma bytes_of_hex_of_bytes: "bytes_of_hex (hex_of_bytes bs) = Some bs"
proof (induction bs)
  case (Cons b bs)
  have "unat b < 256"
    using unat_less_pow [of b] by simp
  then have "unat b div 16 < 16" "unat b mod 16 < 16"
    by (simp_all add: div_less_iff_less_mult)
  with Cons show ?case
    by (simp add: hex_of_bytes_def digit_value_hex_digit word_of_nat_digits)
qed (simp add: hex_of_bytes_def)

lemma example_lib_roundtrip: "tx_roundtrip example_lib"
  by (simp add: tx_roundtrip_def example_lib_def ex_defs bytes_of_hex_of_bytes dec_enc_tx)

end
