(* ===== verification/Tx_Builder.thy ===== *)
theory Tx_Builder
  imports Script_Builder Example_Lib
begin

text \<open>
  \<open>core/src/builder/transaction.rs\<close> and \<open>handle_taproot_witness_new\<close> of \<open>core/src/utils.rs\<close>: the
  transactions of a deposit. The move transaction brings the deposit under the key of all
  verifiers; the kickoff transaction makes the operator's kickoff outputs; slash-or-take and
  operator-takes pay the operator back. The lemmas account for every satoshi and show what a
  builder promises of the transaction it returns.
\<close>

section \<open>Builders\<close>

definition MOVE_TX_MIN_RELAY_FEE :: amount where
  "MOVE_TX_MIN_RELAY_FEE = 190"

definition SLASH_OR_TAKE_TX_MIN_RELAY_FEE :: amount where
  "SLASH_OR_TAKE_TX_MIN_RELAY_FEE = 240"

definition OPERATOR_TAKES_TX_MIN_RELAY_FEE :: amount where
  "OPERATOR_TAKES_TX_MIN_RELAY_FEE = 230"

definition KICKOFF_UTXO_AMOUNT_SATS :: amount where
  "KICKOFF_UTXO_AMOUNT_SATS = 100000"

definition create_btc_tx :: "txin list \<Rightarrow> txout list \<Rightarrow> btc_tx" where
  "create_btc_tx tx_ins tx_outs =
    \<lparr>btc_version = 2, btc_lock_time = 0, btc_input = tx_ins, btc_output = tx_outs\<rparr>"

text \<open>\<open>Sequence::ENABLE_RBF_NO_LOCKTIME\<close>; a relative height is its number.\<close>

definition ENABLE_RBF_NO_LOCKTIME :: u32 where
  "ENABLE_RBF_NO_LOCKTIME = 0xfffffffd"

definition create_tx_ins :: "outpoint list \<Rightarrow> txin list" where
  "create_tx_ins outpoints = List.map (\<lambda>utxo. \<lparr>txin_previous_output = utxo,
     txin_sequence = ENABLE_RBF_NO_LOCKTIME, txin_script_sig = [], txin_witness = []\<rparr>) outpoints"

definition create_tx_ins_with_sequence :: "outpoint list \<Rightarrow> u16 \<Rightarrow> txin list" where
  "create_tx_ins_with_sequence utxos height = List.map (\<lambda>utxo. \<lparr>txin_previous_output = utxo,
     txin_sequence = ucast height, txin_script_sig = [], txin_witness = []\<rparr>) utxos"

definition create_tx_outs :: "(amount \<times> script) list \<Rightarrow> txout list" where
  "create_tx_outs pairs = List.map (\<lambda>pair. \<lparr>txout_value = fst pair, txout_script = snd pair\<rparr>) pairs"

definition create_move_tx ::
  "'x script_lib_scheme \<Rightarrow> outpoint \<Rightarrow> xonly \<Rightarrow> amount \<Rightarrow> network \<Rightarrow> btc_tx outcome" where
  "create_move_tx L deposit_outpoint nofn_xonly_pk bridge_amount_sats network =
    attempt (create_musig2_address L nofn_xonly_pk network) (\<lambda>(musig2_address, _).
    let tx_ins = create_tx_ins [deposit_outpoint];
        acs_txout = anyone_can_spend_txout L
    in attempt (amount_sub bridge_amount_sats MOVE_TX_MIN_RELAY_FEE) (\<lambda>v.
    attempt (amount_sub v (txout_value acs_txout)) (\<lambda>v.
    let move_txout = \<lparr>txout_value = v, txout_script = address_script_pubkey L musig2_address\<rparr>
    in Ok (create_btc_tx tx_ins [move_txout, acs_txout]))))"

definition create_move_tx_handler ::
  "'x sign_lib_scheme \<Rightarrow> outpoint \<Rightarrow> evm_address \<Rightarrow> address \<Rightarrow> xonly \<Rightarrow> network \<Rightarrow> u32 \<Rightarrow> amount \<Rightarrow>
   tx_handler outcome" where
  "create_move_tx_handler L deposit_outpoint evm_address recovery_taproot_address nofn_xonly_pk
     network user_takes_after bridge_amount_sats =
    attempt (create_move_tx L deposit_outpoint nofn_xonly_pk bridge_amount_sats network) (\<lambda>move_tx.
    attempt (generate_deposit_address L nofn_xonly_pk recovery_taproot_address evm_address
       bridge_amount_sats network user_takes_after)
      (\<lambda>(deposit_address, deposit_taproot_spend_info).
    let prevouts = [\<lparr>txout_value = bridge_amount_sats,
          txout_script = address_script_pubkey L deposit_address\<rparr>];
        deposit_script = [create_deposit_script L nofn_xonly_pk evm_address bridge_amount_sats]
    in Ok \<lparr>handler_tx = move_tx, handler_prevouts = prevouts, handler_scripts = [deposit_script],
         handler_spend_infos = [deposit_taproot_spend_info]\<rparr>))"

definition kickoff_tx_min_relay_fee :: "u64 \<Rightarrow> u64" where
  "kickoff_tx_min_relay_fee num = (if num \<le> 250 then 154 + 43 * num else 156 + 43 * num)"

definition create_kickoff_utxo_tx ::
  "'x script_lib_scheme \<Rightarrow> utxo \<Rightarrow> xonly \<Rightarrow> xonly \<Rightarrow> network \<Rightarrow> u64 \<Rightarrow> tx_handler outcome" where
  "create_kickoff_utxo_tx L funding_utxo nofn_xonly_pk operator_xonly_pk network
     num_kickoff_utxos_per_tx =
    (let relay_fee = kickoff_tx_min_relay_fee num_kickoff_utxos_per_tx;
         tx_ins = create_tx_ins [utxo_outpoint funding_utxo];
         musig2_and_operator_script =
           create_musig2_and_operator_multisig_script L nofn_xonly_pk operator_xonly_pk
     in attempt (create_taproot_address L [musig2_and_operator_script] None network)
       (\<lambda>(musig2_and_operator_address, _).
     let operator_address = p2tr L operator_xonly_pk None network
     in attempt (amount_sub (txout_value (utxo_txout funding_utxo))
          (KICKOFF_UTXO_AMOUNT_SATS * num_kickoff_utxos_per_tx)) (\<lambda>v.
     attempt (amount_sub v (txout_value (anyone_can_spend_txout L))) (\<lambda>v.
     attempt (amount_sub v relay_fee) (\<lambda>change_amount.
     let tx_outs_raw =
           replicate (unat num_kickoff_utxos_per_tx)
             (KICKOFF_UTXO_AMOUNT_SATS, address_script_pubkey L musig2_and_operator_address) @
           [(change_amount, address_script_pubkey L operator_address),
            (txout_value (anyone_can_spend_txout L), txout_script (anyone_can_spend_txout L))];
         tx_outs = create_tx_outs tx_outs_raw;
         tx = create_btc_tx tx_ins tx_outs
     in Ok \<lparr>handler_tx = tx, handler_prevouts = [utxo_txout funding_utxo], handler_scripts = [[]],
          handler_spend_infos = []\<rparr>)))))"

text \<open>\<open>PushBytesBuf::extend_from_slice\<close> fails from 4 GB on.\<close>

definition push_bytes :: "bytes \<Rightarrow> bytes outcome" where
  "push_bytes bs = (if int (length bs) < 2 ^ 32 then Ok bs else Panic)"

definition create_slash_or_take_tx ::
  "'x script_lib_scheme \<Rightarrow> outpoint \<Rightarrow> utxo \<Rightarrow> xonly \<Rightarrow> u64 \<Rightarrow> xonly \<Rightarrow> network \<Rightarrow> u32 \<Rightarrow> u32 \<Rightarrow> amount \<Rightarrow>
   tx_handler outcome" where
  "create_slash_or_take_tx L deposit_outpoint kickoff_utxo operator_xonly_pk operator_idx
     nofn_xonly_pk network _ operator_takes_after bridge_amount_sats =
    attempt (create_move_tx L deposit_outpoint nofn_xonly_pk bridge_amount_sats network) (\<lambda>move_tx.
    let move_txid = compute_txid L move_tx
    in attempt (create_kickoff_address L nofn_xonly_pk operator_xonly_pk network)
      (\<lambda>(kickoff_utxo_address, kickoff_utxo_spend_info).
    let musig2_and_operator_script =
      create_musig2_and_operator_multisig_script L nofn_xonly_pk operator_xonly_pk
    in attempt (assert_that (address_script_pubkey L kickoff_utxo_address =
          txout_script (utxo_txout kickoff_utxo))) (\<lambda>_.
    let ins = create_tx_ins [utxo_outpoint kickoff_utxo];
        relative_timelock_script =
          generate_relative_timelock_script L operator_xonly_pk operator_takes_after
    in attempt (create_taproot_address L [relative_timelock_script] (Some nofn_xonly_pk) network)
      (\<lambda>(slash_or_take_address, _).
    let op_return_script = move_txid @ usize_to_var_len_bytes operator_idx
    in attempt (push_bytes op_return_script) (\<lambda>pushed.
    attempt (amount_sub (txout_value (utxo_txout kickoff_utxo)) 330) (\<lambda>v.
    attempt (amount_sub v SLASH_OR_TAKE_TX_MIN_RELAY_FEE) (\<lambda>v.
    let outs =
      [\<lparr>txout_value = v, txout_script = address_script_pubkey L slash_or_take_address\<rparr>,
       anyone_can_spend_txout L, op_return_txout L pushed];
        tx = create_btc_tx ins outs
    in Ok \<lparr>handler_tx = tx, handler_prevouts = [utxo_txout kickoff_utxo],
         handler_scripts = [[musig2_and_operator_script]],
         handler_spend_infos = [kickoff_utxo_spend_info]\<rparr>)))))))"

definition create_operator_takes_tx ::
  "'x script_lib_scheme \<Rightarrow> outpoint \<Rightarrow> utxo \<Rightarrow> xonly \<Rightarrow> xonly \<Rightarrow> network \<Rightarrow> u32 \<Rightarrow> amount \<Rightarrow> address \<Rightarrow>
   tx_handler outcome" where
  "create_operator_takes_tx L bridge_fund_outpoint slash_or_take_utxo operator_xonly_pk
     nofn_xonly_pk network operator_takes_after bridge_amount_sats operator_wallet_address =
    attempt (unwrap (require_network L operator_wallet_address network))
      (\<lambda>operator_wallet_address_checked.
    let ins = create_tx_ins [bridge_fund_outpoint] @
          create_tx_ins_with_sequence [utxo_outpoint slash_or_take_utxo] (ucast operator_takes_after)
    in attempt (create_musig2_address L nofn_xonly_pk network) (\<lambda>(musig2_address, musig2_spend_info).
    let relative_timelock_script =
      generate_relative_timelock_script L operator_xonly_pk operator_takes_after
    in attempt (create_taproot_address L [relative_timelock_script] (Some nofn_xonly_pk) network)
      (\<lambda>(slash_or_take_address, slash_or_take_spend_info).
    attempt (assert_that (address_script_pubkey L slash_or_take_address =
      txout_script (utxo_txout slash_or_take_utxo))) (\<lambda>_.
    attempt (amount_add (txout_value (utxo_txout slash_or_take_utxo)) bridge_amount_sats) (\<lambda>v.
    attempt (amount_sub v MOVE_TX_MIN_RELAY_FEE) (\<lambda>v.
    attempt (amount_sub v OPERATOR_TAKES_TX_MIN_RELAY_FEE) (\<lambda>v.
    attempt (amount_sub v (txout_value (anyone_can_spend_txout L))) (\<lambda>v.
    attempt (amount_sub v (txout_value (anyone_can_spend_txout L))) (\<lambda>v.
    let outs =
      [\<lparr>txout_value = v, txout_script = address_script_pubkey L operator_wallet_address_checked\<rparr>,
       anyone_can_spend_txout L];
        tx = create_btc_tx ins outs
    in attempt (amount_sub bridge_amount_sats MOVE_TX_MIN_RELAY_FEE) (\<lambda>b.
    attempt (amount_sub b (txout_value (anyone_can_spend_txout L))) (\<lambda>b.
    let prevouts =
      [\<lparr>txout_value = b, txout_script = address_script_pubkey L musig2_address\<rparr>,
       utxo_txout slash_or_take_utxo]
    in Ok \<lparr>handler_tx = tx, handler_prevouts = prevouts,
         handler_scripts = [[], [relative_timelock_script]],
         handler_spend_infos = [musig2_spend_info, slash_or_take_spend_info]\<rparr>)))))))))))"

section \<open>Witnesses\<close>

definition push_witness :: "nat \<Rightarrow> bytes list \<Rightarrow> btc_tx \<Rightarrow> btc_tx" where
  "push_witness i elements tx = tx\<lparr>btc_input := (btc_input tx)[i := (btc_input tx ! i)
     \<lparr>txin_witness := txin_witness (btc_input tx ! i) @ elements\<rparr>]\<rparr>"

definition handle_taproot_witness_new ::
  "'x script_lib_scheme \<Rightarrow> tx_handler \<Rightarrow> bytes list \<Rightarrow> nat \<Rightarrow> nat option \<Rightarrow> tx_handler outcome" where
  "handle_taproot_witness_new L tx witness_elements txin_index script_index =
    attempt (ensure (txin_index < length (btc_input (handler_tx tx))) TxInputNotFound) (\<lambda>_.
    let tx1 = tx\<lparr>handler_tx := push_witness txin_index witness_elements (handler_tx tx)\<rparr>
    in case script_index of
        None \<Rightarrow> Ok tx1
      | Some index \<Rightarrow>
          attempt (item_at (handler_scripts tx) txin_index) (\<lambda>leaf_scripts.
          attempt (item_at leaf_scripts index) (\<lambda>script.
          attempt (item_at (handler_spend_infos tx) txin_index) (\<lambda>spend_info.
          attempt (ok_or (control_block L spend_info script) ControlBlockError)
            (\<lambda>spend_control_block.
          Ok (tx1\<lparr>handler_tx :=
            push_witness txin_index [script, spend_control_block] (handler_tx tx1)\<rparr>))))))"

section \<open>Accounting\<close>

definition out_total :: "txout list \<Rightarrow> nat" where
  "out_total outs = sum_list (List.map (\<lambda>out. unat (txout_value out)) outs)"

text \<open>A transaction pays a fee, given what it spends.\<close>

definition pays_fee :: "tx_handler \<Rightarrow> nat \<Rightarrow> bool" where
  "pays_fee h fee \<longleftrightarrow> out_total (handler_prevouts h) = out_total (btc_output (handler_tx h)) + fee"

definition dust :: "'x script_lib_scheme \<Rightarrow> nat" where
  "dust L = unat (txout_value (anyone_can_spend_txout L))"

lemma out_total_simps [simp]:
  "out_total [] = 0" "out_total (out # outs) = unat (txout_value out) + out_total outs"
  "out_total (outs @ outs') = out_total outs + out_total outs'"
  by (simp_all add: out_total_def)

lemma out_total_replicate [simp]: "out_total (replicate n out) = n * unat (txout_value out)"
  by (induction n) auto

lemma op_return_value [simp]: "txout_value (op_return_txout L pushed) = 0"
  by (simp add: op_return_txout_def Let_def)

lemma fee_constants [simp]:
  "unat MOVE_TX_MIN_RELAY_FEE = 190" "unat SLASH_OR_TAKE_TX_MIN_RELAY_FEE = 240"
  "unat OPERATOR_TAKES_TX_MIN_RELAY_FEE = 230" "unat KICKOFF_UTXO_AMOUNT_SATS = 100000"
  by (simp_all add: MOVE_TX_MIN_RELAY_FEE_def SLASH_OR_TAKE_TX_MIN_RELAY_FEE_def
      OPERATOR_TAKES_TX_MIN_RELAY_FEE_def KICKOFF_UTXO_AMOUNT_SATS_def)

lemma create_btc_tx_simps [simp]:
  "btc_input (create_btc_tx ins outs) = ins" "btc_output (create_btc_tx ins outs) = outs"
  "btc_version (create_btc_tx ins outs) = 2" "btc_lock_time (create_btc_tx ins outs) = 0"
  by (simp_all add: create_btc_tx_def)

lemma outpoints_of_ins [simp]:
  "List.map txin_previous_output (create_tx_ins ops) = ops"
  "List.map txin_previous_output (create_tx_ins_with_sequence ops h) = ops"
  by (simp_all add: create_tx_ins_def create_tx_ins_with_sequence_def comp_def)

lemma create_move_tx_outs:
  assumes "create_move_tx L deposit_outpoint nofn bridge network = Ok tx"
  obtains v addr info where
    "create_musig2_address L nofn network = Ok (addr, info)"
    "unat v + 190 + dust L = unat bridge"
    "btc_output tx = [\<lparr>txout_value = v, txout_script = address_script_pubkey L addr\<rparr>, anyone_can_spend_txout L]"
    "List.map txin_previous_output (btc_input tx) = [deposit_outpoint]"
  using assms
  by (auto simp: create_move_tx_def Let_def amount_sub_eq_Ok dust_def split: prod.splits) force

lemma create_move_tx_handler_fee:
  assumes "create_move_tx_handler L outpoint evm recovery nofn network user_after bridge = Ok h"
  shows "pays_fee h 190" "create_move_tx L outpoint nofn bridge network = Ok (handler_tx h)"
proof -
  from assms obtain tx where tx: "create_move_tx L outpoint nofn bridge network = Ok tx"
    and h: "handler_tx h = tx" "out_total (handler_prevouts h) = unat bridge"
    by (auto simp: create_move_tx_handler_def Let_def split: prod.splits)
  from tx h show "create_move_tx L outpoint nofn bridge network = Ok (handler_tx h)"
    by simp
  from tx show "pays_fee h 190"
    by (rule create_move_tx_outs) (simp add: pays_fee_def h dust_def)
qed

lemma create_kickoff_utxo_tx_eq:
  assumes ok: "create_kickoff_utxo_tx L funding nofn operator network n = Ok h"
    and small: "unat n < 2 ^ 40"
  obtains change addr info where
    "create_kickoff_address L nofn operator network = Ok (addr, info)"
    "unat (txout_value (utxo_txout funding)) =
       100000 * unat n + dust L + unat (kickoff_tx_min_relay_fee n) + unat change"
    "btc_output (handler_tx h) =
       replicate (unat n) \<lparr>txout_value = KICKOFF_UTXO_AMOUNT_SATS, txout_script = address_script_pubkey L addr\<rparr> @
       [\<lparr>txout_value = change, txout_script = address_script_pubkey L (p2tr L operator None network)\<rparr>,
        anyone_can_spend_txout L]"
    "List.map txin_previous_output (btc_input (handler_tx h)) = [utxo_outpoint funding]"
    "handler_prevouts h = [utxo_txout funding]"
proof -
  have mult: "unat (KICKOFF_UTXO_AMOUNT_SATS * n) = 100000 * unat n"
    using small by (subst unat_mult_lem [THEN iffD1]) (simp_all add: KICKOFF_UTXO_AMOUNT_SATS_def)
  from ok mult that show ?thesis
    by (fastforce simp: create_kickoff_utxo_tx_def create_kickoff_address_def Let_def amount_sub_eq_Ok
        create_tx_outs_def dust_def split: prod.splits)
qed

lemma kickoff_tx_min_relay_fee_value:
  assumes "unat n < 2 ^ 40"
  shows "unat (kickoff_tx_min_relay_fee n) = (if unat n \<le> 250 then 154 else 156) + 43 * unat n"
proof -
  have m: "unat (43 * n) = 43 * unat n"
    using assms by (subst unat_mult_lem [THEN iffD1]) simp_all
  have "unat (c + 43 * n) = unat c + 43 * unat n" if "unat c \<le> 156" for c :: u64
    using assms that m by (subst unat_add_lem [THEN iffD1]) simp_all
  from this [of 154] this [of 156] show ?thesis
    by (simp add: kickoff_tx_min_relay_fee_def word_le_nat_alt)
qed

text \<open>
  C31. A kickoff transaction for n kickoff outputs spends only the funding output and pays exactly the
  fee the formula gives; it has n outputs of 100000 satoshis under the key of verifiers and
  operator, then the operator's change, then the anchor.
\<close>

theorem kickoff_tx_conserves_value:
  assumes "create_kickoff_utxo_tx L funding nofn operator network n = Ok h" "unat n < 2 ^ 40"
  shows "List.map txin_previous_output (btc_input (handler_tx h)) = [utxo_outpoint funding] \<and>
    pays_fee h ((if unat n \<le> 250 then 154 else 156) + 43 * unat n) \<and>
    length (btc_output (handler_tx h)) = unat n + 2 \<and>
    (\<exists>addr info. create_kickoff_address L nofn operator network = Ok (addr, info) \<and>
      (\<forall>i < unat n. btc_output (handler_tx h) ! i =
        \<lparr>txout_value = 100000, txout_script = address_script_pubkey L addr\<rparr>)) \<and>
    txout_script (btc_output (handler_tx h) ! unat n) =
      address_script_pubkey L (p2tr L operator None network) \<and>
    btc_output (handler_tx h) ! Suc (unat n) = anyone_can_spend_txout L"
  using assms
proof (cases rule: create_kickoff_utxo_tx_eq)
  case (1 change addr info)
  then show ?thesis
    using assms(2)
    by (auto simp: pays_fee_def kickoff_tx_min_relay_fee_value dust_def nth_append
        KICKOFF_UTXO_AMOUNT_SATS_def)
qed

definition example_funding :: utxo where
  "example_funding = \<lparr>utxo_outpoint = \<lparr>op_txid = replicate 32 7, op_vout = 1\<rparr>,
     utxo_txout = \<lparr>txout_value = 5000000, txout_script = []\<rparr>\<rparr>"

definition example_kickoff_tx :: "tx_handler outcome" where
  "example_kickoff_tx = create_kickoff_utxo_tx example_lib example_funding (replicate 32 1)
     (replicate 32 2) Regtest 2"

lemma example_kickoff_tx_ok: "\<exists>h. example_kickoff_tx = Ok h"
  unfolding is_Ok_iff [symmetric] by code_simp

theorem kickoff_tx_conserves_value_witness:
  "\<exists>h. example_kickoff_tx = Ok h \<and> pays_fee h 240 \<and> length (btc_output (handler_tx h)) = 4"
proof -
  obtain h where h: "example_kickoff_tx = Ok h"
    using example_kickoff_tx_ok by blast
  with kickoff_tx_conserves_value [OF h [unfolded example_kickoff_tx_def]] show ?thesis
    by auto
qed

text \<open>
  The operator is paid back by three transactions: the kickoff output and the moved deposit end in
  one output of the operator's wallet.
\<close>

lemma create_slash_or_take_tx_eq:
  assumes "create_slash_or_take_tx L deposit kickoff operator idx nofn network user_after
    operator_after bridge = Ok h"
  obtains move_tx kickoff_addr kickoff_info addr info v where
    "create_move_tx L deposit nofn bridge network = Ok move_tx"
    "create_kickoff_address L nofn operator network = Ok (kickoff_addr, kickoff_info)"
    "txout_script (utxo_txout kickoff) = address_script_pubkey L kickoff_addr"
    "create_taproot_address L [generate_relative_timelock_script L operator operator_after]
       (Some nofn) network = Ok (addr, info)"
    "unat (txout_value (utxo_txout kickoff)) = unat v + 570"
    "btc_output (handler_tx h) =
       [\<lparr>txout_value = v, txout_script = address_script_pubkey L addr\<rparr>, anyone_can_spend_txout L,
        op_return_txout L (compute_txid L move_tx @ usize_to_var_len_bytes idx)]"
    "List.map txin_previous_output (btc_input (handler_tx h)) = [utxo_outpoint kickoff]"
    "handler_prevouts h = [utxo_txout kickoff]"
    "handler_scripts h = [[create_musig2_and_operator_multisig_script L nofn operator]]"
    "handler_spend_infos h = [kickoff_info]"
  using assms
  by (fastforce simp: create_slash_or_take_tx_def Let_def amount_sub_eq_Ok push_bytes_def
      split: prod.splits if_splits)

lemma create_operator_takes_tx_eq:
  assumes "create_operator_takes_tx L bridge_fund slash operator nofn network operator_after bridge
    wallet = Ok h"
  obtains wallet' musig info musig_info addr v b where
    "require_network L wallet network = Some wallet'"
    "create_musig2_address L nofn network = Ok (musig, musig_info)"
    "create_taproot_address L [generate_relative_timelock_script L operator operator_after]
       (Some nofn) network = Ok (addr, info)"
    "txout_script (utxo_txout slash) = address_script_pubkey L addr"
    "unat v + 420 + 2 * dust L = unat (txout_value (utxo_txout slash)) + unat bridge"
    "unat b + 190 + dust L = unat bridge"
    "btc_input (handler_tx h) = create_tx_ins [bridge_fund] @
       create_tx_ins_with_sequence [utxo_outpoint slash] (ucast operator_after)"
    "btc_output (handler_tx h) =
       [\<lparr>txout_value = v, txout_script = address_script_pubkey L wallet'\<rparr>, anyone_can_spend_txout L]"
    "handler_prevouts h = [\<lparr>txout_value = b, txout_script = address_script_pubkey L musig\<rparr>, utxo_txout slash]"
    "handler_scripts h = [[], [generate_relative_timelock_script L operator operator_after]]"
    "handler_spend_infos h = [musig_info, info]"
  using assms
  by (fastforce simp: create_operator_takes_tx_def Let_def amount_sub_eq_Ok amount_add_eq_Ok dust_def
      split: prod.splits)

text \<open>
  C15. The three transactions that pay an operator back chain without loss: the move transaction of
  the deposit pays 190, slash-or-take pays 570 less the anchor, operator-takes pays 230, and the
  output of the operator's wallet holds the kickoff output and the bridge amount less these fees and
  the anchors.
\<close>

theorem operator_payout:
  assumes "create_move_tx_handler L deposit evm recovery nofn network user_after bridge = Ok m"
    and "create_slash_or_take_tx L deposit kickoff operator idx nofn network user_after
      operator_after bridge = Ok s"
    and "create_operator_takes_tx L \<lparr>op_txid = compute_txid L (handler_tx m), op_vout = 0\<rparr>
      \<lparr>utxo_outpoint = \<lparr>op_txid = compute_txid L (handler_tx s), op_vout = 0\<rparr>,
       utxo_txout = btc_output (handler_tx s) ! 0\<rparr>
      operator nofn network operator_after bridge wallet = Ok t"
  shows "handler_prevouts t = [btc_output (handler_tx m) ! 0, btc_output (handler_tx s) ! 0] \<and>
    pays_fee m 190 \<and> out_total (handler_prevouts s) + dust L = out_total (btc_output (handler_tx s)) + 570 \<and>
    pays_fee t 230 \<and>
    unat (txout_value (btc_output (handler_tx t) ! 0)) + 990 + 2 * dust L =
      unat (txout_value (utxo_txout kickoff)) + unat bridge \<and>
    (\<exists>wallet'. require_network L wallet network = Some wallet' \<and>
      txout_script (btc_output (handler_tx t) ! 0) = address_script_pubkey L wallet')"
proof -
  note m = create_move_tx_handler_fee [OF assms(1)]
  obtain v addr info where mv: "create_musig2_address L nofn network = Ok (addr, info)"
    "unat v + 190 + dust L = unat bridge"
    "btc_output (handler_tx m) =
      [\<lparr>txout_value = v, txout_script = address_script_pubkey L addr\<rparr>, anyone_can_spend_txout L]"
    by (rule create_move_tx_outs [OF m(2)])
  obtain sa si sv where s: "unat (txout_value (utxo_txout kickoff)) = unat sv + 570"
    "btc_output (handler_tx s) ! 0 = \<lparr>txout_value = sv, txout_script = address_script_pubkey L sa\<rparr>"
    "out_total (btc_output (handler_tx s)) = unat sv + dust L"
    "handler_prevouts s = [utxo_txout kickoff]"
    by (rule create_slash_or_take_tx_eq [OF assms(2)]) (auto simp: dust_def)
  obtain wallet' v' b where t: "require_network L wallet network = Some wallet'"
    "unat v' + 420 + 2 * dust L = unat sv + unat bridge" "unat b + 190 + dust L = unat bridge"
    "btc_output (handler_tx t) =
      [\<lparr>txout_value = v', txout_script = address_script_pubkey L wallet'\<rparr>, anyone_can_spend_txout L]"
    "handler_prevouts t =
      [\<lparr>txout_value = b, txout_script = address_script_pubkey L addr\<rparr>, btc_output (handler_tx s) ! 0]"
    by (rule create_operator_takes_tx_eq [OF assms(3)]) (use mv s(2) in auto)
  have "b = v"
    using t(3) mv(2) by (simp add: word_unat_eq_iff)
  with t mv s m(1) show ?thesis
    by (auto simp: pays_fee_def dust_def)
qed

definition example_deposit :: outpoint where
  "example_deposit = \<lparr>op_txid = replicate 32 9, op_vout = 0\<rparr>"

definition example_kickoff_utxo :: utxo where
  "example_kickoff_utxo =
    (case create_kickoff_address example_lib (replicate 32 1) (replicate 32 2) Regtest of
       Ok (addr, _) \<Rightarrow> \<lparr>utxo_outpoint = \<lparr>op_txid = replicate 32 4, op_vout = 0\<rparr>,
         utxo_txout = \<lparr>txout_value = 100000, txout_script = address_script_pubkey example_lib addr\<rparr>\<rparr>
     | _ \<Rightarrow> example_funding)"

definition example_move_tx :: "tx_handler outcome" where
  "example_move_tx = create_move_tx_handler example_lib example_deposit (replicate 20 3)
     (replicate 32 5) (replicate 32 1) Regtest 10 100000000"

definition example_slash_tx :: "tx_handler outcome" where
  "example_slash_tx = create_slash_or_take_tx example_lib example_deposit example_kickoff_utxo
     (replicate 32 2) 3 (replicate 32 1) Regtest 10 5 100000000"

definition example_takes_tx :: "tx_handler outcome" where
  "example_takes_tx = attempt example_move_tx (\<lambda>m. attempt example_slash_tx (\<lambda>s.
     create_operator_takes_tx example_lib
      \<lparr>op_txid = compute_txid example_lib (handler_tx m), op_vout = 0\<rparr>
      \<lparr>utxo_outpoint = \<lparr>op_txid = compute_txid example_lib (handler_tx s), op_vout = 0\<rparr>,
       utxo_txout = btc_output (handler_tx s) ! 0\<rparr>
      (replicate 32 2) (replicate 32 1) Regtest 5 100000000 (replicate 32 6)))"

lemma example_takes_tx_ok: "\<exists>t. example_takes_tx = Ok t"
  unfolding is_Ok_iff [symmetric] by code_simp

theorem operator_payout_witness:
  "\<exists>t. example_takes_tx = Ok t \<and> unat (txout_value (btc_output (handler_tx t) ! 0)) = 100098350"
proof -
  obtain t where t: "example_takes_tx = Ok t"
    using example_takes_tx_ok by blast
  then obtain m s where ms: "example_move_tx = Ok m" "example_slash_tx = Ok s"
    and takes: "create_operator_takes_tx example_lib
      \<lparr>op_txid = compute_txid example_lib (handler_tx m), op_vout = 0\<rparr>
      \<lparr>utxo_outpoint = \<lparr>op_txid = compute_txid example_lib (handler_tx s), op_vout = 0\<rparr>,
       utxo_txout = btc_output (handler_tx s) ! 0\<rparr>
      (replicate 32 2) (replicate 32 1) Regtest 5 100000000 (replicate 32 6) = Ok t"
    unfolding example_takes_tx_def attempt_eq_Ok by blast
  have "txout_value (utxo_txout example_kickoff_utxo) = 100000"
    "txout_value (anyone_can_spend_txout example_lib) = 330"
    by code_simp+
  then have "unat (txout_value (utxo_txout example_kickoff_utxo)) = 100000" "dust example_lib = 330"
    by (simp_all add: dust_def)
  with operator_payout [OF ms(1) [unfolded example_move_tx_def] ms(2) [unfolded example_slash_tx_def] takes] t
  show ?thesis
    by auto
qed

text \<open>
  The OP_RETURN output of a slash-or-take transaction commits to the moved deposit and to the
  operator: two such transactions with the same OP_RETURN output were made for the same operator
  index and for move transactions with the same id.
\<close>

lemma slash_or_take_commitment:
  assumes "create_slash_or_take_tx L deposit kickoff operator idx nofn network user_after
      operator_after bridge = Ok h"
    and "create_slash_or_take_tx L deposit' kickoff' operator' idx' nofn' network' user_after'
      operator_after' bridge' = Ok h'"
    and "btc_output (handler_tx h) ! 2 = btc_output (handler_tx h') ! 2"
    and "\<And>tx. length (compute_txid L tx) = 32"
    and "\<And>bs bs'. into_script L [Push_Opcode OP_RETURN, Push_Slice bs] =
      into_script L [Push_Opcode OP_RETURN, Push_Slice bs'] \<Longrightarrow> bs = bs'"
  shows "idx = idx' \<and> (\<exists>move_tx move_tx'.
    create_move_tx L deposit nofn bridge network = Ok move_tx \<and>
    create_move_tx L deposit' nofn' bridge' network' = Ok move_tx' \<and>
    compute_txid L move_tx = compute_txid L move_tx')"
proof -
  obtain move_tx where m: "create_move_tx L deposit nofn bridge network = Ok move_tx"
    "btc_output (handler_tx h) ! 2 =
      op_return_txout L (compute_txid L move_tx @ usize_to_var_len_bytes idx)"
    by (rule create_slash_or_take_tx_eq [OF assms(1)]) (auto simp: numeral_2_eq_2)
  obtain move_tx' where m': "create_move_tx L deposit' nofn' bridge' network' = Ok move_tx'"
    "btc_output (handler_tx h') ! 2 =
      op_return_txout L (compute_txid L move_tx' @ usize_to_var_len_bytes idx')"
    by (rule create_slash_or_take_tx_eq [OF assms(2)]) (auto simp: numeral_2_eq_2)
  have "compute_txid L move_tx @ usize_to_var_len_bytes idx =
      compute_txid L move_tx' @ usize_to_var_len_bytes idx'"
    using assms(3,5) m(2) m'(2) by (simp add: op_return_txout_def Let_def)
  then have "compute_txid L move_tx = compute_txid L move_tx'"
    "usize_to_var_len_bytes idx = usize_to_var_len_bytes idx'"
    using assms(4) by (simp_all add: append_eq_append_conv)
  with m(1) m'(1) usize_to_var_len_bytes_inject show ?thesis
    by blast
qed

text \<open>
  C32. The operator's reimbursement spends the moved deposit and the slash-or-take output; the
  sequence of the second input is the operator's delay truncated to 16 bits, while the script it
  spends demands the whole delay, so the two agree exactly for delays below 65536 blocks.
\<close>

theorem operator_takes_timelock:
  assumes "create_operator_takes_tx L bridge_fund slash operator nofn network operator_after bridge
    wallet = Ok h"
  shows "List.map txin_previous_output (btc_input (handler_tx h)) = [bridge_fund, utxo_outpoint slash] \<and>
    unat (txin_sequence (btc_input (handler_tx h) ! 1)) = unat operator_after mod 65536 \<and>
    handler_scripts h ! 1 = [into_script L [Push_Int (uint operator_after), Push_Opcode OP_CSV,
      Push_Opcode OP_DROP, Push_X_Only_Key operator, Push_Opcode OP_CHECKSIG]] \<and>
    (unat (txin_sequence (btc_input (handler_tx h) ! 1)) = unat operator_after \<longleftrightarrow>
      unat operator_after < 65536)"
proof -
  let ?seq = "ucast (ucast operator_after :: u16) :: u32"
  have seq: "unat ?seq = unat operator_after mod 65536"
    by (simp add: unsigned_ucast_eq take_bit_eq_mod unat_mod_distrib)
  then have "unat ?seq = unat operator_after \<longleftrightarrow> unat operator_after < 65536"
    by (metis mod_less mod_less_divisor zero_less_numeral)
  with seq show ?thesis
    by (cases rule: create_operator_takes_tx_eq [OF assms])
      (simp add: create_tx_ins_def create_tx_ins_with_sequence_def generate_relative_timelock_script_def)
qed

theorem operator_takes_timelock_witness:
  "\<exists>t. example_takes_tx = Ok t \<and> unat (txin_sequence (btc_input (handler_tx t) ! 1)) = 5"
proof -
  obtain t where t: "example_takes_tx = Ok t"
    using example_takes_tx_ok by blast
  then obtain fund slash where "create_operator_takes_tx example_lib fund slash (replicate 32 2)
      (replicate 32 1) Regtest 5 100000000 (replicate 32 6) = Ok t"
    unfolding example_takes_tx_def attempt_eq_Ok by blast
  from operator_takes_timelock [OF this] t show ?thesis
    by auto
qed

section \<open>Witness data\<close>

definition without_witnesses :: "btc_tx \<Rightarrow> btc_tx" where
  "without_witnesses tx = tx\<lparr>btc_input := List.map (\<lambda>i. i\<lparr>txin_witness := []\<rparr>) (btc_input tx)\<rparr>"

lemma push_witness_simps [simp]:
  "length (btc_input (push_witness i els tx)) = length (btc_input tx)"
  "without_witnesses (push_witness i els tx) = without_witnesses tx"
  "i < length (btc_input tx) \<Longrightarrow>
    txin_witness (btc_input (push_witness i els tx) ! i) = txin_witness (btc_input tx ! i) @ els"
  "j \<noteq> i \<Longrightarrow> btc_input (push_witness i els tx) ! j = btc_input tx ! j"
proof -
  have "List.map (\<lambda>i. i\<lparr>txin_witness := []\<rparr>) (xs[i := (xs ! i)\<lparr>txin_witness := w\<rparr>]) =
      List.map (\<lambda>i. i\<lparr>txin_witness := []\<rparr>) xs" for xs :: "txin list" and i w
    by (cases "i < length xs") (auto simp: list_update_beyond nth_list_update intro!: nth_equalityI)
  then show "without_witnesses (push_witness i els tx) = without_witnesses tx"
    by (simp add: without_witnesses_def push_witness_def)
qed (simp_all add: push_witness_def)

text \<open>
  Adding witness data changes nothing but the witness of the given input, so neither the id of the
  transaction nor any signature hash changes; the input's witness grows by the elements and, for a
  script spend, by the script and its control block. A missing input is an error, and an input
  without the demanded script panics.
\<close>

lemma handle_taproot_witness_effect:
  "case handle_taproot_witness_new L h els i script_index of
     Ok h' \<Rightarrow> i < length (btc_input (handler_tx h)) \<and>
       without_witnesses (handler_tx h') = without_witnesses (handler_tx h) \<and>
       (\<forall>j. j \<noteq> i \<longrightarrow> btc_input (handler_tx h') ! j = btc_input (handler_tx h) ! j) \<and>
       handler_prevouts h' = handler_prevouts h \<and>
       txin_witness (btc_input (handler_tx h') ! i) = txin_witness (btc_input (handler_tx h) ! i) @ els @
         (case script_index of None \<Rightarrow> []
          | Some k \<Rightarrow> [handler_scripts h ! i ! k,
              the (control_block L (handler_spend_infos h ! i) (handler_scripts h ! i ! k))])
   | Err e \<Rightarrow> e = TxInputNotFound \<and> length (btc_input (handler_tx h)) \<le> i \<or>
       e = ControlBlockError \<and> (\<exists>k. script_index = Some k \<and>
         control_block L (handler_spend_infos h ! i) (handler_scripts h ! i ! k) = None)
   | Panic \<Rightarrow> (\<exists>k. script_index = Some k \<and> (length (handler_scripts h) \<le> i \<or>
       length (handler_scripts h ! i) \<le> k \<or> length (handler_spend_infos h) \<le> i))"
proof (cases "i < length (btc_input (handler_tx h))")
  case False
  then show ?thesis
    by (simp add: handle_taproot_witness_new_def)
next
  case True
  show ?thesis
  proof (cases script_index)
    case None
    with True show ?thesis
      by (simp add: handle_taproot_witness_new_def Let_def)
  next
    case (Some k)
    show ?thesis
    proof (cases "i < length (handler_scripts h) \<and> k < length (handler_scripts h ! i) \<and>
        i < length (handler_spend_infos h)")
      case True
      with Some \<open>i < length (btc_input (handler_tx h))\<close> show ?thesis
        by (cases "control_block L (handler_spend_infos h ! i) (handler_scripts h ! i ! k)")
          (simp_all add: handle_taproot_witness_new_def Let_def)
    next
      case False
      with Some \<open>i < length (btc_input (handler_tx h))\<close> show ?thesis
        by (cases "i < length (handler_scripts h)"; cases "k < length (handler_scripts h ! i)")
          (simp_all add: handle_taproot_witness_new_def Let_def)
    qed
  qed
qed

end
