(* ===== verification/Signing.thy ===== *)
theory Signing
  imports Tx_Builder
begin

text \<open>
  \<open>core/src/actor.rs\<close> and \<open>core/src/musig2.rs\<close>: the keys of a participant, the signature hashes of
  the inputs of a transaction handler, single signatures, and the wrappers around the \<open>musig2\<close>
  crate. Curve operations are parameters; what is modelled is which hash is signed with which key
  and tweak, and where the code fails or panics.
\<close>

section \<open>Actor\<close>

text \<open>
  Signing with one key is randomised: \<open>aux\<close> is what the crate draws for the signature, and the handlers
  of the roles draw it (\<open>draw_aux\<close> of \<open>Chain_Rpc\<close>) before each call. A function that fails before it
  signs leaves the drawn bytes unused.
\<close>

record actor =
  actor_keypair :: keypair
  actor_secret_key :: secret_key
  actor_xonly :: xonly
  actor_public_key :: public_key
  actor_address :: address

definition actor_new :: "'x sign_lib_scheme \<Rightarrow> secret_key \<Rightarrow> network \<Rightarrow> actor" where
  "actor_new L sk network =
    (let keypair = keypair_from_secret_key L sk;
         xonly = keypair_xonly L keypair;
         address = p2tr L xonly None network
     in \<lparr>actor_keypair = keypair, actor_secret_key = keypair_secret_key L keypair,
         actor_xonly = xonly, actor_public_key = keypair_public_key L keypair,
         actor_address = address\<rparr>)"

definition sign_with_tweak ::
  "'x sign_lib_scheme \<Rightarrow> bytes \<Rightarrow> actor \<Rightarrow> bytes \<Rightarrow> bytes option \<Rightarrow> signature outcome" where
  "sign_with_tweak L aux self sighash merkle_root =
    attempt (ok_or (add_xonly_tweak L (actor_keypair self)
       (tap_tweak_hash L (actor_xonly self) merkle_root)) Secp256k1Error) (\<lambda>tweaked.
    Ok (sign_schnorr L aux sighash tweaked))"

definition sign :: "'x sign_lib_scheme \<Rightarrow> bytes \<Rightarrow> actor \<Rightarrow> bytes \<Rightarrow> signature" where
  "sign L aux self sighash = sign_schnorr L aux sighash (actor_keypair self)"

text \<open>\<open>tx.scripts[txin_index][script_index]\<close>.\<close>

definition script_of_handler :: "tx_handler \<Rightarrow> nat \<Rightarrow> nat \<Rightarrow> script outcome" where
  "script_of_handler tx txin_index script_index =
    attempt (item_at (handler_scripts tx) txin_index) (\<lambda>scripts. item_at scripts script_index)"

definition convert_tx_to_sighash_script_spend ::
  "'x sign_lib_scheme \<Rightarrow> tx_handler \<Rightarrow> nat \<Rightarrow> nat \<Rightarrow> bytes outcome" where
  "convert_tx_to_sighash_script_spend L tx_handler txin_index script_index =
    attempt (script_of_handler tx_handler txin_index script_index) (\<lambda>script.
    ok_or (script_spend_signature_hash L (handler_tx tx_handler) txin_index
        (All_Prevouts (handler_prevouts tx_handler)) (tap_leaf_hash_from_script L script) Default)
      BitcoinSighashTaprootError)"

definition convert_tx_to_sighash_pubkey_spend ::
  "'x sign_lib_scheme \<Rightarrow> tx_handler \<Rightarrow> nat \<Rightarrow> bytes outcome" where
  "convert_tx_to_sighash_pubkey_spend L tx txin_index =
    ok_or (key_spend_signature_hash L (handler_tx tx) txin_index
        (All_Prevouts (handler_prevouts tx)) Default)
      BitcoinSighashTaprootError"

definition sign_taproot_script_spend_tx ::
  "'x sign_lib_scheme \<Rightarrow> bytes \<Rightarrow> actor \<Rightarrow> tx_handler \<Rightarrow> nat \<Rightarrow> nat \<Rightarrow> signature outcome" where
  "sign_taproot_script_spend_tx L aux self tx txin_index script_index =
    attempt (script_of_handler tx txin_index script_index) (\<lambda>script.
    attempt (ok_or (script_spend_signature_hash L (handler_tx tx) txin_index
        (All_Prevouts (handler_prevouts tx)) (tap_leaf_hash_from_script L script) Default)
      BitcoinSighashTaprootError) (\<lambda>sig_hash.
    Ok (sign L aux self sig_hash)))"

definition sign_taproot_script_spend_tx_new_tweaked ::
  "'x sign_lib_scheme \<Rightarrow> bytes \<Rightarrow> actor \<Rightarrow> tx_handler \<Rightarrow> nat \<Rightarrow> nat \<Rightarrow> signature outcome" where
  "sign_taproot_script_spend_tx_new_tweaked L aux self tx_handler txin_index script_index =
    attempt (script_of_handler tx_handler txin_index script_index) (\<lambda>script.
    attempt (ok_or (script_spend_signature_hash L (handler_tx tx_handler) txin_index
        (All_Prevouts (handler_prevouts tx_handler)) (tap_leaf_hash_from_script L script) Default)
      BitcoinSighashTaprootError) (\<lambda>sig_hash.
    sign_with_tweak L aux self sig_hash None))"

text \<open>
  With \<open>SinglePlusAnyoneCanPay\<close> only the spent output of the signed input is hashed, and it is
  looked up by index, which panics out of range; with any other type all of them are.
\<close>

definition prevouts_for ::
  "sighash_type option \<Rightarrow> nat \<Rightarrow> txout list \<Rightarrow> prevouts_arg outcome" where
  "prevouts_for sighash_type input_index prevouts =
    (case sighash_type of
       Some SinglePlusAnyoneCanPay \<Rightarrow>
         attempt (item_at prevouts input_index) (\<lambda>prevout. Ok (One_Prevout input_index prevout))
     | _ \<Rightarrow> Ok (All_Prevouts prevouts))"

definition sighash_type_or_default :: "sighash_type option \<Rightarrow> sighash_type" where
  "sighash_type_or_default t = (case t of Some t \<Rightarrow> t | None \<Rightarrow> Default)"

definition sign_taproot_pubkey_spend ::
  "'x sign_lib_scheme \<Rightarrow> bytes \<Rightarrow> actor \<Rightarrow> tx_handler \<Rightarrow> nat \<Rightarrow> sighash_type option \<Rightarrow> signature outcome" where
  "sign_taproot_pubkey_spend L aux self tx_handler input_index sighash_type =
    attempt (prevouts_for sighash_type input_index (handler_prevouts tx_handler)) (\<lambda>prevouts.
    attempt (ok_or (key_spend_signature_hash L (handler_tx tx_handler) input_index prevouts
        (sighash_type_or_default sighash_type)) BitcoinSighashTaprootError) (\<lambda>sig_hash.
    sign_with_tweak L aux self sig_hash None))"

definition sign_taproot_pubkey_spend_tx ::
  "'x sign_lib_scheme \<Rightarrow> bytes \<Rightarrow> actor \<Rightarrow> btc_tx \<Rightarrow> txout list \<Rightarrow> nat \<Rightarrow> signature outcome" where
  "sign_taproot_pubkey_spend_tx L aux self tx prevouts input_index =
    attempt (ok_or (key_spend_signature_hash L tx input_index (All_Prevouts prevouts) Default)
      BitcoinSighashTaprootError) (\<lambda>sig_hash.
    sign_with_tweak L aux self sig_hash None)"

definition sign_taproot_pubkey_spend_tx_with_sighash ::
  "'x sign_lib_scheme \<Rightarrow> bytes \<Rightarrow> actor \<Rightarrow> btc_tx \<Rightarrow> txout list \<Rightarrow> nat \<Rightarrow> sighash_type option \<Rightarrow> signature outcome" where
  "sign_taproot_pubkey_spend_tx_with_sighash L aux self tx prevouts input_index sighash_type =
    attempt (prevouts_for sighash_type input_index prevouts) (\<lambda>prevouts.
    attempt (ok_or (key_spend_signature_hash L tx input_index prevouts
        (sighash_type_or_default sighash_type)) BitcoinSighashTaprootError) (\<lambda>sig_hash.
    sign_with_tweak L aux self sig_hash None))"

section \<open>MuSig2\<close>

definition create_key_agg_ctx ::
  "'x lib_scheme \<Rightarrow> public_key list \<Rightarrow> bytes option \<Rightarrow> bool \<Rightarrow> bytes outcome" where
  "create_key_agg_ctx L pks tweak tweak_flag =
    attempt (ok_or (key_agg_new L pks) KeyAggContextError) (\<lambda>key_agg_ctx_raw.
    if tweak_flag then
      (case tweak of
         Some scalar \<Rightarrow> ok_or (with_taproot_tweak L key_agg_ctx_raw scalar) KeyAggContextTweakError
       | None \<Rightarrow> ok_or (with_unspendable_taproot_tweak L key_agg_ctx_raw) KeyAggContextTweakError)
    else if tweak \<noteq> None then Err VecConversionError
    else Ok key_agg_ctx_raw)"

definition from_musig2_pks ::
  "'x lib_scheme \<Rightarrow> public_key list \<Rightarrow> bytes option \<Rightarrow> bool \<Rightarrow> xonly outcome" where
  "from_musig2_pks L pks tweak tweak_flag =
    attempt (unwrap_ok (create_key_agg_ctx L pks tweak tweak_flag)) (\<lambda>key_agg_ctx.
    let musig_agg_pubkey =
          (if tweak_flag then aggregated_pubkey L key_agg_ctx
           else aggregated_pubkey_untweaked L key_agg_ctx);
        musig_agg_xonly_pubkey = public_key_xonly L musig_agg_pubkey
    in unwrap (xonly_from_slice L musig_agg_xonly_pubkey))"

definition aggregate_nonces :: "'x lib_scheme \<Rightarrow> bytes list \<Rightarrow> bytes outcome" where
  "aggregate_nonces L pub_nonces =
    attempt (attempt_map (\<lambda>x. unwrap (pub_nonce_from_bytes L x)) pub_nonces) (\<lambda>musig_pub_nonces.
    Ok (agg_nonce_sum L musig_pub_nonces))"

definition aggregate_partial_signatures ::
  "'x lib_scheme \<Rightarrow> public_key list \<Rightarrow> bytes option \<Rightarrow> bool \<Rightarrow> bytes \<Rightarrow> bytes list \<Rightarrow> bytes \<Rightarrow> bytes outcome" where
  "aggregate_partial_signatures L pks tweak tweak_flag agg_nonce partial_sigs message =
    attempt (create_key_agg_ctx L pks tweak tweak_flag) (\<lambda>key_agg_ctx.
    attempt (attempt_map (\<lambda>x. unwrap (partial_signature_from_slice L x)) partial_sigs)
      (\<lambda>musig_partial_sigs.
    attempt (unwrap (agg_nonce_from_bytes L agg_nonce)) (\<lambda>musig_agg_nonce.
    ok_or (musig_aggregate L key_agg_ctx musig_agg_nonce musig_partial_sigs message)
      MuSig2VerifyError)))"

text \<open>\<open>rnd\<close> stands for the 32 bytes drawn from the generator.\<close>

definition nonce_pair :: "'x lib_scheme \<Rightarrow> keypair \<Rightarrow> bytes \<Rightarrow> bytes \<times> bytes" where
  "nonce_pair L keypair rnd =
    (let sec_nonce = sec_nonce_build L rnd (keypair_public_key L keypair) (keypair_secret_key L keypair);
         pub_nonce = sec_nonce_public L sec_nonce
     in (sec_nonce, pub_nonce))"

definition partial_sign ::
  "'x lib_scheme \<Rightarrow> public_key list \<Rightarrow> bytes option \<Rightarrow> bool \<Rightarrow> bytes \<Rightarrow> bytes \<Rightarrow> keypair \<Rightarrow> bytes \<Rightarrow> bytes outcome" where
  "partial_sign L pks tweak tweak_flag sec_nonce agg_nonce keypair sighash =
    attempt (unwrap_ok (create_key_agg_ctx L pks tweak tweak_flag)) (\<lambda>key_agg_ctx.
    attempt (unwrap (sec_nonce_from_bytes L sec_nonce)) (\<lambda>musig_sec_nonce.
    attempt (unwrap (agg_nonce_from_bytes L agg_nonce)) (\<lambda>musig_agg_nonce.
    unwrap (musig_sign_partial L key_agg_ctx (keypair_secret_key L keypair) musig_sec_nonce
      musig_agg_nonce sighash))))"

end
