(* ===== verification/Chain_Rpc.thy ===== *)
theory Chain_Rpc
  imports Bridge_Database Signing
begin

text \<open>
  \<open>core/src/extended_rpc.rs\<close> over the requests of the Bitcoin node, which are parameters on an opaque
  state; an answer \<open>None\<close> stands for an error of the request. The requests of the Citrea node, the
  random generator and whether an HTTP client accepts a URL belong to the same record. The lemmas say when \<open>check_deposit_utxo\<close> accepts.
\<close>

section \<open>Requests\<close>

record 'n node_ops =
  get_raw_transaction_info :: "txid \<Rightarrow> 'n \<Rightarrow> u32 option option \<times> 'n"
  get_raw_transaction_op :: "txid \<Rightarrow> 'n \<Rightarrow> btc_tx option \<times> 'n"
  get_tx_out :: "txid \<Rightarrow> u32 \<Rightarrow> 'n \<Rightarrow> txout option option \<times> 'n"
  send_to_address_op :: "address \<Rightarrow> amount \<Rightarrow> 'n \<Rightarrow> txid option \<times> 'n"
  get_transaction :: "txid \<Rightarrow> 'n \<Rightarrow> u32 list option \<times> 'n"
  get_new_address :: "'n \<Rightarrow> address option \<times> 'n"
  generate_to_address :: "u64 \<Rightarrow> address \<Rightarrow> 'n \<Rightarrow> unit option \<times> 'n"
  fund_raw_transaction_op :: "btc_tx \<Rightarrow> 'n \<Rightarrow> bytes option \<times> 'n"
  sign_raw_transaction_op :: "bytes \<Rightarrow> 'n \<Rightarrow> bytes option \<times> 'n"
  send_raw_transaction_op :: "btc_tx \<Rightarrow> 'n \<Rightarrow> txid option \<times> 'n"
  eth_call :: "string \<Rightarrow> string \<Rightarrow> string option \<Rightarrow> 'n \<Rightarrow> string option \<times> 'n"
  random_bytes :: "nat \<Rightarrow> 'n \<Rightarrow> bytes \<times> 'n"
  http_client_builds :: "string \<Rightarrow> bool"

section \<open>Functions of \<open>ExtendedRpc\<close>\<close>

definition confirmation_blocks :: "'n node_ops \<Rightarrow> txid \<Rightarrow> ('n, u32) handler" where
  "confirmation_blocks N txid =
    ask (request (get_raw_transaction_info N txid) BitcoinRpcError) (\<lambda>confirmations.
    lift (ok_or confirmations NoConfirmationData))"

text \<open>The indexing \<open>tx.output[vout]\<close> panics when the transaction has no such output.\<close>

definition get_txout_from_outpoint :: "'n node_ops \<Rightarrow> outpoint \<Rightarrow> ('n, txout) handler" where
  "get_txout_from_outpoint N outpoint =
    ask (request (get_raw_transaction_op N (op_txid outpoint)) BitcoinRpcError) (\<lambda>tx.
    lift (item_at (btc_output tx) (unat (op_vout outpoint))))"

definition check_utxo_address_and_amount ::
  "'n node_ops \<Rightarrow> outpoint \<Rightarrow> script \<Rightarrow> amount \<Rightarrow> ('n, bool) handler" where
  "check_utxo_address_and_amount N outpoint address amount_sats =
    ask (request (get_raw_transaction_op N (op_txid outpoint)) BitcoinRpcError) (\<lambda>tx.
    ask (lift (item_at (btc_output tx) (unat (op_vout outpoint)))) (\<lambda>current_output.
    let expected_output = \<lparr>txout_value = amount_sats, txout_script = address\<rparr>
    in return (expected_output = current_output)))"

definition is_utxo_spent :: "'n node_ops \<Rightarrow> outpoint \<Rightarrow> ('n, bool) handler" where
  "is_utxo_spent N outpoint =
    ask (request (get_tx_out N (op_txid outpoint) (op_vout outpoint)) BitcoinRpcError) (\<lambda>res.
    return (res = None))"

definition mine_blocks :: "'n node_ops \<Rightarrow> u64 \<Rightarrow> ('n, unit) handler" where
  "mine_blocks N block_num =
    ask (request (get_new_address N) BitcoinRpcError) (\<lambda>new_address.
    request (generate_to_address N block_num new_address) BitcoinRpcError)"

definition send_to_address :: "'n node_ops \<Rightarrow> address \<Rightarrow> amount \<Rightarrow> ('n, outpoint) handler" where
  "send_to_address N address amount_sats =
    ask (request (send_to_address_op N address amount_sats) BitcoinRpcError) (\<lambda>txid.
    ask (request (get_transaction N txid) BitcoinRpcError) (\<lambda>details.
    ask (lift (item_at details 0)) (\<lambda>vout.
    return \<lparr>op_txid = txid, op_vout = vout\<rparr>)))"

definition fund_raw_transaction :: "'n node_ops \<Rightarrow> btc_tx \<Rightarrow> ('n, bytes) handler" where
  "fund_raw_transaction N tx = request (fund_raw_transaction_op N tx) BitcoinRpcError"

definition sign_raw_transaction_with_wallet :: "'n node_ops \<Rightarrow> bytes \<Rightarrow> ('n, bytes) handler" where
  "sign_raw_transaction_with_wallet N tx = request (sign_raw_transaction_op N tx) BitcoinRpcError"

definition get_raw_transaction :: "'n node_ops \<Rightarrow> txid \<Rightarrow> ('n, btc_tx option) handler" where
  "get_raw_transaction N txid = call (get_raw_transaction_op N txid)"

text \<open>What \<open>sign_schnorr\<close> of the crate draws from the random generator.\<close>

definition draw_aux :: "'n node_ops \<Rightarrow> ('n, bytes) handler" where
  "draw_aux N = call (random_bytes N 32)"

definition send_raw_transaction :: "'n node_ops \<Rightarrow> btc_tx \<Rightarrow> ('n, txid) handler" where
  "send_raw_transaction N tx = request (send_raw_transaction_op N tx) BitcoinRpcError"

definition check_deposit_utxo ::
  "'x sign_lib_scheme \<Rightarrow> 'n node_ops \<Rightarrow> xonly \<Rightarrow> outpoint \<Rightarrow> address \<Rightarrow> evm_address \<Rightarrow> amount \<Rightarrow> u32 \<Rightarrow>
   network \<Rightarrow> u32 \<Rightarrow> ('n, unit) handler" where
  "check_deposit_utxo L N nofn_xonly_pk deposit_outpoint recovery_taproot_address evm_address
     amount_sats confirmation_block_count network user_takes_after =
    ask (confirmation_blocks N (op_txid deposit_outpoint)) (\<lambda>confirmations.
    ask (lift (ensure (\<not> confirmations < confirmation_block_count) DepositNotFinalized)) (\<lambda>_.
    ask (lift (generate_deposit_address L nofn_xonly_pk recovery_taproot_address evm_address
        amount_sats network user_takes_after)) (\<lambda>(deposit_address, _).
    ask (check_utxo_address_and_amount N deposit_outpoint
        (address_script_pubkey L deposit_address) amount_sats) (\<lambda>matches.
    ask (lift (ensure matches InvalidDepositUTXO)) (\<lambda>_.
    ask (is_utxo_spent N deposit_outpoint) (\<lambda>spent.
    lift (ensure (\<not> spent) UTXOSpent)))))))"

section \<open>What an accepted deposit is\<close>

text \<open>
  The requests are made one after the other on a node that may change in between, so each fact is
  about the state of the node at its request.
\<close>

definition deposit_facts ::
  "'x sign_lib_scheme \<Rightarrow> 'n node_ops \<Rightarrow> xonly \<Rightarrow> outpoint \<Rightarrow> address \<Rightarrow> evm_address \<Rightarrow> amount \<Rightarrow> u32 \<Rightarrow>
   network \<Rightarrow> u32 \<Rightarrow> 'n \<Rightarrow> 'n \<Rightarrow> bool" where
  "deposit_facts L N nofn deposit recovery evm amount threshold network user_after n n' \<longleftrightarrow>
    (\<exists>confirmations n1 tx n2 out addr info.
      get_raw_transaction_info N (op_txid deposit) n = (Some (Some confirmations), n1) \<and>
      threshold \<le> confirmations \<and>
      generate_deposit_address L nofn recovery evm amount network user_after = Ok (addr, info) \<and>
      get_raw_transaction_op N (op_txid deposit) n1 = (Some tx, n2) \<and>
      unat (op_vout deposit) < length (btc_output tx) \<and>
      btc_output tx ! unat (op_vout deposit) =
        \<lparr>txout_value = amount, txout_script = address_script_pubkey L addr\<rparr> \<and>
      get_tx_out N (op_txid deposit) (op_vout deposit) n2 = (Some (Some out), n'))"

lemma request_eq_Ok_iff:
  "request f e w = (Ok a, w') \<longleftrightarrow>
    f (world_node w) = (Some a, world_node w') \<and> w' = w\<lparr>world_node := world_node w'\<rparr>"
  by (cases "f (world_node w)") (auto simp: request_def ask_eq_Ok call_eq)

lemma confirmation_blocks_eq_Ok:
  "confirmation_blocks N txid w = (Ok c, w') \<longleftrightarrow>
    get_raw_transaction_info N txid (world_node w) = (Some (Some c), world_node w') \<and>
    w' = w\<lparr>world_node := world_node w'\<rparr>"
  by (auto simp: confirmation_blocks_def ask_eq_Ok request_eq_Ok_iff)

lemma check_utxo_address_and_amount_eq_Ok:
  "check_utxo_address_and_amount N k script v w = (Ok b, w') \<longleftrightarrow>
    (\<exists>tx. get_raw_transaction_op N (op_txid k) (world_node w) = (Some tx, world_node w') \<and>
      unat (op_vout k) < length (btc_output tx) \<and>
      b = (btc_output tx ! unat (op_vout k) = \<lparr>txout_value = v, txout_script = script\<rparr>)) \<and>
    w' = w\<lparr>world_node := world_node w'\<rparr>"
  by (auto simp: check_utxo_address_and_amount_def ask_eq_Ok request_eq_Ok_iff Let_def)

lemma is_utxo_spent_eq_Ok:
  "is_utxo_spent N k w = (Ok b, w') \<longleftrightarrow>
    (\<exists>res. get_tx_out N (op_txid k) (op_vout k) (world_node w) = (Some res, world_node w') \<and>
      b = (res = None)) \<and> w' = w\<lparr>world_node := world_node w'\<rparr>"
  by (auto simp: is_utxo_spent_def ask_eq_Ok request_eq_Ok_iff)

lemmas rpc_eq_Ok = request_eq_Ok_iff confirmation_blocks_eq_Ok check_utxo_address_and_amount_eq_Ok
  is_utxo_spent_eq_Ok

lemma update_node_twice: "w' = w\<lparr>world_node := n\<rparr>\<lparr>world_node := world_node w'\<rparr> \<longleftrightarrow>
    w' = w\<lparr>world_node := world_node w'\<rparr>"
  by simp

lemma check_deposit_utxo_eq_Ok:
  "check_deposit_utxo L N nofn deposit recovery evm amount threshold network user_after w = (Ok u, w') \<longleftrightarrow>
    deposit_facts L N nofn deposit recovery evm amount threshold network user_after (world_node w) (world_node w') \<and>
    w' = w\<lparr>world_node := world_node w'\<rparr>"
  (is "?check \<longleftrightarrow> ?facts \<and> ?same")
proof
  assume ?check
  then obtain c w1 addr info w2 w3 where 1: "confirmation_blocks N (op_txid deposit) w = (Ok c, w1)"
      "\<not> c < threshold"
      "generate_deposit_address L nofn recovery evm amount network user_after = Ok (addr, info)"
    and 2: "check_utxo_address_and_amount N deposit (address_script_pubkey L addr) amount w1 = (Ok True, w2)"
    and 3: "is_utxo_spent N deposit w2 = (Ok False, w')"
    unfolding check_deposit_utxo_def by (auto simp: ask_eq_Ok)
  from 1 2 3 have ?facts
    unfolding deposit_facts_def rpc_eq_Ok by fastforce
  moreover from 1 2 3 have ?same
    unfolding rpc_eq_Ok by (metis update_node_twice)
  ultimately show "?facts \<and> ?same" ..
next
  assume r: "?facts \<and> ?same"
  then obtain c n1 tx n2 out addr info where
    1: "get_raw_transaction_info N (op_txid deposit) (world_node w) = (Some (Some c), n1)" "threshold \<le> c"
      "generate_deposit_address L nofn recovery evm amount network user_after = Ok (addr, info)"
    and 2: "get_raw_transaction_op N (op_txid deposit) n1 = (Some tx, n2)"
      "unat (op_vout deposit) < length (btc_output tx)"
      "btc_output tx ! unat (op_vout deposit) =
        \<lparr>txout_value = amount, txout_script = address_script_pubkey L addr\<rparr>"
    and 3: "get_tx_out N (op_txid deposit) (op_vout deposit) n2 = (Some (Some out), world_node w')"
    unfolding deposit_facts_def by blast
  let ?w1 = "w\<lparr>world_node := n1\<rparr>" and ?w2 = "w\<lparr>world_node := n2\<rparr>"
  have "confirmation_blocks N (op_txid deposit) w = (Ok c, ?w1)"
    using 1 by (simp add: rpc_eq_Ok)
  moreover have "check_utxo_address_and_amount N deposit (address_script_pubkey L addr) amount ?w1 = (Ok True, ?w2)"
    using 2 by (simp add: rpc_eq_Ok)
  moreover have "is_utxo_spent N deposit ?w2 = (Ok False, w')"
    using 3 r by (simp add: rpc_eq_Ok)
  ultimately show ?check
    using 1 by (simp add: check_deposit_utxo_def ask_def not_less lift_def)
qed

lemma chain_rpc_read [intro]:
  "moves (=) (confirmation_blocks N txid)" "moves (=) (check_utxo_address_and_amount N k script v)"
  "moves (=) (is_utxo_spent N k)" "moves (=) (send_to_address N address v)"
  unfolding confirmation_blocks_def check_utxo_address_and_amount_def is_utxo_spent_def
    send_to_address_def Let_def
  by (intro same_db.moves_intros)+

lemma check_deposit_utxo_read [intro]:
  "moves (=) (check_deposit_utxo L N nofn k recovery evm amount threshold network user_after)"
  unfolding check_deposit_utxo_def by (intro same_db.moves_intros chain_rpc_read)

end
