(* ===== verification/Example_Node.thy ===== *)
theory Example_Node
  imports Chain_Rpc Example_Lib
begin

text \<open>
  A Bitcoin node, a configuration and a deposit to run the handlers on: the node knows a list of
  transactions, confirms all of them, spends nothing, and adds the payments it is asked to make. They show
  that the hypotheses of the properties can hold.
\<close>

definition lookup_tx :: "btc_tx list \<Rightarrow> txid \<Rightarrow> btc_tx option" where
  "lookup_tx txs txid = find (\<lambda>tx. compute_txid example_lib tx = txid) txs"

definition output_of :: "btc_tx list \<Rightarrow> txid \<Rightarrow> u32 \<Rightarrow> txout option" where
  "output_of txs txid vout =
    Option.bind (lookup_tx txs txid) (\<lambda>tx. array_get (btc_output tx) (unat vout))"

type_synonym example_chain = "btc_tx list \<times> nat"

definition node_confirmations :: "txid \<Rightarrow> example_chain \<Rightarrow> u32 option option \<times> example_chain" where
  "node_confirmations txid n = (map_option (\<lambda>tx. Some 6) (lookup_tx (fst n) txid), n)"

definition node_tx :: "txid \<Rightarrow> example_chain \<Rightarrow> btc_tx option \<times> example_chain" where
  "node_tx txid n = (lookup_tx (fst n) txid, n)"

definition node_tx_out :: "txid \<Rightarrow> u32 \<Rightarrow> example_chain \<Rightarrow> txout option option \<times> example_chain" where
  "node_tx_out txid vout n = (Some (output_of (fst n) txid vout), n)"

definition node_pay :: "address \<Rightarrow> amount \<Rightarrow> example_chain \<Rightarrow> txid option \<times> example_chain" where
  "node_pay address amount n =
    (let tx = create_btc_tx (create_tx_ins [\<lparr>op_txid = replicate 32 (word_of_nat (snd n)), op_vout = 0\<rparr>])
       [\<lparr>txout_value = amount, txout_script = address_script_pubkey example_lib address\<rparr>]
     in (Some (compute_txid example_lib tx), tx # fst n, snd n + 1))"

definition node_details :: "txid \<Rightarrow> example_chain \<Rightarrow> u32 list option \<times> example_chain" where
  "node_details txid n = (Some [0], n)"

definition node_address :: "example_chain \<Rightarrow> address option \<times> example_chain" where
  "node_address n = (Some (replicate 32 8), n)"

definition node_mine :: "u64 \<Rightarrow> address \<Rightarrow> example_chain \<Rightarrow> unit option \<times> example_chain" where
  "node_mine num address n = (Some (), n)"

definition node_fund :: "btc_tx \<Rightarrow> example_chain \<Rightarrow> bytes option \<times> example_chain" where
  "node_fund tx n = (Some (enc_tx tx), n)"

definition node_sign :: "bytes \<Rightarrow> example_chain \<Rightarrow> bytes option \<times> example_chain" where
  "node_sign raw n = (Some raw, n)"

definition node_send :: "btc_tx \<Rightarrow> example_chain \<Rightarrow> txid option \<times> example_chain" where
  "node_send tx n = (Some (compute_txid example_lib tx), tx # fst n, snd n)"

definition node_eth :: "string \<Rightarrow> string \<Rightarrow> string option \<Rightarrow> example_chain \<Rightarrow> string option \<times> example_chain" where
  "node_eth to data block n = (None, n)"

definition node_random :: "nat \<Rightarrow> example_chain \<Rightarrow> bytes \<times> example_chain" where
  "node_random len n = (replicate len (word_of_nat (snd n)), fst n, snd n + 1)"

definition example_node :: "example_chain node_ops" where
  "example_node =
    \<lparr>get_raw_transaction_info = node_confirmations, get_raw_transaction_op = node_tx,
     get_tx_out = node_tx_out, send_to_address_op = node_pay, get_transaction = node_details,
     get_new_address = node_address, generate_to_address = node_mine,
     fund_raw_transaction_op = node_fund, sign_raw_transaction_op = node_sign,
     send_raw_transaction_op = node_send, eth_call = node_eth, random_bytes = node_random,
     http_client_builds = (\<lambda>url. True)\<rparr>"

definition example_config :: "secret_key \<Rightarrow> bridge_config" where
  "example_config sk =
    \<lparr>cfg_host = [], cfg_port = 3030, cfg_network = Regtest, cfg_secret_key = sk,
     cfg_verifiers_public_keys = [2 # replicate 32 1, 2 # replicate 32 3], cfg_num_verifiers = 2,
     cfg_operators_xonly_pks = [replicate 32 2], cfg_operator_wallet_addresses = [replicate 32 6],
     cfg_num_operators = 1, cfg_operator_withdrawal_fee_sats = Some 1000, cfg_user_takes_after = 5,
     cfg_operator_takes_after = 5, cfg_bridge_amount_sats = 100000000,
     cfg_operator_num_kickoff_utxos_per_tx = 2, cfg_confirmation_threshold = 1,
     cfg_bitcoin_rpc_url = [], cfg_bitcoin_rpc_user = [], cfg_bitcoin_rpc_password = [],
     cfg_all_verifiers_secret_keys = None, cfg_all_operators_secret_keys = None,
     cfg_verifier_endpoints = None, cfg_db_host = [], cfg_db_port = 5432, cfg_db_user = [],
     cfg_db_password = [], cfg_db_name = [], cfg_citrea_rpc_url = [],
     cfg_bridge_contract_address = []\<rparr>"

definition example_nofn :: xonly where
  "example_nofn = digest (concat [2 # replicate 32 1, 2 # replicate 32 3])"

abbreviation example_recovery :: address where
  "example_recovery \<equiv> replicate 32 5"

abbreviation example_evm :: evm_address where
  "example_evm \<equiv> replicate 20 3"

text \<open>A transaction with two deposits.\<close>

definition deposit_txs :: "btc_tx list" where
  "deposit_txs =
    (case generate_deposit_address example_lib example_nofn example_recovery example_evm 100000000 Regtest 5 of
       Ok (addr, _) \<Rightarrow> [create_btc_tx (create_tx_ins [example_deposit])
         (replicate 3 \<lparr>txout_value = 100000000, txout_script = address_script_pubkey example_lib addr\<rparr>)]
     | _ \<Rightarrow> [])"

definition deposit_at :: "u32 \<Rightarrow> outpoint" where
  "deposit_at i = \<lparr>op_txid = compute_txid example_lib (hd deposit_txs), op_vout = i\<rparr>"

definition start_world :: "(database, example_chain) world" where
  "start_world = \<lparr>world_db = empty_database, world_faults = [], world_node = (deposit_txs, 0)\<rparr>"

lemma example_deposit_checked:
  "is_Ok (fst (check_deposit_utxo example_lib example_node example_nofn (deposit_at 1) example_recovery
    example_evm 100000000 1 Regtest 5 start_world))"
  by code_simp

end
