(* ===== verification/Operator_Role.thy ===== *)
theory Operator_Role
  imports Example_Node
begin

text \<open>
  \<open>core/src/operator.rs\<close>: the constructor and the four handlers of an operator, as actions on the
  world. An operator assigns one of its kickoff outputs to each deposit, pays withdrawals from its
  wallet, and hands out the transactions that pay it back. Arithmetic on plain integers wraps, as in
  the release profile. The lemmas show the invariant of its tables: every kickoff output belongs to
  a transaction the operator signed, and no two deposits share one.
\<close>

section \<open>State\<close>

record operator =
  operator_signer :: actor
  operator_config :: bridge_config
  operator_nofn_xonly_pk :: xonly
  operator_idx :: u64
  operator_citrea_client :: bool

definition position :: "('a \<Rightarrow> bool) \<Rightarrow> 'a list \<Rightarrow> nat option" where
  "position p xs = find (\<lambda>i. p (xs ! i)) [0..<length xs]"

definition operator_new :: "'x lib_scheme \<Rightarrow> 'n node_ops \<Rightarrow> bridge_config \<Rightarrow> ('n, operator) handler" where
  "operator_new L N config =
    (let signer = actor_new L (cfg_secret_key config) (cfg_network config) in
    ask database_new (\<lambda>_.
    ask (lift (from_musig2_pks L (cfg_verifiers_public_keys config) None False)) (\<lambda>nofn_xonly_pk.
    ask (lift (ok_or (position (\<lambda>xonly_pk. xonly_pk = actor_xonly signer)
        (cfg_operators_xonly_pks config)) ServerError)) (\<lambda>idx.
    ask (lift (ensure (cfg_operator_withdrawal_fee_sats config \<noteq> None)
        OperatorWithdrawalFeeNotSet)) (\<lambda>_.
    ask (in_dbtx (ask get_funding_utxo (\<lambda>found.
      if found = None then
        ask (send_to_address N (actor_address signer) 200000000) (\<lambda>outpoint.
        let funding_utxo = \<lparr>utxo_outpoint = outpoint, utxo_txout =
              \<lparr>txout_value = 200000000, txout_script = address_script_pubkey L (actor_address signer)\<rparr>\<rparr>
        in set_funding_utxo funding_utxo)
      else return ()))) (\<lambda>_.
    ask (lift (assert_that (cfg_citrea_rpc_url config = [] \<or>
        http_client_builds N (cfg_citrea_rpc_url config)))) (\<lambda>_.
    return \<lparr>operator_signer = signer, operator_config = config,
      operator_nofn_xonly_pk = nofn_xonly_pk, operator_idx = word_of_nat idx,
      operator_citrea_client = (cfg_citrea_rpc_url config \<noteq> [])\<rparr>)))))))"

section \<open>New deposits\<close>

text \<open>The message that an operator signs to claim a kickoff output for a deposit.\<close>

definition kickoff_sig_hash :: "'x sign_lib_scheme \<Rightarrow> outpoint \<Rightarrow> outpoint \<Rightarrow> bytes" where
  "kickoff_sig_hash L deposit_outpoint kickoff_outpoint =
    sha256 L (op_txid deposit_outpoint @ u32_be (op_vout deposit_outpoint) @
      op_txid kickoff_outpoint @ u32_be (op_vout kickoff_outpoint))"

text \<open>The part that makes a transaction with new kickoff outputs.\<close>

definition create_kickoffs :: "'x sign_lib_scheme \<Rightarrow> 'n node_ops \<Rightarrow> operator \<Rightarrow> outpoint \<Rightarrow> ('n, utxo) handler" where
  "create_kickoffs L N self deposit_outpoint =
    (let num = cfg_operator_num_kickoff_utxos_per_tx (operator_config self);
         signer = operator_signer self in
    ask get_funding_utxo (\<lambda>found.
    ask (lift (ok_or found (OperatorFundingUtxoNotFound (actor_address signer)))) (\<lambda>funding_utxo.
    let kickoff_tx_min_relay_fee = (if num \<le> 250 then 154 + 43 * num else 156 + 43 * num) in
    ask (lift (ensure (\<not> txout_value (utxo_txout funding_utxo) <
          KICKOFF_UTXO_AMOUNT_SATS * num + kickoff_tx_min_relay_fee + 330)
        (OperatorFundingUtxoAmountNotEnough (actor_address signer)))) (\<lambda>_.
    ask (lift (create_kickoff_utxo_tx L funding_utxo (operator_nofn_xonly_pk self)
        (actor_xonly signer) (cfg_network (operator_config self)) num)) (\<lambda>unsigned.
    ask (draw_aux N) (\<lambda>aux.
    ask (lift (sign_taproot_pubkey_spend L aux signer unsigned 0 None)) (\<lambda>sig.
    ask (lift (handle_taproot_witness_new L unsigned [sig] 0 None)) (\<lambda>kickoff_tx_handler.
    let tx = handler_tx kickoff_tx_handler in
    ask (lift (item_at (btc_output tx) (unat num))) (\<lambda>change_txout.
    let change_utxo = \<lparr>utxo_outpoint = \<lparr>op_txid = compute_txid L tx, op_vout = ucast num\<rparr>,
      utxo_txout = change_txout\<rparr> in
    ask (lift (item_at (btc_output tx) 0)) (\<lambda>kickoff_txout.
    let kickoff_utxo = \<lparr>utxo_outpoint = \<lparr>op_txid = compute_txid L tx, op_vout = 0\<rparr>,
      utxo_txout = kickoff_txout\<rparr> in
    ask (save_kickoff_utxo deposit_outpoint kickoff_utxo) (\<lambda>_.
    ask (add_deposit_kickoff_generator_tx (compute_txid L tx) (raw_hex L tx) num
        (op_txid (utxo_outpoint funding_utxo))) (\<lambda>_.
    ask (Bridge_Database.set_funding_utxo change_utxo) (\<lambda>_.
    return kickoff_utxo)))))))))))))"

text \<open>What \<open>new_deposit\<close> does between the beginning and the commit of its transaction.\<close>

definition assign_kickoff :: "'x sign_lib_scheme \<Rightarrow> 'n node_ops \<Rightarrow> operator \<Rightarrow> outpoint \<Rightarrow> ('n, utxo) handler" where
  "assign_kickoff L N self deposit_outpoint =
    ask lock_operators_kickoff_utxo_table (\<lambda>_.
    ask (get_kickoff_utxo deposit_outpoint) (\<lambda>kickoff_utxo.
    case kickoff_utxo of
      Some kickoff_utxo \<Rightarrow> return kickoff_utxo
    | None \<Rightarrow>
        ask (get_unused_kickoff_utxo_and_increase_idx L) (\<lambda>unused_kickoff_utxo.
        case unused_kickoff_utxo of
          Some unused_kickoff_utxo \<Rightarrow>
            ask (save_kickoff_utxo deposit_outpoint unused_kickoff_utxo) (\<lambda>_.
            return unused_kickoff_utxo)
        | None \<Rightarrow> create_kickoffs L N self deposit_outpoint)))"

definition operator_new_deposit ::
  "'x sign_lib_scheme \<Rightarrow> 'n node_ops \<Rightarrow> operator \<Rightarrow> outpoint \<Rightarrow> address \<Rightarrow> evm_address \<Rightarrow>
   ('n, utxo \<times> signature) handler" where
  "operator_new_deposit L N self deposit_outpoint recovery_taproot_address evm_address =
    ask (check_deposit_utxo L N (operator_nofn_xonly_pk self) deposit_outpoint
        recovery_taproot_address evm_address (cfg_bridge_amount_sats (operator_config self))
        (cfg_confirmation_threshold (operator_config self)) (cfg_network (operator_config self))
        (cfg_user_takes_after (operator_config self))) (\<lambda>_.
    ask (in_dbtx (assign_kickoff L N self deposit_outpoint)) (\<lambda>kickoff_utxo.
    ask (draw_aux N) (\<lambda>aux.
    let sig = sign L aux (operator_signer self)
      (kickoff_sig_hash L deposit_outpoint (utxo_outpoint kickoff_utxo))
    in return (kickoff_utxo, sig))))"

definition operator_set_funding_utxo :: "utxo \<Rightarrow> ('n, unit) handler" where
  "operator_set_funding_utxo funding_utxo = Bridge_Database.set_funding_utxo funding_utxo"

section \<open>Withdrawals\<close>

text \<open>The subtraction of amounts and the \<open>unwrap\<close> of the fee panic.\<close>

definition is_profitable :: "operator \<Rightarrow> amount \<Rightarrow> amount \<Rightarrow> bool outcome" where
  "is_profitable self input_amount withdrawal_amount =
    (if withdrawal_amount - input_amount > cfg_bridge_amount_sats (operator_config self) then Ok False
     else
       attempt (amount_sub (cfg_bridge_amount_sats (operator_config self)) withdrawal_amount) (\<lambda>net_profit.
       attempt (unwrap (cfg_operator_withdrawal_fee_sats (operator_config self))) (\<lambda>fee.
       Ok (net_profit > fee))))"

text \<open>\<open>&response[a..b]\<close>, on a response of ASCII characters.\<close>

definition str_slice :: "string \<Rightarrow> nat \<Rightarrow> nat \<Rightarrow> string outcome" where
  "str_slice s a b = (if length s < b then Panic else Ok (take (b - a) (drop a s)))"

definition citrea_to :: string where
  "citrea_to = ''0x3100000000000000000000000000000000000002''"

definition withdrawal_call :: "'x script_lib_scheme \<Rightarrow> u32 \<Rightarrow> string" where
  "withdrawal_call L withdrawal_idx =
    ''0x471ba1e300000000000000000000000000000000000000000000000000000000'' @
    hex_encode L (u32_be withdrawal_idx)"

definition check_citrea_withdrawal ::
  "'x script_lib_scheme \<Rightarrow> 'n node_ops \<Rightarrow> u32 \<Rightarrow> utxo \<Rightarrow> ('n, unit) handler" where
  "check_citrea_withdrawal L N withdrawal_idx input_utxo =
    ask (request (eth_call N citrea_to (withdrawal_call L withdrawal_idx) (Some ''latest''))
      JsonRpcError) (\<lambda>response.
    ask (lift (str_slice response 2 66)) (\<lambda>txid_response.
    ask (lift (unwrap (hex_decode L txid_response))) (\<lambda>txid.
    ask (lift (assert_that (length txid = 32))) (\<lambda>_.
    lift (ensure (\<not> (txid \<noteq> op_txid (utxo_outpoint input_utxo) \<or> op_vout (utxo_outpoint input_utxo) \<noteq> 0))
      (InvalidInputUTXO txid (op_txid (utxo_outpoint input_utxo))))))))"

definition new_withdrawal_sig ::
  "'x sign_lib_scheme \<Rightarrow> 'n node_ops \<Rightarrow> operator \<Rightarrow> u32 \<Rightarrow> signature \<Rightarrow> utxo \<Rightarrow> txout \<Rightarrow> ('n, txid) handler" where
  "new_withdrawal_sig L N self withdrawal_idx user_sig input_utxo output_txout =
    ask (if operator_citrea_client self then check_citrea_withdrawal L N withdrawal_idx input_utxo
      else return ()) (\<lambda>_.
    ask (lift (is_profitable self (txout_value (utxo_txout input_utxo)) (txout_value output_txout)))
      (\<lambda>profitable.
    ask (lift (ensure profitable NotEnoughFeeForOperator)) (\<lambda>_.
    ask (lift (slice_2_34 (txout_script (utxo_txout input_utxo)))) (\<lambda>key_bytes.
    ask (lift (ok_or (xonly_from_slice L key_bytes) Secp256k1Error)) (\<lambda>user_xonly_pk.
    let tx_ins = create_tx_ins [utxo_outpoint input_utxo];
        tx_outs = [output_txout];
        tx = create_btc_tx tx_ins tx_outs in
    ask (lift (ok_or (key_spend_signature_hash L tx 0 (One_Prevout 0 (utxo_txout input_utxo))
        SinglePlusAnyoneCanPay) BitcoinSighashTaprootError)) (\<lambda>sighash.
    let tx = push_witness 0 [taproot_signature_serialize L user_sig SinglePlusAnyoneCanPay] tx in
    ask (lift (ensure (verify_schnorr L user_sig sighash user_xonly_pk) Secp256k1Error)) (\<lambda>_.
    ask (lift (push_bytes (usize_to_var_len_bytes (operator_idx self)))) (\<lambda>pushed.
    let tx = tx\<lparr>btc_output := btc_output tx @ [op_return_txout L pushed]\<rparr> in
    ask (fund_raw_transaction N tx) (\<lambda>funded_tx.
    ask (sign_raw_transaction_with_wallet N funded_tx) (\<lambda>signed.
    ask (lift (ok_or (deserialize_tx L signed) BitcoinConsensusEncodeError)) (\<lambda>signed_tx.
    send_raw_transaction N signed_tx)))))))))))"

section \<open>Reimbursement\<close>

definition filler_call :: "'x script_lib_scheme \<Rightarrow> u32 \<Rightarrow> string" where
  "filler_call L withdrawal_idx =
    ''0xc045577b00000000000000000000000000000000000000000000000000000000'' @
    hex_encode L (u32_be withdrawal_idx)"

definition deposit_call :: "'x script_lib_scheme \<Rightarrow> txid \<Rightarrow> string" where
  "deposit_call L move_txid = ''0x11e53a01'' @ hex_encode L move_txid"

text \<open>\<open>u32::from_be_bytes\<close> of the last four bytes of a 32-byte word in hexadecimal.\<close>

definition response_u32 :: "'x script_lib_scheme \<Rightarrow> string \<Rightarrow> u32 outcome" where
  "response_u32 L response =
    attempt (str_slice response 58 66) (\<lambda>digits.
    attempt (unwrap (hex_decode L digits)) (\<lambda>bs.
    attempt (assert_that (length bs = 4)) (\<lambda>_.
    Ok (word_of_nat (from_le (rev bs))))))"

definition check_citrea_filler ::
  "'x sign_lib_scheme \<Rightarrow> 'n node_ops \<Rightarrow> operator \<Rightarrow> u32 \<Rightarrow> outpoint \<Rightarrow> ('n, unit) handler" where
  "check_citrea_filler L N self withdrawal_idx deposit_outpoint =
    ask (request (eth_call N citrea_to (filler_call L withdrawal_idx) (Some ''latest'')) JsonRpcError)
      (\<lambda>response.
    ask (lift (response_u32 L response)) (\<lambda>operator_idx'.
    ask (lift (ensure (operator_idx' - 1 = ucast (operator_idx self))
        (InvalidOperatorIndex (unat operator_idx') (unat (operator_idx self))))) (\<lambda>_.
    ask (lift (create_move_tx L deposit_outpoint (operator_nofn_xonly_pk self)
        (cfg_bridge_amount_sats (operator_config self)) (cfg_network (operator_config self)))) (\<lambda>move_tx.
    let move_txid = compute_txid L move_tx in
    ask (request (eth_call N citrea_to (deposit_call L move_txid) None) JsonRpcError) (\<lambda>response.
    ask (lift (response_u32 L response)) (\<lambda>deposit_idx.
    lift (ensure (deposit_idx - 1 = withdrawal_idx)
      (InvalidDepositOutpointGiven (unat (ucast deposit_idx - 1 :: u64)) (unat withdrawal_idx)))))))))"

text \<open>
  The loop that walks back from the kickoff transaction to one the node knows, at most \<open>n\<close> rounds;
  it returns the transactions passed, in the order they were found, and whether it found one.
\<close>

fun search_generator_txs :: "'n node_ops \<Rightarrow> nat \<Rightarrow> txid \<Rightarrow> ('n, string list \<times> bool) handler" where
  "search_generator_txs N 0 txid = return ([], False)"
| "search_generator_txs N (Suc n) txid =
    ask (get_raw_transaction N txid) (\<lambda>found.
    if found \<noteq> None then return ([], True)
    else
      ask (get_deposit_kickoff_generator_tx txid) (\<lambda>qr.
      ask (lift (ok_or qr KickoffGeneratorTxNotFound)) (\<lambda>(raw_signed_tx, _, _, funding_txid).
      ask (search_generator_txs N n funding_txid) (\<lambda>(rest, found).
      return (raw_signed_tx # rest, found)))))"

text \<open>
  The two transactions with which an operator takes its money, each with the stored signature of the
  verifiers and its own.
\<close>

definition sign_slash_or_take ::
  "'x sign_lib_scheme \<Rightarrow> 'n node_ops \<Rightarrow> operator \<Rightarrow> outpoint \<Rightarrow> utxo \<Rightarrow> ('n, tx_handler \<times> utxo) handler" where
  "sign_slash_or_take L N self deposit_outpoint kickoff_utxo =
    (let config = operator_config self; signer = operator_signer self in
    ask (lift (create_slash_or_take_tx L deposit_outpoint kickoff_utxo (actor_xonly signer)
        (operator_idx self) (operator_nofn_xonly_pk self) (cfg_network config) (cfg_user_takes_after config)
        (cfg_operator_takes_after config) (cfg_bridge_amount_sats config))) (\<lambda>slash_or_take.
    ask (lift (item_at (btc_output (handler_tx slash_or_take)) 0)) (\<lambda>slash_or_take_txout.
    let slash_or_take_utxo = \<lparr>utxo_outpoint =
        \<lparr>op_txid = compute_txid L (handler_tx slash_or_take), op_vout = 0\<rparr>,
      utxo_txout = slash_or_take_txout\<rparr> in
    ask (get_slash_or_take_sig deposit_outpoint kickoff_utxo) (\<lambda>found.
    ask (lift (ok_or found OperatorSlashOrTakeSigNotFound)) (\<lambda>nofn_sig.
    ask (draw_aux N) (\<lambda>aux.
    ask (lift (sign_taproot_script_spend_tx L aux signer slash_or_take 0 0)) (\<lambda>our_sig.
    ask (lift (handle_taproot_witness_new L slash_or_take [our_sig, nofn_sig] 0 (Some 0)))
      (\<lambda>slash_or_take.
    return (slash_or_take, slash_or_take_utxo)))))))))"

definition sign_operator_takes ::
  "'x sign_lib_scheme \<Rightarrow> 'n node_ops \<Rightarrow> operator \<Rightarrow> outpoint \<Rightarrow> utxo \<Rightarrow> utxo \<Rightarrow> ('n, tx_handler) handler" where
  "sign_operator_takes L N self deposit_outpoint kickoff_utxo slash_or_take_utxo =
    (let config = operator_config self; signer = operator_signer self;
         nofn_xonly_pk = operator_nofn_xonly_pk self in
    ask (lift (create_move_tx L deposit_outpoint nofn_xonly_pk (cfg_bridge_amount_sats config)
        (cfg_network config))) (\<lambda>move_tx.
    let bridge_fund_outpoint = \<lparr>op_txid = compute_txid L move_tx, op_vout = 0\<rparr> in
    ask (lift (item_at (cfg_operator_wallet_addresses config) (unat (operator_idx self)))) (\<lambda>wallet.
    ask (lift (create_operator_takes_tx L bridge_fund_outpoint slash_or_take_utxo
        (actor_xonly signer) nofn_xonly_pk (cfg_network config) (cfg_operator_takes_after config)
        (cfg_bridge_amount_sats config) wallet)) (\<lambda>operator_takes.
    ask (get_operator_take_sig deposit_outpoint kickoff_utxo) (\<lambda>found.
    ask (lift (ok_or found OperatorTakesSigNotFound)) (\<lambda>operator_takes_nofn_sig.
    ask (draw_aux N) (\<lambda>aux.
    ask (lift (sign_taproot_script_spend_tx L aux signer operator_takes 1 0)) (\<lambda>our_sig.
    ask (lift (handle_taproot_witness_new L operator_takes [operator_takes_nofn_sig] 0 None))
      (\<lambda>operator_takes.
    lift (handle_taproot_witness_new L operator_takes [our_sig] 1 (Some 0)))))))))))"

definition withdrawal_proved_on_citrea ::
  "'x sign_lib_scheme \<Rightarrow> 'n node_ops \<Rightarrow> operator \<Rightarrow> u32 \<Rightarrow> outpoint \<Rightarrow> ('n, string list) handler" where
  "withdrawal_proved_on_citrea L N self withdrawal_idx deposit_outpoint =
    ask (if operator_citrea_client self
      then check_citrea_filler L N self withdrawal_idx deposit_outpoint else return ()) (\<lambda>_.
    ask (get_kickoff_utxo deposit_outpoint) (\<lambda>found.
    ask (lift (ok_or found KickoffOutpointsNotFound)) (\<lambda>kickoff_utxo.
    ask (search_generator_txs N 25 (op_txid (utxo_outpoint kickoff_utxo))) (\<lambda>(txs, found_txid).
    let txs_to_be_sent = rev txs in
    ask (lift (ensure found_txid KickoffGeneratorTxsTooManyIterations)) (\<lambda>_.
    ask (sign_slash_or_take L N self deposit_outpoint kickoff_utxo) (\<lambda>(slash_or_take, slash_or_take_utxo).
    let txs_to_be_sent = txs_to_be_sent @ [raw_hex L (handler_tx slash_or_take)] in
    ask (sign_operator_takes L N self deposit_outpoint kickoff_utxo slash_or_take_utxo) (\<lambda>operator_takes.
    return (txs_to_be_sent @ [raw_hex L (handler_tx operator_takes)]))))))))"

section \<open>Handlers that only read\<close>

lemma chain_functions_read [intro]:
  "moves (=) (check_citrea_withdrawal L N i u)" "moves (=) (check_citrea_filler L N self i k)"
  "moves (=) (fund_raw_transaction N tx)" "moves (=) (sign_raw_transaction_with_wallet N raw)"
  "moves (=) (send_raw_transaction N tx)" "moves (=) (get_raw_transaction N txid)" "moves (=) (draw_aux N)"
  unfolding check_citrea_withdrawal_def check_citrea_filler_def fund_raw_transaction_def
    sign_raw_transaction_with_wallet_def send_raw_transaction_def get_raw_transaction_def draw_aux_def Let_def
  by (intro same_db.moves_intros)+

lemma search_generator_txs_read [intro]: "moves (=) (search_generator_txs N n txid)"
  by (induction n arbitrary: txid) (auto intro!: same_db.moves_intros)

lemma withdrawals_read:
  "moves (=) (new_withdrawal_sig L N self i sig u out)"
  "moves (=) (withdrawal_proved_on_citrea L N self i k)"
  unfolding new_withdrawal_sig_def withdrawal_proved_on_citrea_def sign_slash_or_take_def
    sign_operator_takes_def Let_def
  by (intro same_db.moves_intros get_functions_read chain_functions_read search_generator_txs_read)+

section \<open>Assigning a kickoff output\<close>

lemma update_last_Some:
  "update_last p f rows = Some (row', rows') \<Longrightarrow>
    \<exists>i < length rows. p (rows ! i) \<and> row' = f (rows ! i) \<and> rows' = rows[i := f (rows ! i)] \<and>
      (\<forall>j < length rows. i < j \<longrightarrow> \<not> p (rows ! j))"
proof (induction rows arbitrary: row' rows')
  case (Cons row rows)
  show ?case
  proof (cases "update_last p f rows")
    case None
    then have "\<not> p r" if "r \<in> set rows" for r
      using that by (induction rows) (auto split: option.splits if_splits)
    with None Cons.prems show ?thesis
      by (intro exI [of _ 0]) (auto simp: nth_Cons' split: if_splits)
  next
    case (Some x)
    then obtain r rs where x: "update_last p f rows = Some (r, rs)"
      by (cases x) auto
    from Cons.IH [OF x] obtain i where "i < length rows" "p (rows ! i)" "r = f (rows ! i)"
      "rs = rows[i := f (rows ! i)]" "\<forall>j < length rows. i < j \<longrightarrow> \<not> p (rows ! j)"
      by blast
    with x Cons.prems show ?thesis
      by (intro exI [of _ "Suc i"]) (auto simp: nth_Cons' split: if_splits)
  qed
qed simp

lemma update_last_None: "update_last p f rows = None \<longleftrightarrow> (\<forall>row \<in> set rows. \<not> p row)"
  by (induction rows) (auto split: option.splits)

text \<open>The three ways a kickoff output is found, with their effect on the tables.\<close>

definition next_unused :: "generator_row \<Rightarrow> generator_row" where
  "next_unused row = row\<lparr>gen_cur_unused := gen_cur_unused row + 1\<rparr>"

definition takes_unused :: "'x script_lib_scheme \<Rightarrow> outpoint \<Rightarrow> utxo \<Rightarrow> database \<Rightarrow> database \<Rightarrow> bool" where
  "takes_unused L k u d d' \<longleftrightarrow> (\<exists>i raw tx.
    let rows = deposit_kickoff_generator_txs d; row = rows ! i; cur = gen_cur_unused row + 1 in
    i < length rows \<and> has_unused row \<and>
    hex_decode L (gen_raw_signed_tx row) = Some raw \<and> deserialize_tx L raw = Some tx \<and>
    u = \<lparr>utxo_outpoint = \<lparr>op_txid = gen_txid row, op_vout = word_of_int cur - 1\<rparr>,
      utxo_txout = btc_output tx ! unat (word_of_int cur - 1 :: u64)\<rparr> \<and>
    unat (word_of_int cur - 1 :: u64) < length (btc_output tx) \<and>
    d' = d\<lparr>deposit_kickoff_generator_txs := rows[i := next_unused row],
      operators_kickoff_utxo := operators_kickoff_utxo d @ [(k, u)]\<rparr>)"

text \<open>The signed transaction with new kickoff outputs, and the row that records it.\<close>

definition signed_kickoff_tx :: "'x sign_lib_scheme \<Rightarrow> operator \<Rightarrow> utxo \<Rightarrow> tx_handler \<Rightarrow> bool" where
  "signed_kickoff_tx L self funding h \<longleftrightarrow> (\<exists>unsigned aux sig.
    create_kickoff_utxo_tx L funding (operator_nofn_xonly_pk self) (actor_xonly (operator_signer self))
      (cfg_network (operator_config self))
      (cfg_operator_num_kickoff_utxos_per_tx (operator_config self)) = Ok unsigned \<and>
    sign_taproot_pubkey_spend L aux (operator_signer self) unsigned 0 None = Ok sig \<and>
    handle_taproot_witness_new L unsigned [sig] 0 None = Ok h)"

definition generator_row_of :: "'x script_lib_scheme \<Rightarrow> u64 \<Rightarrow> utxo \<Rightarrow> btc_tx \<Rightarrow> generator_row" where
  "generator_row_of L num funding tx =
    \<lparr>gen_txid = compute_txid L tx, gen_raw_signed_tx = raw_hex L tx,
     gen_num_kickoffs = i32_of_usize num, gen_cur_unused = 1,
     gen_funding_txid = op_txid (utxo_outpoint funding)\<rparr>"

definition output_utxo :: "'x script_lib_scheme \<Rightarrow> btc_tx \<Rightarrow> u64 \<Rightarrow> utxo" where
  "output_utxo L tx i = \<lparr>utxo_outpoint = \<lparr>op_txid = compute_txid L tx, op_vout = ucast i\<rparr>,
     utxo_txout = btc_output tx ! unat i\<rparr>"

definition makes_generator ::
  "'x sign_lib_scheme \<Rightarrow> operator \<Rightarrow> outpoint \<Rightarrow> utxo \<Rightarrow> database \<Rightarrow> database \<Rightarrow> bool" where
  "makes_generator L self k u d d' \<longleftrightarrow>
    (let num = cfg_operator_num_kickoff_utxos_per_tx (operator_config self);
         funding = last (funding_utxos d) in
    funding_utxos d \<noteq> [] \<and> 1 \<le> i32_of_usize num \<and>
    (\<exists>h. signed_kickoff_tx L self funding h \<and> unat num < length (btc_output (handler_tx h)) \<and>
      u = output_utxo L (handler_tx h) 0 \<and>
      compute_txid L (handler_tx h) \<notin> gen_txid ` set (deposit_kickoff_generator_txs d) \<and>
      d' = d\<lparr>operators_kickoff_utxo := operators_kickoff_utxo d @ [(k, u)],
        deposit_kickoff_generator_txs := deposit_kickoff_generator_txs d @
          [generator_row_of L num funding (handler_tx h)],
        funding_utxos := funding_utxos d @ [output_utxo L (handler_tx h) num]\<rparr>))"

lemma get_funding_utxo_eq_Ok:
  assumes "get_funding_utxo w = (Ok r, w')"
  shows "r = (if funding_utxos (world_db w) = [] then None else Some (last (funding_utxos (world_db w)))) \<and>
    world_db w' = world_db w"
proof -
  from assms obtain result where r: "run_sql sql_get_funding_utxo w = (Ok result, w')"
    "result = Inl Row_Not_Found \<and> r = None \<or> (\<exists>a. result = Inr a \<and> r = Some a)"
    by (auto simp: get_funding_utxo_def ask_eq_Ok optional_row_eq_Ok)
  from run_sql_eq_Ok [OF r(1)] r(2) show ?thesis
    by (auto simp: sql_get_funding_utxo_def split: if_splits)
qed

lemma save_kickoff_utxo_eq_Ok:
  assumes "save_kickoff_utxo k u w = (Ok x, w')"
  shows "kickoff_of (world_db w) k = None \<and>
    world_db w' = world_db w\<lparr>operators_kickoff_utxo := operators_kickoff_utxo (world_db w) @ [(k, u)]\<rparr>"
  using query_eq_Ok [OF assms [unfolded save_kickoff_utxo_def]]
  by (auto simp: sql_save_kickoff_utxo_def kickoff_of_def map_of_eq_None_iff split: if_splits)

lemma unused_kickoff_result_Inl:
  "unused_kickoff_result L (Inl e) w = (Ok r, w') \<longleftrightarrow>
    w' = w \<and> r = None \<and> (e = Row_Not_Found \<or> e = Check_Violation)"
  by (auto simp: unused_kickoff_result_def)

lemma unused_kickoff_result_Inr:
  "unused_kickoff_result L (Inr (txid, hex, cur)) w = (Ok r, w') \<longleftrightarrow>
    w' = w \<and> (\<exists>raw tx. hex_decode L hex = Some raw \<and> deserialize_tx L raw = Some tx \<and>
      unat (word_of_int cur - 1 :: u64) < length (btc_output tx) \<and>
      r = Some \<lparr>utxo_outpoint = \<lparr>op_txid = txid, op_vout = word_of_int cur - 1\<rparr>,
        utxo_txout = btc_output tx ! unat (word_of_int cur - 1 :: u64)\<rparr>)"
  unfolding unused_kickoff_result_def by (auto simp: Let_def)

lemma get_unused_None:
  assumes "get_unused_kickoff_utxo_and_increase_idx L w = (Ok None, w')"
  shows "world_db w' = world_db w"
proof -
  from assms obtain result w1 where r: "run_sql sql_increase_unused w = (Ok result, w1)"
    and c: "unused_kickoff_result L result w1 = (Ok None, w')"
    by (auto simp: get_unused_kickoff_utxo_and_increase_idx_def ask_eq_Ok)
  from c have "w1 = w'" and e: "result = Inl Row_Not_Found \<or> result = Inl Check_Violation"
    by (cases result; auto simp: unused_kickoff_result_Inl unused_kickoff_result_Inr split_paired_all)+
  from run_sql_eq_Ok [OF r] e \<open>w1 = w'\<close> show ?thesis
    by (auto simp: sql_increase_unused_def split: option.splits if_splits prod.splits)
qed

lemma get_unused_Some:
  assumes "get_unused_kickoff_utxo_and_increase_idx L w = (Ok (Some u), w')"
  obtains i raw tx where "i < length (deposit_kickoff_generator_txs (world_db w))"
    "has_unused (deposit_kickoff_generator_txs (world_db w) ! i)"
    "hex_decode L (gen_raw_signed_tx (deposit_kickoff_generator_txs (world_db w) ! i)) = Some raw"
    "deserialize_tx L raw = Some tx"
    "u = \<lparr>utxo_outpoint = \<lparr>op_txid = gen_txid (deposit_kickoff_generator_txs (world_db w) ! i),
        op_vout = word_of_int (gen_cur_unused (deposit_kickoff_generator_txs (world_db w) ! i) + 1) - 1\<rparr>,
      utxo_txout = btc_output tx ! unat (word_of_int (gen_cur_unused (deposit_kickoff_generator_txs (world_db w) ! i) + 1) - 1 :: u64)\<rparr>"
    "unat (word_of_int (gen_cur_unused (deposit_kickoff_generator_txs (world_db w) ! i) + 1) - 1 :: u64) < length (btc_output tx)"
    "world_db w' = world_db w\<lparr>deposit_kickoff_generator_txs := (deposit_kickoff_generator_txs (world_db w))
      [i := next_unused (deposit_kickoff_generator_txs (world_db w) ! i)]\<rparr>"
proof -
  from assms obtain result w1 where r1: "run_sql sql_increase_unused w = (Ok result, w1)"
    and c: "unused_kickoff_result L result w1 = (Ok (Some u), w')"
    by (auto simp: get_unused_kickoff_utxo_and_increase_idx_def ask_eq_Ok)
  from c obtain txid hex cur where res: "result = Inr (txid, hex, cur)"
    by (cases result) (auto simp: unused_kickoff_result_Inl)
  with r1 c have r: "run_sql sql_increase_unused w = (Ok (Inr (txid, hex, cur)), w')"
    by (simp add: unused_kickoff_result_Inr)
  from c res obtain raw tx where u: "hex_decode L hex = Some raw" "deserialize_tx L raw = Some tx"
      "unat (word_of_int cur - 1 :: u64) < length (btc_output tx)"
      "u = \<lparr>utxo_outpoint = \<lparr>op_txid = txid, op_vout = word_of_int cur - 1\<rparr>,
        utxo_txout = btc_output tx ! unat (word_of_int cur - 1 :: u64)\<rparr>"
    by (auto simp: unused_kickoff_result_Inr)
  from run_sql_eq_Ok [OF r] obtain row rows where up:
      "update_last has_unused next_unused (deposit_kickoff_generator_txs (world_db w)) = Some (row, rows)"
    and res: "txid = gen_txid row" "hex = gen_raw_signed_tx row" "cur = gen_cur_unused row"
      "world_db w' = world_db w\<lparr>deposit_kickoff_generator_txs := rows\<rparr>"
    unfolding next_unused_def [abs_def]
    by (auto simp: sql_increase_unused_def split: option.splits if_splits prod.splits)
  from update_last_Some [OF up] obtain i where "i < length (deposit_kickoff_generator_txs (world_db w))"
    "has_unused (deposit_kickoff_generator_txs (world_db w) ! i)"
    "row = next_unused (deposit_kickoff_generator_txs (world_db w) ! i)"
    "rows = (deposit_kickoff_generator_txs (world_db w))[i := next_unused (deposit_kickoff_generator_txs (world_db w) ! i)]"
    by blast
  with res u show ?thesis
    by (intro that [of i raw tx]) (simp_all add: next_unused_def)
qed

lemma add_generator_tx_eq_Ok:
  assumes "add_deposit_kickoff_generator_tx txid raw num funding w = (Ok x, w')"
  shows "1 \<le> i32_of_usize num \<and> txid \<notin> gen_txid ` set (deposit_kickoff_generator_txs (world_db w)) \<and>
    world_db w' = world_db w\<lparr>deposit_kickoff_generator_txs := deposit_kickoff_generator_txs (world_db w) @
      [\<lparr>gen_txid = txid, gen_raw_signed_tx = raw, gen_num_kickoffs = i32_of_usize num,
        gen_cur_unused = 1, gen_funding_txid = funding\<rparr>]\<rparr>"
  using query_eq_Ok [OF assms [unfolded add_deposit_kickoff_generator_tx_def]]
  by (auto simp: sql_add_generator_tx_def split: if_splits)

lemma set_funding_utxo_eq_Ok:
  assumes "Bridge_Database.set_funding_utxo u w = (Ok x, w')"
  shows "world_db w' = world_db w\<lparr>funding_utxos := funding_utxos (world_db w) @ [u]\<rparr>"
  using query_eq_Ok [OF assms [unfolded set_funding_utxo_def]]
  by (auto simp: sql_set_funding_utxo_def)

lemma create_kickoffs_eq_Ok:
  assumes "create_kickoffs L N self k w = (Ok u, w')"
  shows "kickoff_of (world_db w) k = None \<and> makes_generator L self k u (world_db w) (world_db w')"
proof -
  let ?num = "cfg_operator_num_kickoff_utxos_per_tx (operator_config self)"
  from assms obtain w1 funding unsigned aux w0 sig h w2 w3 where
      1: "get_funding_utxo w = (Ok (Some funding), w1)"
    and 2: "create_kickoff_utxo_tx L funding (operator_nofn_xonly_pk self)
        (actor_xonly (operator_signer self)) (cfg_network (operator_config self)) ?num = Ok unsigned"
      "draw_aux N w1 = (Ok aux, w0)" "sign_taproot_pubkey_spend L aux (operator_signer self) unsigned 0 None = Ok sig"
      "handle_taproot_witness_new L unsigned [sig] 0 None = Ok h"
      "unat ?num < length (btc_output (handler_tx h))"
    and u: "u = \<lparr>utxo_outpoint = \<lparr>op_txid = compute_txid L (handler_tx h), op_vout = 0\<rparr>,
        utxo_txout = btc_output (handler_tx h) ! 0\<rparr>"
    and 3: "save_kickoff_utxo k u w0 = (Ok (), w2)"
      "add_deposit_kickoff_generator_tx (compute_txid L (handler_tx h)) (raw_hex L (handler_tx h)) ?num
        (op_txid (utxo_outpoint funding)) w2 = (Ok (), w3)"
      "Bridge_Database.set_funding_utxo \<lparr>utxo_outpoint =
          \<lparr>op_txid = compute_txid L (handler_tx h), op_vout = ucast ?num\<rparr>,
        utxo_txout = btc_output (handler_tx h) ! unat ?num\<rparr> w3 = (Ok (), w')"
    unfolding create_kickoffs_def Let_def by (auto simp: ask_eq_Ok)
  from 2 have "signed_kickoff_tx L self funding h"
    by (auto simp: signed_kickoff_tx_def)
  moreover have "u = output_utxo L (handler_tx h) 0"
    by (simp add: u output_utxo_def)
  moreover have "funding_utxos (world_db w) \<noteq> []" "funding = last (funding_utxos (world_db w))"
      "world_db w0 = world_db w"
    using get_funding_utxo_eq_Ok [OF 1] same_db.moves_ok [OF chain_functions_read(7) 2(2)] by (auto split: if_splits)
  moreover note save_kickoff_utxo_eq_Ok [OF 3(1)] add_generator_tx_eq_Ok [OF 3(2)] set_funding_utxo_eq_Ok [OF 3(3)]
  ultimately show ?thesis
    using 2(5) unfolding makes_generator_def Let_def
    by (auto simp: output_utxo_def generator_row_of_def intro!: exI [of _ h])
qed

lemma assign_kickoff_cases:
  assumes "assign_kickoff L N self k w = (Ok u, w')"
  obtains (old) "kickoff_of (world_db w) k = Some u" "world_db w' = world_db w"
    | (unused) "kickoff_of (world_db w) k = None" "takes_unused L k u (world_db w) (world_db w')"
    | (fresh) "kickoff_of (world_db w) k = None" "makes_generator L self k u (world_db w) (world_db w')"
proof -
  from assms obtain w1 found w2 where 1: "lock_operators_kickoff_utxo_table w = (Ok (), w1)"
      "get_kickoff_utxo k w1 = (Ok found, w2)"
    and rest: "(case found of Some u \<Rightarrow> return u
      | None \<Rightarrow> ask (get_unused_kickoff_utxo_and_increase_idx L) (\<lambda>unused. case unused of
          Some u \<Rightarrow> ask (save_kickoff_utxo k u) (\<lambda>_. return u)
        | None \<Rightarrow> create_kickoffs L N self k)) w2 = (Ok u, w')"
    by (auto simp: assign_kickoff_def ask_eq_Ok)
  have db: "world_db w1 = world_db w" "world_db w2 = world_db w" "found = kickoff_of (world_db w) k"
    using same_db.moves_ok [OF get_functions_read(9) 1(1)] get_kickoff_utxo_eq_Ok [OF 1(2)] by auto
  show ?thesis
  proof (cases found)
    case (Some v)
    with rest have "v = u" "w2 = w'"
      by simp_all
    with db Some show ?thesis
      by (intro old) simp_all
  next
    case None
    with rest obtain unused w3 where g: "get_unused_kickoff_utxo_and_increase_idx L w2 = (Ok unused, w3)"
      and s: "(case unused of Some u \<Rightarrow> ask (save_kickoff_utxo k u) (\<lambda>_. return u)
        | None \<Rightarrow> create_kickoffs L N self k) w3 = (Ok u, w')"
      by (auto simp: ask_eq_Ok)
    show ?thesis
    proof (cases unused)
      case None
      with s g db show ?thesis
        using create_kickoffs_eq_Ok [of L N self k w3 u w'] get_unused_None [of L w2 w3]
        by (intro fresh) auto
    next
      case (Some v)
      with s have sv: "save_kickoff_utxo k u w3 = (Ok (), w')" and "v = u"
        by (auto simp: ask_eq_Ok)
      from g Some \<open>v = u\<close> have g: "get_unused_kickoff_utxo_and_increase_idx L w2 = (Ok (Some u), w3)"
        by simp
      show ?thesis
        by (rule get_unused_Some [OF g], rule unused)
          (use save_kickoff_utxo_eq_Ok [OF sv] db in \<open>auto simp: takes_unused_def Let_def kickoff_of_def\<close>)
    qed
  qed
qed

section \<open>The invariant of an operator's tables\<close>

text \<open>
  The counter of a generator transaction stays between 1 and the number of its outputs; an assigned
  output belongs to a generator transaction and lies below its counter; deposits and assigned
  outputs are in one-to-one correspondence.
\<close>

definition generators_ok :: "generator_row list \<Rightarrow> bool" where
  "generators_ok rows \<longleftrightarrow> distinct (List.map gen_txid rows) \<and>
    (\<forall>row \<in> set rows. 1 \<le> gen_cur_unused row \<and> gen_cur_unused row \<le> gen_num_kickoffs row \<and>
      gen_num_kickoffs row < 2 ^ 31)"

definition below_counter :: "generator_row list \<Rightarrow> utxo \<Rightarrow> bool" where
  "below_counter rows u \<longleftrightarrow> (\<exists>row \<in> set rows. gen_txid row = op_txid (utxo_outpoint u) \<and>
    uint (op_vout (utxo_outpoint u)) < gen_cur_unused row)"

definition operator_inv :: "database \<Rightarrow> bool" where
  "operator_inv d \<longleftrightarrow> generators_ok (deposit_kickoff_generator_txs d) \<and>
    (\<forall>u \<in> snd ` set (operators_kickoff_utxo d). below_counter (deposit_kickoff_generator_txs d) u) \<and>
    distinct (List.map (utxo_outpoint \<circ> snd) (operators_kickoff_utxo d)) \<and>
    distinct (List.map fst (operators_kickoff_utxo d))"

lemma operator_inv_empty: "operator_inv empty_database"
  by (simp add: operator_inv_def empty_database_def generators_ok_def)

lemma operator_inv_same:
  assumes "operator_inv d" "deposit_kickoff_generator_txs d' = deposit_kickoff_generator_txs d"
    "operators_kickoff_utxo d' = operators_kickoff_utxo d"
  shows "operator_inv d'"
  using assms by (simp add: operator_inv_def)

lemma i32_of_usize_less: "i32_of_usize x < 2 ^ 31"
  using sint_lt [of "ucast x :: i32"] by (simp add: i32_of_usize_def)

lemma unused_index:
  assumes "1 \<le> c" "c < 2 ^ 31"
  shows "uint (word_of_int (c + 1) - 1 :: u32) = c" "unat (word_of_int (c + 1) - 1 :: u64) = nat c"
proof -
  have 1: "(word_of_int (c + 1) - 1 :: 'a::len word) = word_of_int c"
    by simp
  show "uint (word_of_int (c + 1) - 1 :: u32) = c"
    using assms unfolding 1 by (simp add: word_of_int_inverse unsigned_of_int take_bit_int_eq_self)
  show "unat (word_of_int (c + 1) - 1 :: u64) = nat c"
    using assms unfolding 1 nat_uint_eq [symmetric] by (simp add: unsigned_of_int take_bit_int_eq_self)
qed

lemma takes_unused_inv:
  assumes inv: "operator_inv d" and k: "kickoff_of d k = None" and t: "takes_unused L k u d d'"
  shows "operator_inv d'"
proof -
  let ?rows = "deposit_kickoff_generator_txs d"
  from t obtain i where i: "i < length ?rows" "has_unused (?rows ! i)"
    and u: "utxo_outpoint u = \<lparr>op_txid = gen_txid (?rows ! i),
      op_vout = word_of_int (gen_cur_unused (?rows ! i) + 1) - 1\<rparr>"
    and d': "d' = d\<lparr>deposit_kickoff_generator_txs := ?rows[i := next_unused (?rows ! i)],
      operators_kickoff_utxo := operators_kickoff_utxo d @ [(k, u)]\<rparr>"
    unfolding takes_unused_def Let_def by auto
  let ?row = "?rows ! i" and ?rows' = "?rows[i := next_unused (?rows ! i)]"
  from inv have g: "generators_ok ?rows" and b: "\<And>v. v \<in> snd ` set (operators_kickoff_utxo d) \<Longrightarrow> below_counter ?rows v"
    by (auto simp: operator_inv_def)
  have row: "1 \<le> gen_cur_unused ?row" "gen_cur_unused ?row < gen_num_kickoffs ?row" "gen_num_kickoffs ?row < 2 ^ 31"
    using g i unfolding generators_ok_def has_unused_def by (auto simp: nth_mem)
  then have vout: "uint (op_vout (utxo_outpoint u)) = gen_cur_unused ?row"
    unfolding u by (simp add: unused_index [simplified])
  have txids: "List.map gen_txid ?rows' = List.map gen_txid ?rows"
    using i by (intro nth_equalityI) (auto simp: nth_list_update next_unused_def)
  have "generators_ok ?rows'"
    using g row unfolding generators_ok_def txids
    by (auto simp: next_unused_def dest!: subsetD [OF set_update_subset_insert])
  moreover have below: "below_counter ?rows' v" if "below_counter ?rows v" for v
  proof -
    from that obtain j where "j < length ?rows" "gen_txid (?rows ! j) = op_txid (utxo_outpoint v)"
      "uint (op_vout (utxo_outpoint v)) < gen_cur_unused (?rows ! j)"
      unfolding below_counter_def by (auto simp: in_set_conv_nth)
    moreover from this have "?rows' ! j \<in> set ?rows'"
      by (intro nth_mem) simp
    ultimately show ?thesis
      unfolding below_counter_def using i
      by (intro bexI [of _ "?rows' ! j"]) (simp_all add: nth_list_update next_unused_def)
  qed
  moreover have "below_counter ?rows' u"
    unfolding below_counter_def using i u vout
    by (intro bexI [of _ "next_unused ?row"]) (auto simp: next_unused_def set_update_memI)
  moreover have "utxo_outpoint u \<noteq> utxo_outpoint v" if "v \<in> snd ` set (operators_kickoff_utxo d)" for v
  proof
    assume eq: "utxo_outpoint u = utxo_outpoint v"
    with b [OF that] u obtain row where "row \<in> set ?rows" "gen_txid row = gen_txid ?row"
      "gen_cur_unused ?row < gen_cur_unused row"
      unfolding below_counter_def eq [symmetric] vout by auto
    moreover have "inj_on gen_txid (set ?rows)"
      using g by (simp add: generators_ok_def distinct_map)
    ultimately have "row = ?row"
      using i by (auto dest: inj_onD)
    with \<open>gen_cur_unused ?row < gen_cur_unused row\<close> show False
      by simp
  qed
  ultimately show ?thesis
    using inv k unfolding operator_inv_def d'
    by (auto simp: kickoff_of_def map_of_eq_None_iff image_iff)
qed

lemma makes_generator_inv:
  assumes inv: "operator_inv d" and k: "kickoff_of d k = None" and m: "makes_generator L self k u d d'"
  shows "operator_inv d'"
proof -
  let ?rows = "deposit_kickoff_generator_txs d"
  let ?num = "cfg_operator_num_kickoff_utxos_per_tx (operator_config self)"
  from m obtain h :: tx_handler where u: "u = output_utxo L (handler_tx h) 0"
    and fresh: "compute_txid L (handler_tx h) \<notin> gen_txid ` set ?rows" and num: "1 \<le> i32_of_usize ?num"
    and d': "d' = d\<lparr>operators_kickoff_utxo := operators_kickoff_utxo d @ [(k, u)],
      deposit_kickoff_generator_txs := ?rows @ [generator_row_of L ?num (last (funding_utxos d)) (handler_tx h)],
      funding_utxos := funding_utxos d @ [output_utxo L (handler_tx h) ?num]\<rparr>"
    unfolding makes_generator_def Let_def by blast
  define row where "row = generator_row_of L ?num (last (funding_utxos d)) (handler_tx h)"
  have row: "gen_txid row \<notin> gen_txid ` set ?rows" "gen_cur_unused row = 1" "1 \<le> gen_num_kickoffs row"
      "gen_num_kickoffs row < 2 ^ 31" "utxo_outpoint u = \<lparr>op_txid = gen_txid row, op_vout = 0\<rparr>"
    using fresh num i32_of_usize_less by (simp_all add: row_def generator_row_of_def u output_utxo_def)
  from inv have g: "generators_ok ?rows"
    and b: "\<And>v. v \<in> snd ` set (operators_kickoff_utxo d) \<Longrightarrow> below_counter ?rows v"
    by (auto simp: operator_inv_def)
  have "generators_ok (?rows @ [row])"
    using g row by (auto simp: generators_ok_def)
  moreover have "below_counter (?rows @ [row]) v" if "below_counter ?rows v" for v
    using that by (auto simp: below_counter_def)
  moreover have "below_counter (?rows @ [row]) u"
    using row by (simp add: below_counter_def)
  moreover have "utxo_outpoint u \<noteq> utxo_outpoint v" if "v \<in> snd ` set (operators_kickoff_utxo d)" for v
    using b [OF that] row(1,5) unfolding below_counter_def
    by (metis imageI outpoint.select_convs(1))
  ultimately show ?thesis
    using inv k unfolding operator_inv_def d' row_def [symmetric]
    by (auto simp: kickoff_of_def map_of_eq_None_iff image_iff)
qed

text \<open>What the assignment of an output does to the tables, on the whole handler.\<close>

definition assigned ::
  "'x sign_lib_scheme \<Rightarrow> operator \<Rightarrow> outpoint \<Rightarrow> utxo \<Rightarrow> database \<Rightarrow> database \<Rightarrow> bool" where
  "assigned L self k u d d' \<longleftrightarrow>
    (if kickoff_of d k = None then takes_unused L k u d d' \<or> makes_generator L self k u d d'
     else kickoff_of d k = Some u \<and> d' = d)"

lemma assign_kickoff_assigned:
  "assign_kickoff L N self k w = (Ok u, w') \<Longrightarrow> assigned L self k u (world_db w) (world_db w')"
  by (erule assign_kickoff_cases) (auto simp: assigned_def)

lemma operator_new_deposit_Ok:
  assumes "operator_new_deposit L N self k recovery evm w = (Ok (u, sig), w')"
  shows "assigned L self k u (world_db w) (world_db w') \<and>
    (\<exists>aux. sig = sign L aux (operator_signer self) (kickoff_sig_hash L k (utxo_outpoint u)))"
proof -
  from assms obtain w1 w2 aux where
    c: "check_deposit_utxo L N (operator_nofn_xonly_pk self) k recovery evm
      (cfg_bridge_amount_sats (operator_config self)) (cfg_confirmation_threshold (operator_config self))
      (cfg_network (operator_config self)) (cfg_user_takes_after (operator_config self)) w = (Ok (), w1)"
    and a: "in_dbtx (assign_kickoff L N self k) w1 = (Ok u, w2)"
    and draw: "draw_aux N w2 = (Ok aux, w')" and sig: "sig = sign L aux (operator_signer self) (kickoff_sig_hash L k (utxo_outpoint u))"
    by (auto simp: operator_new_deposit_def ask_eq_Ok Let_def)
  have db: "world_db w1 = world_db w"
    using same_db.moves_ok [OF check_deposit_utxo_read c] by simp
  from a show ?thesis
  proof (rule in_dbtx_eq_Ok)
    fix v v' assume "world_db v = world_db w1" "assign_kickoff L N self k v = (Ok u, v')"
      "world_db w2 = world_db v'"
    then show ?thesis
      using assign_kickoff_assigned [of L N self k v u v'] same_db.moves_ok [OF chain_functions_read(7) draw] db sig
      by auto
  qed
qed

lemma operator_new_deposit_effect:
  assumes "operator_new_deposit L N self k recovery evm w = (r, w')"
  shows "world_db w' = world_db w \<or> (\<exists>u. assigned L self k u (world_db w) (world_db w'))"
proof -
  have tx: "world_db v' = world_db v \<or> (\<exists>u. assigned L self k u (world_db v) (world_db v'))"
    if "in_dbtx (assign_kickoff L N self k) v = (x, v')" for v v' x
    using that by (cases rule: in_dbtx_cases) (metis assign_kickoff_assigned)+
  from assms show ?thesis
    unfolding operator_new_deposit_def
  proof (cases rule: ask_cases)
    case (ok a w1)
    then have db: "world_db w1 = world_db w"
      using same_db.moves_ok [OF check_deposit_utxo_read] by metis
    from ok(2) obtain x w2 where "in_dbtx (assign_kickoff L N self k) w1 = (x, w2)" "world_db w' = world_db w2"
      by (cases rule: ask_cases)
        (auto simp: draw_aux_def call_def Let_def ask_def lift_def split: prod.splits)
    with tx db show ?thesis
      by metis
  qed (metis same_db.moves_ok [OF check_deposit_utxo_read])+
qed

lemma assigned_inv: "operator_inv d \<Longrightarrow> assigned L self k u d d' \<Longrightarrow> operator_inv d'"
  by (auto simp: assigned_def dest: takes_unused_inv makes_generator_inv split: if_splits)

section \<open>Runs of an operator\<close>

text \<open>
  The operator serves requests with any arguments in any order and may be restarted; between two
  requests the outside may change and database messages may be lost.
\<close>

inductive operator_step ::
  "'x lib_scheme \<Rightarrow> 'n node_ops \<Rightarrow> operator \<Rightarrow> (database, 'n) world \<Rightarrow> (database, 'n) world \<Rightarrow> bool"
  for L N self where
  new_deposit: "operator_new_deposit L N self k recovery evm w = (r, w') \<Longrightarrow> operator_step L N self w w'"
| set_funding: "operator_set_funding_utxo u w = (r, w') \<Longrightarrow> operator_step L N self w w'"
| withdrawal: "new_withdrawal_sig L N self i sig u out w = (r, w') \<Longrightarrow> operator_step L N self w w'"
| proved: "withdrawal_proved_on_citrea L N self i k w = (r, w') \<Longrightarrow> operator_step L N self w w'"
| restart: "operator_new L N (operator_config self) w = (r, w') \<Longrightarrow> operator_step L N self w w'"
| outside: "world_db w' = world_db w \<Longrightarrow> operator_step L N self w w'"

abbreviation operator_run ::
  "'x lib_scheme \<Rightarrow> 'n node_ops \<Rightarrow> operator \<Rightarrow> (database, 'n) world \<Rightarrow> (database, 'n) world \<Rightarrow> bool" where
  "operator_run L N self \<equiv> (operator_step L N self)\<^sup>*\<^sup>*"

definition only_funding :: "database \<Rightarrow> database \<Rightarrow> bool" where
  "only_funding d d' \<longleftrightarrow> d'\<lparr>funding_utxos := []\<rparr> = d\<lparr>funding_utxos := []\<rparr>"

interpretation funding_order: db_order only_funding
  by unfold_locales (auto simp: only_funding_def)

lemma set_funding_moves: "moves only_funding (Bridge_Database.set_funding_utxo u)"
  unfolding set_funding_utxo_def
  by (intro funding_order.moves_intros) (simp add: sql_set_funding_utxo_def only_funding_def)

lemma read_moves: "moves (=) m \<Longrightarrow> moves only_funding m"
  unfolding moves_def only_funding_def by metis

lemma operator_new_moves: "moves only_funding (operator_new L N config)"
  unfolding operator_new_def Let_def database_new_def
  by (intro funding_order.moves_intros set_funding_moves read_moves get_functions_read chain_rpc_read)
    (simp add: only_funding_def)

text \<open>A step assigns an output, or changes at most the funding outputs.\<close>

lemma operator_step_effect:
  assumes "operator_step L N self w w'"
  shows "only_funding (world_db w) (world_db w') \<or>
    (\<exists>k u. assigned L self k u (world_db w) (world_db w'))"
  using assms
proof cases
  case (new_deposit k recovery evm r)
  then show ?thesis
    using operator_new_deposit_effect funding_order.refl by metis
next
  case (set_funding u r)
  then show ?thesis
    using funding_order.moves_ok [OF set_funding_moves] unfolding operator_set_funding_utxo_def by blast
next
  case (restart r)
  then show ?thesis
    using funding_order.moves_ok [OF operator_new_moves] by blast
qed (metis same_db.moves_ok [OF withdrawals_read(1)] same_db.moves_ok [OF withdrawals_read(2)]
    funding_order.refl)+

lemma only_funding_tables:
  "only_funding d d' \<Longrightarrow> deposit_kickoff_generator_txs d' = deposit_kickoff_generator_txs d \<and>
    operators_kickoff_utxo d' = operators_kickoff_utxo d \<and>
    deposit_kickoff_utxos d' = deposit_kickoff_utxos d \<and> kickoff_of d' = kickoff_of d"
  by (cases d; cases d') (simp add: only_funding_def kickoff_of_def)

lemma operator_step_inv:
  "operator_step L N self w w' \<Longrightarrow> operator_inv (world_db w) \<Longrightarrow> operator_inv (world_db w')"
  by (drule operator_step_effect) (metis assigned_inv operator_inv_same only_funding_tables)

lemma operator_run_inv:
  "operator_run L N self w w' \<Longrightarrow> operator_inv (world_db w) \<Longrightarrow> operator_inv (world_db w')"
  by (induction rule: rtranclp_induct) (auto dest: operator_step_inv)

lemma assigned_kept: "assigned L self k u d d' \<Longrightarrow> kickoff_table.kept d d' \<and> kickoff_of d' k = Some u"
proof -
  assume a: "assigned L self k u d d'"
  show ?thesis
  proof (cases "kickoff_of d k")
    case None
    with a have "operators_kickoff_utxo d' = operators_kickoff_utxo d @ [(k, u)]"
      by (auto simp: assigned_def takes_unused_def makes_generator_def Let_def)
    with None have "kickoff_of d' = (kickoff_of d)(k \<mapsto> u)"
      by (simp add: kickoff_of_def map_of_eq_None_iff map_of_snoc)
    with None show ?thesis
      by (auto simp: kickoff_table.kept_def map_le_def dom_def)
  qed (use a in \<open>auto simp: assigned_def kickoff_table.order.refl\<close>)
qed

lemma operator_run_kept:
  "operator_run L N self w w' \<Longrightarrow> kickoff_table.kept (world_db w) (world_db w')"
proof (induction rule: rtranclp_induct)
  case (step w1 w2)
  have "kickoff_table.kept (world_db w1) (world_db w2)"
    using operator_step_effect [OF step(2)]
  proof
    assume "only_funding (world_db w1) (world_db w2)"
    then show ?thesis
      using only_funding_tables by (simp add: kickoff_table.kept_def)
  qed (auto dest: assigned_kept)
  with step.IH show ?case
    by (rule kickoff_table.order.trans)
qed (rule kickoff_table.order.refl)

text \<open>An operator that starts, serves two deposits, and then the first one again.\<close>

definition example_operator :: operator where
  "example_operator = \<lparr>operator_signer = actor_new example_lib (replicate 32 2) Regtest,
     operator_config = example_config (replicate 32 2), operator_nofn_xonly_pk = example_nofn,
     operator_idx = 0, operator_citrea_client = False\<rparr>"

definition request_deposit :: "u32 \<Rightarrow> (example_chain, utxo \<times> signature) handler" where
  "request_deposit i = operator_new_deposit example_lib example_node example_operator (deposit_at i)
     example_recovery example_evm"

definition started_world :: "(database, example_chain) world" where
  "started_world =
    snd (operator_new example_lib example_node (operator_config example_operator) start_world)"

lemma operator_session:
  obtains u0 s0 w1 u1 s1 w2 u2 s2 w3 where
    "request_deposit 0 started_world = (Ok (u0, s0), w1)"
    "request_deposit 1 w1 = (Ok (u1, s1), w2)" "request_deposit 0 w2 = (Ok (u2, s2), w3)"
proof -
  have "let (r0, w1) = request_deposit 0 started_world; (r1, w2) = request_deposit 1 w1;
      (r2, w3) = request_deposit 0 w2 in is_Ok r0 \<and> is_Ok r1 \<and> is_Ok r2"
    by code_simp
  then show ?thesis
    by (auto simp: Let_def is_Ok_iff split: prod.splits intro: that)
qed

lemma started_reached: "operator_run example_lib example_node example_operator start_world started_world"
  unfolding started_world_def by (auto intro!: operator_step.restart prod_eqI)

lemma request_reached:
  "operator_run example_lib example_node example_operator w w1 \<Longrightarrow> request_deposit i w1 = (r, w2) \<Longrightarrow>
    operator_run example_lib example_node example_operator w w2"
  unfolding request_deposit_def by (meson operator_step.new_deposit rtranclp.rtrancl_into_rtrancl)

lemma request_kickoff:
  "request_deposit i w = (Ok (u, sig), w') \<Longrightarrow> kickoff_of (world_db w') (deposit_at i) = Some u"
  unfolding request_deposit_def using operator_new_deposit_Ok assigned_kept by blast

text \<open>
  C7. Along every run of an operator that starts with empty tables, no two deposits are given the same
  kickoff output, and the tables stay well-formed: counters stay within the outputs of their
  transaction and every assigned output lies below the counter of a recorded transaction.
\<close>

theorem operator_kickoffs_unique:
  assumes "operator_run L N self w w'" "world_db w = empty_database"
  shows "operator_inv (world_db w') \<and>
    (\<forall>k1 k2 u1 u2. kickoff_of (world_db w') k1 = Some u1 \<longrightarrow> kickoff_of (world_db w') k2 = Some u2 \<longrightarrow>
      utxo_outpoint u1 = utxo_outpoint u2 \<longrightarrow> k1 = k2)"
proof -
  have inv: "operator_inv (world_db w')"
    using operator_run_inv [OF assms(1)] assms(2) operator_inv_empty by simp
  moreover have "k1 = k2" if "kickoff_of (world_db w') k1 = Some u1" "kickoff_of (world_db w') k2 = Some u2"
      "utxo_outpoint u1 = utxo_outpoint u2" for k1 k2 u1 u2
  proof -
    have "inj_on (utxo_outpoint \<circ> snd) (set (operators_kickoff_utxo (world_db w')))"
      using inv by (simp add: operator_inv_def distinct_map)
    moreover have "(k1, u1) \<in> set (operators_kickoff_utxo (world_db w'))"
      "(k2, u2) \<in> set (operators_kickoff_utxo (world_db w'))"
      using that by (auto simp: kickoff_of_def dest: map_of_SomeD)
    ultimately have "(k1, u1) = (k2, u2)"
      using that(3) by (metis comp_apply inj_onD snd_conv)
    then show ?thesis
      by simp
  qed
  ultimately show ?thesis
    by blast
qed

theorem operator_kickoffs_unique_witness:
  "\<exists>(w :: (database, example_chain) world) u1 u2. kickoff_of (world_db w) (deposit_at 0) = Some u1 \<and>
    kickoff_of (world_db w) (deposit_at 1) = Some u2 \<and> utxo_outpoint u1 \<noteq> utxo_outpoint u2"
proof (rule operator_session)
  fix u0 s0 w1 u1 s1 w2
  assume 1: "request_deposit 0 started_world = (Ok (u0, s0), w1)"
    and 2: "request_deposit 1 w1 = (Ok (u1, s1), w2)"
  have w1: "operator_run example_lib example_node example_operator start_world w1"
    by (rule request_reached [OF started_reached 1])
  have w2: "operator_run example_lib example_node example_operator w1 w2"
    by (rule request_reached [OF rtranclp.rtrancl_refl 2])
  have u0: "kickoff_of (world_db w2) (deposit_at 0) = Some u0"
    using request_kickoff [OF 1] operator_run_kept [OF w2] kickoff_table.kept_lookup by blast
  have "utxo_outpoint u0 = utxo_outpoint u1 \<longrightarrow> deposit_at 0 = deposit_at 1"
    using operator_kickoffs_unique [OF rtranclp_trans [OF w1 w2]] u0 request_kickoff [OF 2]
    by (simp add: start_world_def)
  then have "utxo_outpoint u0 \<noteq> utxo_outpoint u1"
    by (simp add: deposit_at_def)
  with u0 request_kickoff [OF 2] show ?thesis
    by blast
qed



end
