(* ===== verification/User_Role.thy ===== *)
theory User_Role
  imports Chain_Rpc
begin

text \<open>
  \<open>core/src/user.rs\<close>: a user sends coins to the deposit address, and signs the transaction of a
  withdrawal so that an operator can add inputs and outputs to it.
\<close>

definition WITHDRAWAL_EMPTY_UTXO_SATS :: amount where
  "WITHDRAWAL_EMPTY_UTXO_SATS = 550"

record user =
  user_signer :: actor
  user_config :: bridge_config
  user_nofn_xonly_pk :: xonly

definition user_new :: "'x lib_scheme \<Rightarrow> secret_key \<Rightarrow> bridge_config \<Rightarrow> user outcome" where
  "user_new L sk config =
    (let signer = actor_new L sk (cfg_network config) in
    attempt (from_musig2_pks L (cfg_verifiers_public_keys config) None False) (\<lambda>nofn_xonly_pk.
    Ok \<lparr>user_signer = signer, user_config = config, user_nofn_xonly_pk = nofn_xonly_pk\<rparr>))"

definition get_deposit_address :: "'x sign_lib_scheme \<Rightarrow> user \<Rightarrow> evm_address \<Rightarrow> address outcome" where
  "get_deposit_address L self evm_address =
    attempt (generate_deposit_address L (user_nofn_xonly_pk self) (actor_address (user_signer self))
        evm_address (cfg_bridge_amount_sats (user_config self)) (cfg_network (user_config self))
        (cfg_user_takes_after (user_config self))) (\<lambda>(deposit_address, _).
    Ok deposit_address)"

definition deposit_tx :: "'x sign_lib_scheme \<Rightarrow> 'n node_ops \<Rightarrow> user \<Rightarrow> evm_address \<Rightarrow> ('n, outpoint) handler" where
  "deposit_tx L N self evm_address =
    ask (lift (get_deposit_address L self evm_address)) (\<lambda>deposit_address.
    send_to_address N deposit_address (cfg_bridge_amount_sats (user_config self)))"

definition generate_withdrawal_transaction_and_signature ::
  "'x sign_lib_scheme \<Rightarrow> 'n node_ops \<Rightarrow> user \<Rightarrow> address \<Rightarrow> amount \<Rightarrow>
   ('n, utxo \<times> txout \<times> signature) handler" where
  "generate_withdrawal_transaction_and_signature L N self withdrawal_address withdrawal_amount =
    ask (send_to_address N (actor_address (user_signer self)) WITHDRAWAL_EMPTY_UTXO_SATS) (\<lambda>dust_outpoint.
    let dust_utxo = \<lparr>utxo_outpoint = dust_outpoint, utxo_txout =
          \<lparr>txout_value = WITHDRAWAL_EMPTY_UTXO_SATS,
           txout_script = address_script_pubkey L (actor_address (user_signer self))\<rparr>\<rparr>;
        txins = create_tx_ins [utxo_outpoint dust_utxo];
        txout = \<lparr>txout_value = withdrawal_amount,
          txout_script = address_script_pubkey L withdrawal_address\<rparr>;
        txouts = [txout];
        tx = create_btc_tx txins txouts;
        prevouts = [utxo_txout dust_utxo] in
    ask (draw_aux N) (\<lambda>aux.
    ask (lift (sign_taproot_pubkey_spend_tx_with_sighash L aux (user_signer self) tx prevouts 0
        (Some SinglePlusAnyoneCanPay))) (\<lambda>sig.
    return (dust_utxo, txout, sig))))"

end
