(* ===== verification/Key_Laws.thy ===== *)
theory Key_Laws
  imports Signing
begin

text \<open>
  What the code relies on from the crates for keys and signatures, as named hypotheses: a Schnorr
  signature verifies under the key that made it, a taproot address without scripts pays to the key
  that the tweak gives, and an aggregated MuSig2 signature verifies under the aggregated key, which
  the \<open>musig2\<close> crate checks before it returns one. The lemmas carry these facts through the wrappers
  of \<open>core/src/actor.rs\<close> and \<open>core/src/musig2.rs\<close>.
\<close>

section \<open>Laws\<close>

definition schnorr_correct :: "'x sign_lib_scheme \<Rightarrow> bool" where
  "schnorr_correct L \<longleftrightarrow> (\<forall>aux m kp. verify_schnorr L (sign_schnorr L aux m kp) m (keypair_xonly L kp))"

definition key_path :: "'x sign_lib_scheme \<Rightarrow> xonly \<Rightarrow> network \<Rightarrow> xonly \<Rightarrow> bool" where
  "key_path L internal network key \<longleftrightarrow>
    address_script_pubkey L (p2tr L internal None network) = [0x51, 0x20] @ key \<and>
    length key = 32 \<and> xonly_from_slice L key = Some key"

definition taproot_keys :: "'x sign_lib_scheme \<Rightarrow> bool" where
  "taproot_keys L \<longleftrightarrow> (\<forall>kp tweaked network.
    add_xonly_tweak L kp (tap_tweak_hash L (keypair_xonly L kp) None) = Some tweaked \<longrightarrow>
    key_path L (keypair_xonly L kp) network (keypair_xonly L tweaked))"

definition musig_correct :: "'x lib_scheme \<Rightarrow> bool" where
  "musig_correct L \<longleftrightarrow>
    (\<forall>ctx nonce sigs m s sig. musig_aggregate L ctx nonce sigs m = Some s \<longrightarrow>
      signature_from_slice L s = Some sig \<longrightarrow>
      verify_schnorr L sig m (public_key_xonly L (aggregated_pubkey L ctx))) \<and>
    (\<forall>pks ctx. key_agg_new L pks = Some ctx \<longrightarrow>
      aggregated_pubkey_untweaked L ctx = aggregated_pubkey L ctx \<and>
      (\<forall>ctx' network. with_unspendable_taproot_tweak L ctx = Some ctx' \<longrightarrow>
        key_path L (public_key_xonly L (aggregated_pubkey L ctx)) network
          (public_key_xonly L (aggregated_pubkey L ctx')))) \<and>
    (\<forall>bs key. xonly_from_slice L bs = Some key \<longrightarrow> key = bs)"

text \<open>
  From \<open>bitcoin\<close>: ids of transactions do not cover witnesses; an input that exists has a hash to sign
  when all spent outputs are given; a leaf at depth 0 completes an empty tree, which can then be
  finished; and an address made for one script has a control block for it.
\<close>

definition txid_ignores_witness :: "'x script_lib_scheme \<Rightarrow> bool" where
  "txid_ignores_witness L \<longleftrightarrow>
    (\<forall>tx tx'. without_witnesses tx = without_witnesses tx' \<longrightarrow> compute_txid L tx = compute_txid L tx')"

lemma handle_witness_txid:
  assumes "txid_ignores_witness L" "handle_taproot_witness_new L h els i script_index = Ok h'"
  shows "compute_txid L (handler_tx h') = compute_txid L (handler_tx h)"
proof -
  have "without_witnesses (handler_tx h') = without_witnesses (handler_tx h)"
    using assms(2) by (auto simp: handle_taproot_witness_new_def Let_def split: option.splits if_splits)
  with assms(1) show ?thesis
    unfolding txid_ignores_witness_def by blast
qed

definition sighash_total :: "'x sign_lib_scheme \<Rightarrow> bool" where
  "sighash_total L \<longleftrightarrow> (\<forall>tx i prevouts leaf. i < length (btc_input tx) \<longrightarrow>
    length prevouts = length (btc_input tx) \<longrightarrow>
    script_spend_signature_hash L tx i (All_Prevouts prevouts) leaf Default \<noteq> None)"

definition control_blocks_exist :: "'x script_lib_scheme \<Rightarrow> bool" where
  "control_blocks_exist L \<longleftrightarrow> (\<forall>script key network addr info.
    create_taproot_address L [script] key network = Ok (addr, info) \<longrightarrow> control_block L info script \<noteq> None)"

definition key_sighash_total :: "'x sign_lib_scheme \<Rightarrow> bool" where
  "key_sighash_total L \<longleftrightarrow> (\<forall>tx i prevouts. i < length (btc_input tx) \<longrightarrow>
    length prevouts = length (btc_input tx) \<longrightarrow>
    key_spend_signature_hash L tx i (All_Prevouts prevouts) Default \<noteq> None)"

definition single_leaf_trees :: "'x script_lib_scheme \<Rightarrow> bool" where
  "single_leaf_trees L \<longleftrightarrow> (\<forall>script. \<exists>leaves. add_leaf L [] 0 script = Some leaves \<and>
    (\<forall>key. finalize L leaves key \<noteq> None))"

lemma single_leaf_address:
  assumes "single_leaf_trees L"
  shows "\<exists>addr info. create_taproot_address L [script] key network = Ok (addr, info)"
proof -
  from assms obtain leaves where "add_leaf L [] 0 script = Some leaves" "\<And>key. \<exists>info. finalize L leaves key = Some info"
    unfolding single_leaf_trees_def by fastforce
  then show ?thesis
    by (cases key) (auto simp: create_taproot_address_def add_leaf_unwrap_def Let_def)
qed

lemma key_path_slice:
  "key_path L internal network key \<Longrightarrow>
    slice_2_34 (address_script_pubkey L (p2tr L internal None network)) = Ok key \<and>
    xonly_from_slice L key = Some key"
  by (simp add: key_path_def slice_2_34_def)

text \<open>The instance has them.\<close>

lemma example_lib_keys:
  "schnorr_correct example_lib" "taproot_keys example_lib" "musig_correct example_lib"
proof -
  show "schnorr_correct example_lib"
    by (simp add: schnorr_correct_def example_lib_def ex_defs)
  show "taproot_keys example_lib"
    by (simp add: taproot_keys_def key_path_def example_lib_def ex_defs)
  show "musig_correct example_lib"
    by (auto simp: musig_correct_def key_path_def example_lib_def ex_defs split: if_splits)
qed

lemma example_lib_txid: "txid_ignores_witness example_lib"
proof -
  have "tx_digest (without_witnesses tx) = tx_digest tx" for tx
    by (simp add: tx_digest_def without_witnesses_def comp_def)
  then have "tx_digest tx = tx_digest tx'" if "without_witnesses tx = without_witnesses tx'" for tx tx'
    using that by metis
  moreover have "compute_txid example_lib = tx_digest"
    by (simp add: example_lib_def)
  ultimately show ?thesis
    unfolding txid_ignores_witness_def by metis
qed

lemma example_lib_signs:
  "sighash_total example_lib" "control_blocks_exist example_lib" "\<forall>tx. length (compute_txid example_lib tx) = 32"
  by (auto simp: sighash_total_def control_blocks_exist_def example_lib_def ex_defs create_taproot_address_def
      add_leaf_unwrap_def tx_digest_def split: option.splits)

lemma example_lib_builds: "key_sighash_total example_lib" "single_leaf_trees example_lib"
  by (simp_all add: key_sighash_total_def single_leaf_trees_def example_lib_def ex_defs)

section \<open>Signatures of one key\<close>

lemma actor_new_simps [simp]:
  "actor_keypair (actor_new L sk network) = keypair_from_secret_key L sk"
  "actor_xonly (actor_new L sk network) = keypair_xonly L (keypair_from_secret_key L sk)"
  "actor_address (actor_new L sk network) = p2tr L (keypair_xonly L (keypair_from_secret_key L sk)) None network"
  by (simp_all add: actor_new_def Let_def)

lemma sign_verifies:
  "schnorr_correct L \<Longrightarrow>
    verify_schnorr L (sign L aux (actor_new L sk network) m) m (actor_xonly (actor_new L sk network))"
  by (simp add: schnorr_correct_def sign_def)

lemma sign_with_tweak_verifies:
  assumes "schnorr_correct L" "taproot_keys L"
    and "sign_with_tweak L aux (actor_new L sk network) m None = Ok sig"
  shows "\<exists>key. slice_2_34 (address_script_pubkey L (actor_address (actor_new L sk network))) = Ok key \<and>
    xonly_from_slice L key = Some key \<and> verify_schnorr L sig m key"
proof -
  from assms(3) obtain tweaked where
    t: "add_xonly_tweak L (keypair_from_secret_key L sk)
      (tap_tweak_hash L (keypair_xonly L (keypair_from_secret_key L sk)) None) = Some tweaked"
    and sig: "sig = sign_schnorr L aux m tweaked"
    by (auto simp: sign_with_tweak_def)
  have "key_path L (keypair_xonly L (keypair_from_secret_key L sk)) network (keypair_xonly L tweaked)"
    using assms(2) t unfolding taproot_keys_def by blast
  with sig assms(1) show ?thesis
    by (auto dest: key_path_slice simp: schnorr_correct_def)
qed

section \<open>Aggregated signatures\<close>

lemma from_musig2_pks_key:
  assumes "musig_correct L" "from_musig2_pks L pks None False = Ok nofn"
  obtains ctx where "key_agg_new L pks = Some ctx" "nofn = public_key_xonly L (aggregated_pubkey L ctx)"
proof -
  from assms(2) obtain ctx where ctx: "key_agg_new L pks = Some ctx"
    and key: "xonly_from_slice L (public_key_xonly L (aggregated_pubkey_untweaked L ctx)) = Some nofn"
    by (auto simp: from_musig2_pks_def create_key_agg_ctx_def Let_def)
  with assms(1) have "nofn = public_key_xonly L (aggregated_pubkey L ctx)"
    unfolding musig_correct_def by metis
  with ctx show ?thesis
    by (rule that)
qed

lemma aggregated_signature_verifies:
  assumes "musig_correct L" "from_musig2_pks L pks None False = Ok nofn"
    and "aggregate_partial_signatures L pks None False nonce sigs m = Ok s"
    and "signature_from_slice L s = Some sig"
  shows "verify_schnorr L sig m nofn"
proof (rule from_musig2_pks_key [OF assms(1,2)])
  fix ctx assume ctx: "key_agg_new L pks = Some ctx" "nofn = public_key_xonly L (aggregated_pubkey L ctx)"
  with assms(3) obtain n ps where "musig_aggregate L ctx n ps m = Some s"
    by (auto simp: aggregate_partial_signatures_def create_key_agg_ctx_def)
  with assms(1,4) ctx show ?thesis
    unfolding musig_correct_def by blast
qed

lemma aggregated_signature_verifies_tweaked:
  assumes "musig_correct L" "from_musig2_pks L pks None False = Ok nofn"
    and "aggregate_partial_signatures L pks None True nonce sigs m = Ok s"
    and "signature_from_slice L s = Some sig"
    and "slice_2_34 (address_script_pubkey L (p2tr L nofn None network)) = Ok bytes"
    and "xonly_from_slice L bytes = Some key"
  shows "verify_schnorr L sig m key"
proof (rule from_musig2_pks_key [OF assms(1,2)])
  fix ctx assume ctx: "key_agg_new L pks = Some ctx" "nofn = public_key_xonly L (aggregated_pubkey L ctx)"
  with assms(3) obtain ctx' n ps where ctx': "with_unspendable_taproot_tweak L ctx = Some ctx'"
    and m: "musig_aggregate L ctx' n ps m = Some s"
    by (auto simp: aggregate_partial_signatures_def create_key_agg_ctx_def)
  have "key_path L nofn network (public_key_xonly L (aggregated_pubkey L ctx'))"
    using assms(1) ctx ctx' unfolding musig_correct_def by blast
  from key_path_slice [OF this] assms(5,6) have "key = public_key_xonly L (aggregated_pubkey L ctx')"
    by simp
  with assms(1,4) m show ?thesis
    unfolding musig_correct_def by blast
qed

end
