(* ===== verification/Operator_Service.thy ===== *)
theory Operator_Service
  imports Operator_Role User_Role Key_Laws
begin

text \<open>
  What the answers of an operator (\<open>core/src/operator.rs\<close>) are worth: the kickoff outputs it hands
  out exist in transactions it signed, a deposit is served whenever its conditions hold, a withdrawal
  is paid only for a profit and a valid signature, and the transactions of a reimbursement can be
  published in the order they are returned.
\<close>

section \<open>Profit\<close>

text \<open>
  C33. A withdrawal is profitable exactly when the bridge amount exceeds what the user gets by more
  than the operator's fee, on the numbers, provided the user does not put in more than he takes out;
  if he does, the difference wraps and is refused unless the bridge amount is that large. A
  withdrawal above the bridge amount by no more than the input passes the first check and panics in
  the subtraction.
\<close>

theorem is_profitable_cases:
  "is_profitable self input withdrawal =
    (let bridge = unat (cfg_bridge_amount_sats (operator_config self));
         difference = (if unat input \<le> unat withdrawal then unat withdrawal - unat input
           else 2 ^ 64 + unat withdrawal - unat input)
     in if bridge < difference then Ok False
     else if bridge < unat withdrawal then Panic
     else case cfg_operator_withdrawal_fee_sats (operator_config self) of
       None \<Rightarrow> Panic
     | Some fee \<Rightarrow> Ok (unat withdrawal + unat fee < bridge))"
proof -
  have diff: "unat (withdrawal - input) = (if unat input \<le> unat withdrawal
      then unat withdrawal - unat input else 2 ^ 64 + unat withdrawal - unat input)"
    using unat_less_pow [of withdrawal] unat_less_pow [of input]
    by (auto simp: unat_sub word_le_nat_alt unat_sub_if_size word_size)
  let ?bridge = "cfg_bridge_amount_sats (operator_config self)"
  have first: "?bridge < withdrawal - input \<longleftrightarrow> unat ?bridge < (if unat input \<le> unat withdrawal
      then unat withdrawal - unat input else 2 ^ 64 + unat withdrawal - unat input)"
    by (simp only: word_less_nat_alt diff)
  have second: "withdrawal \<le> ?bridge \<longleftrightarrow> \<not> unat ?bridge < unat withdrawal"
    by (simp add: word_le_nat_alt not_less)
  have fee: "fee < ?bridge - withdrawal \<longleftrightarrow> unat withdrawal + unat fee < unat ?bridge"
    if "\<not> unat ?bridge < unat withdrawal" for fee
  proof -
    have "unat (?bridge - withdrawal) = unat ?bridge - unat withdrawal"
      using that second by (simp add: unat_sub)
    then show ?thesis
      by (auto simp: word_less_nat_alt)
  qed
  show ?thesis
    unfolding is_profitable_def Let_def amount_sub_def first second
    by (cases "cfg_operator_withdrawal_fee_sats (operator_config self)") (simp_all add: fee)
qed

section \<open>Withdrawals\<close>

definition citrea_names_input :: "'x script_lib_scheme \<Rightarrow> 'n node_ops \<Rightarrow> u32 \<Rightarrow> utxo \<Rightarrow> 'n \<Rightarrow> bool" where
  "citrea_names_input L N i input n \<longleftrightarrow> (\<exists>response.
    fst (eth_call N citrea_to (withdrawal_call L i) (Some ''latest'') n) = Some response \<and>
    66 \<le> length response \<and>
    hex_decode L (take 64 (drop 2 response)) = Some (op_txid (utxo_outpoint input)) \<and>
    op_vout (utxo_outpoint input) = 0)"

lemma check_citrea_withdrawal_eq_Ok:
  assumes "check_citrea_withdrawal L N i input w = (Ok u, w')"
  shows "citrea_names_input L N i input (world_node w)"
  using assms
  by (auto simp: check_citrea_withdrawal_def ask_eq_Ok request_eq_Ok_iff str_slice_def
      citrea_names_input_def split: if_splits)

text \<open>The user's signature covers the input and the payment, on the key of the spent output.\<close>

definition user_signed :: "'x sign_lib_scheme \<Rightarrow> utxo \<Rightarrow> txout \<Rightarrow> signature \<Rightarrow> bool" where
  "user_signed L input out sig \<longleftrightarrow> (\<exists>key sighash.
    34 \<le> length (txout_script (utxo_txout input)) \<and>
    xonly_from_slice L (take 32 (drop 2 (txout_script (utxo_txout input)))) = Some key \<and>
    key_spend_signature_hash L (create_btc_tx (create_tx_ins [utxo_outpoint input]) [out]) 0
      (One_Prevout 0 (utxo_txout input)) SinglePlusAnyoneCanPay = Some sighash \<and>
    verify_schnorr L sig sighash key)"

text \<open>The transaction that goes to the wallet: the user's, with his witness and the operator's mark.\<close>

definition withdrawal_tx :: "'x sign_lib_scheme \<Rightarrow> operator \<Rightarrow> utxo \<Rightarrow> txout \<Rightarrow> signature \<Rightarrow> btc_tx" where
  "withdrawal_tx L self input out sig =
    (let tx = push_witness 0 [taproot_signature_serialize L sig SinglePlusAnyoneCanPay]
        (create_btc_tx (create_tx_ins [utxo_outpoint input]) [out])
     in tx\<lparr>btc_output := [out, op_return_txout L (usize_to_var_len_bytes (operator_idx self))]\<rparr>)"

text \<open>
  C14. A withdrawal is paid only if it is profitable, the user's signature on the spent output covers
  exactly that input and that payment, and, when a Citrea node is configured, that node names the
  input for the withdrawal; the transaction sent to the wallet is the user's with the operator's
  index added, and the tables do not change.
\<close>

theorem withdrawal_paid_only_if:
  assumes "new_withdrawal_sig L N self i sig input out w = (Ok txid, w')"
  shows "is_profitable self (txout_value (utxo_txout input)) (txout_value out) = Ok True \<and>
    user_signed L input out sig \<and>
    (operator_citrea_client self \<longrightarrow> citrea_names_input L N i input (world_node w)) \<and>
    (\<exists>n1 n2 n3 funded signed tx. fund_raw_transaction_op N (withdrawal_tx L self input out sig) n1 = (Some funded, n2) \<and>
      sign_raw_transaction_op N funded n2 = (Some signed, n3) \<and> deserialize_tx L signed = Some tx \<and>
      send_raw_transaction_op N tx n3 = (Some txid, world_node w')) \<and>
    world_db w' = world_db w"
proof -
  have db: "world_db w' = world_db w"
    using same_db.moves_ok [OF withdrawals_read(1) assms] by simp
  from assms obtain w1 key_bytes key sighash pushed funded w2 signed w3 tx where
    c: "(if operator_citrea_client self then check_citrea_withdrawal L N i input else return ()) w = (Ok (), w1)"
    and p: "is_profitable self (txout_value (utxo_txout input)) (txout_value out) = Ok True"
    and k: "slice_2_34 (txout_script (utxo_txout input)) = Ok key_bytes" "xonly_from_slice L key_bytes = Some key"
    and s: "key_spend_signature_hash L (create_btc_tx (create_tx_ins [utxo_outpoint input]) [out]) 0
      (One_Prevout 0 (utxo_txout input)) SinglePlusAnyoneCanPay = Some sighash" "verify_schnorr L sig sighash key"
    and b: "push_bytes (usize_to_var_len_bytes (operator_idx self)) = Ok pushed"
    and f: "fund_raw_transaction N ((push_witness 0 [taproot_signature_serialize L sig SinglePlusAnyoneCanPay]
        (create_btc_tx (create_tx_ins [utxo_outpoint input]) [out]))
        \<lparr>btc_output := btc_output (push_witness 0 [taproot_signature_serialize L sig SinglePlusAnyoneCanPay]
        (create_btc_tx (create_tx_ins [utxo_outpoint input]) [out])) @ [op_return_txout L pushed]\<rparr>) w1 = (Ok funded, w2)"
    and g: "sign_raw_transaction_with_wallet N funded w2 = (Ok signed, w3)" "deserialize_tx L signed = Some tx"
      "send_raw_transaction N tx w3 = (Ok txid, w')"
    unfolding new_withdrawal_sig_def Let_def by (auto simp: ask_eq_Ok)
  have "pushed = usize_to_var_len_bytes (operator_idx self)"
    using b by (auto simp: push_bytes_def split: if_splits)
  with f have "fund_raw_transaction_op N (withdrawal_tx L self input out sig) (world_node w1) = (Some funded, world_node w2)"
    by (simp add: fund_raw_transaction_def request_eq_Ok_iff withdrawal_tx_def Let_def push_witness_def create_btc_tx_def)
  moreover have "sign_raw_transaction_op N funded (world_node w2) = (Some signed, world_node w3)"
    using g(1) by (simp add: sign_raw_transaction_with_wallet_def request_eq_Ok_iff)
  moreover have "send_raw_transaction_op N tx (world_node w3) = (Some txid, world_node w')"
    using g(3) by (simp add: send_raw_transaction_def request_eq_Ok_iff)
  moreover have "user_signed L input out sig"
    using k s by (auto simp: user_signed_def slice_2_34_def split: if_splits)
  moreover have "operator_citrea_client self \<longrightarrow> citrea_names_input L N i input (world_node w)"
    using c check_citrea_withdrawal_eq_Ok by auto
  ultimately show ?thesis
    using p db g(2) by blast
qed

text \<open>A user who asks the example operator for 10000 satoshis.\<close>

definition example_user :: user where
  "example_user = \<lparr>user_signer = actor_new example_lib (replicate 32 9) Regtest,
     user_config = example_config (replicate 32 9), user_nofn_xonly_pk = example_nofn\<rparr>"

definition ask_withdrawal :: "(example_chain, utxo \<times> txout \<times> signature) handler" where
  "ask_withdrawal = generate_withdrawal_transaction_and_signature example_lib example_node example_user
     (replicate 32 7) 10000"

lemma withdrawal_session:
  obtains utxo out sig w1 txid w2 where "ask_withdrawal start_world = (Ok (utxo, out, sig), w1)"
    "new_withdrawal_sig example_lib example_node example_operator 0 sig utxo out w1 = (Ok txid, w2)"
proof -
  have "case ask_withdrawal start_world of (Ok (utxo, out, sig), w1) \<Rightarrow>
      is_Ok (fst (new_withdrawal_sig example_lib example_node example_operator 0 sig utxo out w1)) | _ \<Rightarrow> False"
    by code_simp
  then show ?thesis
    using that by (auto simp: is_Ok_iff prod_eq_iff split: prod.splits outcome.splits)
qed

theorem withdrawal_paid_only_if_witness:
  "\<exists>utxo out sig w1. ask_withdrawal start_world = (Ok (utxo, out, sig), w1) \<and>
    user_signed example_lib utxo out sig"
proof (rule withdrawal_session)
  fix utxo out sig w1 txid w2
  assume 1: "ask_withdrawal start_world = (Ok (utxo, out, sig), w1)"
    and 2: "new_withdrawal_sig example_lib example_node example_operator 0 sig utxo out w1 = (Ok txid, w2)"
  from withdrawal_paid_only_if [OF 2] 1 show ?thesis
    by blast
qed

section \<open>Kickoff outputs exist\<close>

text \<open>
  Every generator row records a transaction the operator signed, and every assigned output is one of
  the kickoff outputs of such a transaction.
\<close>

definition row_of_signed :: "'x sign_lib_scheme \<Rightarrow> operator \<Rightarrow> generator_row \<Rightarrow> bool" where
  "row_of_signed L self row \<longleftrightarrow> (\<exists>funding h. signed_kickoff_tx L self funding h \<and>
    gen_txid row = compute_txid L (handler_tx h) \<and> gen_raw_signed_tx row = raw_hex L (handler_tx h) \<and>
    gen_funding_txid row = op_txid (utxo_outpoint funding) \<and>
    gen_num_kickoffs row = i32_of_usize (cfg_operator_num_kickoff_utxos_per_tx (operator_config self)))"

definition real_output :: "'x sign_lib_scheme \<Rightarrow> operator \<Rightarrow> utxo \<Rightarrow> bool" where
  "real_output L self u \<longleftrightarrow> (\<exists>funding h i. signed_kickoff_tx L self funding h \<and>
    i < unat (cfg_operator_num_kickoff_utxos_per_tx (operator_config self)) \<and>
    u = \<lparr>utxo_outpoint = \<lparr>op_txid = compute_txid L (handler_tx h), op_vout = word_of_nat i\<rparr>,
      utxo_txout = btc_output (handler_tx h) ! i\<rparr>)"

definition outputs_inv :: "'x sign_lib_scheme \<Rightarrow> operator \<Rightarrow> database \<Rightarrow> bool" where
  "outputs_inv L self d \<longleftrightarrow> operator_inv d \<and>
    (\<forall>row \<in> set (deposit_kickoff_generator_txs d). row_of_signed L self row) \<and>
    (\<forall>u \<in> snd ` set (operators_kickoff_utxo d). real_output L self u)"

lemma i32_of_usize_small:
  assumes "unat n < 2 ^ 31"
  shows "i32_of_usize n = uint n" "uint n < 2 ^ 31"
proof -
  have "int (unat n) < int (2 ^ 31)"
    using assms by (simp only: of_nat_less_iff)
  then show "uint n < 2 ^ 31"
    by simp
  then have "signed_take_bit 31 (uint n) = uint n"
    by (intro signed_take_bit_int_eq_self) (auto intro: order_trans [of _ 0])
  then show "i32_of_usize n = uint n"
    by (simp add: i32_of_usize_def signed_ucast_eq)
qed

lemma row_of_signed_next: "row_of_signed L self (next_unused row) = row_of_signed L self row"
  by (simp add: row_of_signed_def next_unused_def)

lemma takes_unused_outputs:
  assumes inv: "outputs_inv L self d" and k: "kickoff_of d k = None" and t: "takes_unused L k u d d'"
    and L: "tx_roundtrip L" and num: "unat (cfg_operator_num_kickoff_utxos_per_tx (operator_config self)) < 2 ^ 31"
  shows "outputs_inv L self d'"
proof -
  let ?rows = "deposit_kickoff_generator_txs d"
  let ?num = "cfg_operator_num_kickoff_utxos_per_tx (operator_config self)"
  from t obtain i raw tx where i: "i < length ?rows" "has_unused (?rows ! i)"
    and raw: "hex_decode L (gen_raw_signed_tx (?rows ! i)) = Some raw" "deserialize_tx L raw = Some tx"
    and u: "u = \<lparr>utxo_outpoint = \<lparr>op_txid = gen_txid (?rows ! i),
        op_vout = word_of_int (gen_cur_unused (?rows ! i) + 1) - 1\<rparr>,
      utxo_txout = btc_output tx ! unat (word_of_int (gen_cur_unused (?rows ! i) + 1) - 1 :: u64)\<rparr>"
    and d': "d' = d\<lparr>deposit_kickoff_generator_txs := ?rows[i := next_unused (?rows ! i)],
      operators_kickoff_utxo := operators_kickoff_utxo d @ [(k, u)]\<rparr>"
    unfolding takes_unused_def Let_def by blast
  have row: "?rows ! i \<in> set ?rows"
    using i by simp
  let ?c = "gen_cur_unused (?rows ! i)"
  have c: "1 \<le> ?c" "?c < gen_num_kickoffs (?rows ! i)" "gen_num_kickoffs (?rows ! i) < 2 ^ 31"
    using inv row i unfolding outputs_inv_def operator_inv_def generators_ok_def has_unused_def by auto
  obtain funding h where h: "signed_kickoff_tx L self funding h"
    "gen_txid (?rows ! i) = compute_txid L (handler_tx h)" "gen_raw_signed_tx (?rows ! i) = raw_hex L (handler_tx h)"
    "gen_num_kickoffs (?rows ! i) = i32_of_usize ?num"
    using inv row unfolding outputs_inv_def row_of_signed_def by blast
  have tx: "tx = handler_tx h"
    using L raw h(3) unfolding tx_roundtrip_def by (metis option.inject)
  have idx: "unat (word_of_int (?c + 1) - 1 :: u64) = nat ?c"
    using c by (intro unused_index) auto
  have "uint (word_of_int (?c + 1) - 1 :: u32) = ?c"
    using c by (intro unused_index) auto
  then have vout: "(word_of_int (?c + 1) - 1 :: u32) = word_of_nat (nat ?c)"
    using c by (metis int_nat_eq of_int_of_nat_eq word_of_int_uint zero_le_one order_trans)
  have "nat ?c < nat (uint ?num)"
    using c h(4) i32_of_usize_small(1) [OF num] by (simp del: nat_uint_eq)
  then have "nat ?c < unat ?num"
    by (simp only: nat_uint_eq)
  then have "real_output L self u"
    using h(1,2) tx idx vout u unfolding real_output_def by auto
  moreover have "operator_inv d'"
    using takes_unused_inv [OF _ k t] inv by (simp add: outputs_inv_def)
  ultimately show ?thesis
    using inv row unfolding outputs_inv_def d'
    by (auto simp: row_of_signed_next dest!: subsetD [OF set_update_subset_insert])
qed

lemma makes_generator_outputs:
  assumes inv: "outputs_inv L self d" and k: "kickoff_of d k = None" and m: "makes_generator L self k u d d'"
    and num: "unat (cfg_operator_num_kickoff_utxos_per_tx (operator_config self)) < 2 ^ 31"
  shows "outputs_inv L self d'"
proof -
  let ?num = "cfg_operator_num_kickoff_utxos_per_tx (operator_config self)"
  from m obtain h :: tx_handler where h: "signed_kickoff_tx L self (last (funding_utxos d)) h"
    and one: "1 \<le> i32_of_usize ?num" and u: "u = output_utxo L (handler_tx h) 0"
    and d': "d' = d\<lparr>operators_kickoff_utxo := operators_kickoff_utxo d @ [(k, u)],
      deposit_kickoff_generator_txs := deposit_kickoff_generator_txs d @
        [generator_row_of L ?num (last (funding_utxos d)) (handler_tx h)],
      funding_utxos := funding_utxos d @ [output_utxo L (handler_tx h) ?num]\<rparr>"
    unfolding makes_generator_def Let_def by blast
  have "row_of_signed L self (generator_row_of L ?num (last (funding_utxos d)) (handler_tx h))"
    using h by (auto simp: row_of_signed_def generator_row_of_def)
  moreover have "0 < nat (uint ?num)"
    using one i32_of_usize_small(1) [OF num] by (simp del: nat_uint_eq)
  then have "0 < unat ?num"
    by (simp only: nat_uint_eq)
  then have "real_output L self u"
    using h unfolding real_output_def u output_utxo_def
    by (intro exI [of _ "last (funding_utxos d)"] exI [of _ h] exI [of _ 0]) simp
  moreover have "operator_inv d'"
    using makes_generator_inv [OF _ k m] inv by (simp add: outputs_inv_def)
  ultimately show ?thesis
    using inv unfolding outputs_inv_def d' by auto
qed

lemma outputs_inv_empty: "outputs_inv L self empty_database"
  by (simp add: outputs_inv_def operator_inv_empty) (simp add: empty_database_def)

lemma operator_run_outputs:
  assumes "operator_run L N self w w'" "outputs_inv L self (world_db w)" "tx_roundtrip L"
    and "unat (cfg_operator_num_kickoff_utxos_per_tx (operator_config self)) < 2 ^ 31"
  shows "outputs_inv L self (world_db w')"
  using assms(1,2)
proof (induction rule: rtranclp_induct)
  case (step w1 w2)
  from operator_step_effect [OF step(2)] show ?case
  proof
    assume "only_funding (world_db w1) (world_db w2)"
    then show ?thesis
      using step operator_inv_same only_funding_tables [of "world_db w1" "world_db w2"]
      unfolding outputs_inv_def by auto
  next
    assume "\<exists>k u. assigned L self k u (world_db w1) (world_db w2)"
    then show ?thesis
      using step takes_unused_outputs makes_generator_outputs assms(3,4)
      by (auto simp: assigned_def split: if_splits)
  qed
qed

lemma signed_kickoff_outputs:
  assumes "signed_kickoff_tx L self funding h"
    and num: "unat (cfg_operator_num_kickoff_utxos_per_tx (operator_config self)) < 2 ^ 31"
  obtains addr info where "create_kickoff_address L (operator_nofn_xonly_pk self)
      (actor_xonly (operator_signer self)) (cfg_network (operator_config self)) = Ok (addr, info)"
    "\<And>i. i < unat (cfg_operator_num_kickoff_utxos_per_tx (operator_config self)) \<Longrightarrow>
      btc_output (handler_tx h) ! i = \<lparr>txout_value = 100000, txout_script = address_script_pubkey L addr\<rparr>"
    "length (btc_output (handler_tx h)) = unat (cfg_operator_num_kickoff_utxos_per_tx (operator_config self)) + 2"
proof -
  let ?num = "cfg_operator_num_kickoff_utxos_per_tx (operator_config self)"
  from assms(1) obtain unsigned sig where
    u: "create_kickoff_utxo_tx L funding (operator_nofn_xonly_pk self) (actor_xonly (operator_signer self))
      (cfg_network (operator_config self)) ?num = Ok unsigned"
    and h: "handle_taproot_witness_new L unsigned [sig] 0 None = Ok h"
    unfolding signed_kickoff_tx_def by blast
  have same: "btc_output (handler_tx h) = btc_output (handler_tx unsigned)"
    using h by (auto simp: handle_taproot_witness_new_def Let_def push_witness_def)
  have "unat ?num < 2 ^ 40"
    using num by simp
  from create_kickoff_utxo_tx_eq [OF u this] obtain change addr info where
    k: "create_kickoff_address L (operator_nofn_xonly_pk self) (actor_xonly (operator_signer self))
        (cfg_network (operator_config self)) = Ok (addr, info)"
    and outs: "btc_output (handler_tx unsigned) = replicate (unat ?num) \<lparr>txout_value = KICKOFF_UTXO_AMOUNT_SATS,
        txout_script = address_script_pubkey L addr\<rparr> @
      [\<lparr>txout_value = change, txout_script = address_script_pubkey L (p2tr L (actor_xonly (operator_signer self))
        None (cfg_network (operator_config self)))\<rparr>, anyone_can_spend_txout L]"
    by metis
  show ?thesis
    by (rule that [OF k]) (simp_all add: same outs nth_append KICKOFF_UTXO_AMOUNT_SATS_def)
qed

lemma outputs_inv_kickoff:
  assumes "outputs_inv L self d" "kickoff_of d k = Some u"
    and "unat (cfg_operator_num_kickoff_utxos_per_tx (operator_config self)) < 2 ^ 31"
  obtains funding h i addr info where "signed_kickoff_tx L self funding h"
    "i < unat (cfg_operator_num_kickoff_utxos_per_tx (operator_config self))"
    "utxo_outpoint u = \<lparr>op_txid = compute_txid L (handler_tx h), op_vout = word_of_nat i\<rparr>"
    "utxo_txout u = btc_output (handler_tx h) ! i"
    "create_kickoff_address L (operator_nofn_xonly_pk self) (actor_xonly (operator_signer self))
      (cfg_network (operator_config self)) = Ok (addr, info)"
    "utxo_txout u = \<lparr>txout_value = 100000, txout_script = address_script_pubkey L addr\<rparr>"
proof -
  have "(k, u) \<in> set (operators_kickoff_utxo d)"
    using assms(2) unfolding kickoff_of_def by (rule map_of_SomeD)
  with assms(1) have "real_output L self u"
    unfolding outputs_inv_def by force
  then obtain funding h i where h: "signed_kickoff_tx L self funding h"
      "i < unat (cfg_operator_num_kickoff_utxos_per_tx (operator_config self))"
      "u = \<lparr>utxo_outpoint = \<lparr>op_txid = compute_txid L (handler_tx h), op_vout = word_of_nat i\<rparr>,
        utxo_txout = btc_output (handler_tx h) ! i\<rparr>"
    unfolding real_output_def by blast
  obtain addr info where "create_kickoff_address L (operator_nofn_xonly_pk self)
      (actor_xonly (operator_signer self)) (cfg_network (operator_config self)) = Ok (addr, info)"
    "btc_output (handler_tx h) ! i = \<lparr>txout_value = 100000, txout_script = address_script_pubkey L addr\<rparr>"
    using signed_kickoff_outputs [OF h(1) assms(3)] h(2) by metis
  with h that show ?thesis
    by simp
qed

text \<open>
  C11. Every kickoff output an operator has assigned exists: it is one of the kickoff outputs of a
  transaction the operator signed, worth 100000 satoshis, under the key of all verifiers and the
  operator. This rests on the decoder of transactions being the inverse of the encoder.
\<close>

theorem operator_outputs_real:
  assumes "operator_run L N self w w'" "world_db w = empty_database" "tx_roundtrip L"
    and "unat (cfg_operator_num_kickoff_utxos_per_tx (operator_config self)) < 2 ^ 31"
    and "kickoff_of (world_db w') k = Some u"
  shows "\<exists>funding h i addr info. signed_kickoff_tx L self funding h \<and>
    i < unat (cfg_operator_num_kickoff_utxos_per_tx (operator_config self)) \<and>
    utxo_outpoint u = \<lparr>op_txid = compute_txid L (handler_tx h), op_vout = word_of_nat i\<rparr> \<and>
    utxo_txout u = btc_output (handler_tx h) ! i \<and>
    create_kickoff_address L (operator_nofn_xonly_pk self) (actor_xonly (operator_signer self))
      (cfg_network (operator_config self)) = Ok (addr, info) \<and>
    utxo_txout u = \<lparr>txout_value = 100000, txout_script = address_script_pubkey L addr\<rparr>"
proof -
  have "outputs_inv L self (world_db w')"
    using operator_run_outputs [OF assms(1) _ assms(3,4)] outputs_inv_empty assms(2) by metis
  from outputs_inv_kickoff [OF this assms(5,4)] show ?thesis
    by metis
qed

theorem operator_outputs_real_witness:
  "\<exists>(w :: (database, example_chain) world) u. kickoff_of (world_db w) (deposit_at 1) = Some u \<and>
    txout_value (utxo_txout u) = 100000"
proof (rule operator_session)
  fix u0 s0 w1 u1 s1 w2
  assume 1: "request_deposit 0 started_world = (Ok (u0, s0), w1)"
    and 2: "request_deposit 1 w1 = (Ok (u1, s1), w2)"
  have run: "operator_run example_lib example_node example_operator start_world w2"
    by (rule request_reached [OF request_reached [OF started_reached 1] 2])
  have start: "world_db start_world = empty_database"
    and num: "unat (cfg_operator_num_kickoff_utxos_per_tx (operator_config example_operator)) < 2 ^ 31"
    by (simp_all add: start_world_def example_operator_def example_config_def)
  from operator_outputs_real [OF run start example_lib_roundtrip num request_kickoff [OF 2]]
  have "txout_value (utxo_txout u1) = 100000"
    by (metis txout.select_convs(1))
  with request_kickoff [OF 2] show ?thesis
    by blast
qed

section \<open>Deposits are served\<close>

text \<open>
  The operator can serve a new deposit: an output is assigned already, or one is unused, or the
  funding output is worth new ones with their fee, the change and the anchor, its key can be tweaked,
  and the transaction that would spend this funding output is not recorded yet.
\<close>

definition can_serve :: "'x sign_lib_scheme \<Rightarrow> operator \<Rightarrow> database \<Rightarrow> outpoint \<Rightarrow> bool" where
  "can_serve L self d k \<longleftrightarrow> kickoff_of d k \<noteq> None \<or>
    (\<exists>row \<in> set (deposit_kickoff_generator_txs d). has_unused row) \<or>
    (let num = cfg_operator_num_kickoff_utxos_per_tx (operator_config self); signer = operator_signer self;
         funding = last (funding_utxos d) in
     funding_utxos d \<noteq> [] \<and> 1 \<le> unat num \<and>
     100000 * unat num + (if unat num \<le> 250 then 154 else 156) + 43 * unat num + max 330 (dust L) \<le>
       unat (txout_value (utxo_txout funding)) \<and>
     add_xonly_tweak L (actor_keypair signer) (tap_tweak_hash L (actor_xonly signer) None) \<noteq> None \<and>
     (\<forall>h. create_kickoff_utxo_tx L funding (operator_nofn_xonly_pk self) (actor_xonly signer)
         (cfg_network (operator_config self)) num = Ok h \<longrightarrow>
       compute_txid L (handler_tx h) \<notin> gen_txid ` set (deposit_kickoff_generator_txs d)))"

lemma get_kickoff_utxo_no_fault:
  assumes "world_faults w = []"
  shows "get_kickoff_utxo k w = (Ok (kickoff_of (world_db w) k), w)"
  using assms
  by (cases "map_of (operators_kickoff_utxo (world_db w)) k")
    (simp_all add: get_kickoff_utxo_def ask_def run_sql_no_fault sql_get_kickoff_utxo_def
      kickoff_of_def optional_row_def)

lemma lock_no_fault: "world_faults w = [] \<Longrightarrow> lock_operators_kickoff_utxo_table w = (Ok (), w)"
  by (simp add: lock_operators_kickoff_utxo_table_def query_no_fault)

lemma save_kickoff_utxo_no_fault:
  assumes "world_faults w = []" "kickoff_of (world_db w) k = None"
  shows "\<exists>d. save_kickoff_utxo k u w = (Ok (), w\<lparr>world_db := d\<rparr>) \<and>
    deposit_kickoff_generator_txs d = deposit_kickoff_generator_txs (world_db w)"
  using assms
  by (intro exI [of _ "(world_db w)\<lparr>operators_kickoff_utxo := operators_kickoff_utxo (world_db w) @ [(k, u)]\<rparr>"])
    (simp add: save_kickoff_utxo_def query_no_fault sql_save_kickoff_utxo_def kickoff_of_def map_of_eq_None_iff)

lemma fee_bound:
  assumes "unat num < 2 ^ 31"
  shows "unat (KICKOFF_UTXO_AMOUNT_SATS * num + kickoff_tx_min_relay_fee num + 330) =
    100000 * unat num + (if unat num \<le> 250 then 154 else 156) + 43 * unat num + 330"
proof -
  have fee: "unat (kickoff_tx_min_relay_fee num) = (if unat num \<le> 250 then 154 else 156) + 43 * unat num"
    using assms by (intro kickoff_tx_min_relay_fee_value) simp
  have mult: "unat (KICKOFF_UTXO_AMOUNT_SATS * num) = 100000 * unat num"
    using assms by (subst unat_mult_lem [THEN iffD1]) simp_all
  have "unat (KICKOFF_UTXO_AMOUNT_SATS * num + kickoff_tx_min_relay_fee num) =
      100000 * unat num + unat (kickoff_tx_min_relay_fee num)"
    using assms fee mult by (subst unat_add_lem [THEN iffD1]) (simp_all split: if_splits)
  then show ?thesis
    using assms fee by (subst unat_add_lem [THEN iffD1]) (simp_all split: if_splits)
qed

text \<open>Such a funding output is enough: the transaction can be made and signed, whatever is drawn.\<close>

lemma create_kickoff_utxo_tx_runs:
  assumes "single_leaf_trees L" "unat num < 2 ^ 31"
    and "100000 * unat num + unat (kickoff_tx_min_relay_fee num) + dust L \<le> unat (txout_value (utxo_txout funding))"
  obtains unsigned where "create_kickoff_utxo_tx L funding nofn operator network num = Ok unsigned"
    "List.map txin_previous_output (btc_input (handler_tx unsigned)) = [utxo_outpoint funding]"
    "handler_prevouts unsigned = [utxo_txout funding]"
proof -
  let ?acs = "txout_value (anyone_can_spend_txout L)" and ?script = "create_musig2_and_operator_multisig_script L nofn operator"
  obtain addr info where a: "create_taproot_address L [?script] None network = Ok (addr, info)"
    using single_leaf_address [OF assms(1)] by blast
  have mult: "unat (KICKOFF_UTXO_AMOUNT_SATS * num) = 100000 * unat num"
    using assms(2) by (subst unat_mult_lem [THEN iffD1]) simp_all
  obtain v1 where 1: "amount_sub (txout_value (utxo_txout funding)) (KICKOFF_UTXO_AMOUNT_SATS * num) = Ok v1"
      "unat v1 = unat (txout_value (utxo_txout funding)) - 100000 * unat num"
    using amounts_run(1) [of "KICKOFF_UTXO_AMOUNT_SATS * num" "txout_value (utxo_txout funding)"] mult assms(3)
    by auto
  obtain v2 where 2: "amount_sub v1 ?acs = Ok v2" "unat v2 = unat v1 - dust L"
    using amounts_run(1) [of ?acs v1] 1(2) assms(3) by (fastforce simp: dust_def)
  obtain v3 where 3: "amount_sub v2 (kickoff_tx_min_relay_fee num) = Ok v3"
    using amounts_run(1) [of "kickoff_tx_min_relay_fee num" v2] 1(2) 2(2) assms(3) by fastforce
  have "\<exists>unsigned. create_kickoff_utxo_tx L funding nofn operator network num = Ok unsigned"
    using a 1(1) 2(1) 3 by (simp add: create_kickoff_utxo_tx_def Let_def)
  then obtain unsigned where u: "create_kickoff_utxo_tx L funding nofn operator network num = Ok unsigned"
    by blast
  have "unat num < 2 ^ 40"
    using assms(2) by simp
  from create_kickoff_utxo_tx_eq [OF u this] u show ?thesis
    by (metis that)
qed

lemma kickoff_tx_signed:
  assumes "key_sighash_total L" "txid_ignores_witness L"
    and "List.map txin_previous_output (btc_input (handler_tx draft)) = [k]" "handler_prevouts draft = [v]"
    and "add_xonly_tweak L (actor_keypair signer) (tap_tweak_hash L (actor_xonly signer) None) \<noteq> None"
  obtains sig h where "sign_taproot_pubkey_spend L aux signer draft 0 None = Ok sig"
    "handle_taproot_witness_new L draft [sig] 0 None = Ok h"
    "compute_txid L (handler_tx h) = compute_txid L (handler_tx draft)"
proof -
  have len: "length (btc_input (handler_tx draft)) = 1"
    using arg_cong [OF assms(3), of length] by simp
  then obtain sighash where "key_spend_signature_hash L (handler_tx draft) 0
      (All_Prevouts (handler_prevouts draft)) Default = Some sighash"
    using assms(1,4) unfolding key_sighash_total_def by (metis length_Cons list.size(3) less_one not_None_eq One_nat_def)
  with assms(5) obtain sig where sig: "sign_taproot_pubkey_spend L aux signer draft 0 None = Ok sig"
    by (auto simp: sign_taproot_pubkey_spend_def prevouts_for_def sighash_type_or_default_def sign_with_tweak_def)
  have "\<exists>h. handle_taproot_witness_new L draft [sig] 0 None = Ok h"
    using len by (simp add: handle_taproot_witness_new_def)
  then obtain h where "handle_taproot_witness_new L draft [sig] 0 None = Ok h"
    by blast
  from sig this handle_witness_txid [OF assms(2) this] show ?thesis
    by (rule that)
qed

lemma create_kickoffs_progress:
  assumes "world_faults w = []" "kickoff_of (world_db w) k = None"
    and num: "unat (cfg_operator_num_kickoff_utxos_per_tx (operator_config self)) < 2 ^ 31"
      "1 \<le> unat (cfg_operator_num_kickoff_utxos_per_tx (operator_config self))"
    and fund: "funding_utxos (world_db w) \<noteq> []"
      "unat (KICKOFF_UTXO_AMOUNT_SATS * cfg_operator_num_kickoff_utxos_per_tx (operator_config self) +
        kickoff_tx_min_relay_fee (cfg_operator_num_kickoff_utxos_per_tx (operator_config self)) + 330) \<le>
        unat (txout_value (utxo_txout (last (funding_utxos (world_db w)))))"
    and aux: "random_bytes N 32 (world_node w) = (aux, n)"
    and u: "create_kickoff_utxo_tx L (last (funding_utxos (world_db w))) (operator_nofn_xonly_pk self)
        (actor_xonly (operator_signer self)) (cfg_network (operator_config self))
        (cfg_operator_num_kickoff_utxos_per_tx (operator_config self)) = Ok draft"
      "sign_taproot_pubkey_spend L aux (operator_signer self) draft 0 None = Ok sig"
      "handle_taproot_witness_new L draft [sig] 0 None = Ok h"
    and fresh: "compute_txid L (handler_tx h) \<notin> gen_txid ` set (deposit_kickoff_generator_txs (world_db w))"
  shows "\<exists>u w'. create_kickoffs L N self k w = (Ok u, w') \<and> world_faults w' = []"
proof -
  let ?num = "cfg_operator_num_kickoff_utxos_per_tx (operator_config self)"
  let ?funding = "last (funding_utxos (world_db w))" and ?tx = "handler_tx h"
  define v where "v = w\<lparr>world_node := n\<rparr>"
  have v: "draw_aux N w = (Ok aux, v)" "world_faults v = []" "kickoff_of (world_db v) k = None" "world_db v = world_db w"
    using assms(1,2) aux by (simp_all add: draw_aux_def call_def v_def)
  have "signed_kickoff_tx L self ?funding h"
    using u by (auto simp: signed_kickoff_tx_def)
  then have len: "length (btc_output ?tx) = unat ?num + 2"
    using signed_kickoff_outputs [OF _ num(1)] by metis
  have get: "get_funding_utxo w = (Ok (Some ?funding), w)"
    using assms(1) fund(1)
    by (simp add: get_funding_utxo_def ask_def run_sql_no_fault sql_get_funding_utxo_def optional_row_def)
  have enough: "\<not> txout_value (utxo_txout ?funding) < KICKOFF_UTXO_AMOUNT_SATS * ?num +
      (if ?num \<le> 250 then 154 + 43 * ?num else 156 + 43 * ?num) + 330"
    using fund(2) by (simp only: kickoff_tx_min_relay_fee_def word_less_nat_alt not_less)
  obtain d where s: "save_kickoff_utxo k u v = (Ok (), v\<lparr>world_db := d u\<rparr>) \<and>
      deposit_kickoff_generator_txs (d u) = deposit_kickoff_generator_txs (world_db v)" for u
    using save_kickoff_utxo_no_fault [OF v(2,3)] by metis
  have "0 < nat (uint ?num)"
    using num(2) by (simp only: nat_uint_eq)
  then have i32: "1 \<le> i32_of_usize ?num"
    using i32_of_usize_small(1) [OF num(1)] by (simp del: nat_uint_eq)
  have add: "\<exists>d'. add_deposit_kickoff_generator_tx (compute_txid L ?tx) raw ?num f (v\<lparr>world_db := d u\<rparr>) =
      (Ok (), v\<lparr>world_db := d'\<rparr>)" for u raw f
    using v(2,4) i32 fresh s [of u]
    by (simp add: add_deposit_kickoff_generator_tx_def query_no_fault sql_add_generator_tx_def)
      (rule exI, rule refl)
  have set: "\<exists>d'. Bridge_Database.set_funding_utxo u (v\<lparr>world_db := d''\<rparr>) = (Ok (), v\<lparr>world_db := d'\<rparr>)" for u d''
    using v(2) by (simp add: set_funding_utxo_def query_no_fault sql_set_funding_utxo_def)
      (rule exI, rule refl)
  let ?kickoff = "output_utxo L ?tx 0"
  obtain d1 where d1: "add_deposit_kickoff_generator_tx (compute_txid L ?tx) (raw_hex L ?tx) ?num
      (op_txid (utxo_outpoint ?funding)) (v\<lparr>world_db := d ?kickoff\<rparr>) = (Ok (), v\<lparr>world_db := d1\<rparr>)"
    using add by blast
  obtain d2 where d2: "Bridge_Database.set_funding_utxo (output_utxo L ?tx ?num) (v\<lparr>world_db := d1\<rparr>) =
      (Ok (), v\<lparr>world_db := d2\<rparr>)"
    using set by blast
  have "create_kickoffs L N self k w = (Ok ?kickoff, v\<lparr>world_db := d2\<rparr>)"
    unfolding create_kickoffs_def Let_def
    using get enough v(1) u len s [of ?kickoff] d1 d2 by (simp add: ask_def output_utxo_def lift_def)
  with v(2) show ?thesis
    by auto
qed

lemma get_unused_none:
  assumes "world_faults w = []" "\<not> (\<exists>row \<in> set (deposit_kickoff_generator_txs (world_db w)). has_unused row)"
  shows "get_unused_kickoff_utxo_and_increase_idx L w = (Ok None, w)"
proof -
  have "update_last has_unused f (deposit_kickoff_generator_txs (world_db w)) = None" for f
    using assms(2) by (simp add: update_last_None)
  with assms(1) show ?thesis
    by (simp add: get_unused_kickoff_utxo_and_increase_idx_def ask_def run_sql_no_fault
        sql_increase_unused_def unused_kickoff_result_def)
qed

lemma get_unused_some:
  assumes "world_faults w = []" "\<exists>row \<in> set (deposit_kickoff_generator_txs (world_db w)). has_unused row"
    and inv: "outputs_inv L self (world_db w)" and L: "tx_roundtrip L"
    and num: "unat (cfg_operator_num_kickoff_utxos_per_tx (operator_config self)) < 2 ^ 31"
  shows "\<exists>u d. get_unused_kickoff_utxo_and_increase_idx L w = (Ok (Some u), w\<lparr>world_db := d\<rparr>) \<and>
    kickoff_of d = kickoff_of (world_db w)"
proof -
  let ?rows = "deposit_kickoff_generator_txs (world_db w)"
  let ?num = "cfg_operator_num_kickoff_utxos_per_tx (operator_config self)"
  have "update_last has_unused next_unused ?rows \<noteq> None"
    using assms(2) by (simp add: update_last_None)
  then obtain row' rows' where up: "update_last has_unused next_unused ?rows = Some (row', rows')"
    by auto
  from update_last_Some [OF up] obtain i where i: "i < length ?rows" "has_unused (?rows ! i)"
    "row' = next_unused (?rows ! i)"
    by blast
  let ?row = "?rows ! i" and ?c = "gen_cur_unused (?rows ! i)"
  have row: "?row \<in> set ?rows"
    using i by simp
  obtain funding h where h: "signed_kickoff_tx L self funding h" "gen_raw_signed_tx ?row = raw_hex L (handler_tx h)"
    "gen_num_kickoffs ?row = i32_of_usize ?num"
    using inv row unfolding outputs_inv_def row_of_signed_def by blast
  have c: "1 \<le> ?c" "?c < gen_num_kickoffs ?row" "gen_num_kickoffs ?row < 2 ^ 31"
    using inv row i unfolding outputs_inv_def operator_inv_def generators_ok_def has_unused_def by auto
  obtain raw where raw: "hex_decode L (raw_hex L (handler_tx h)) = Some raw" "deserialize_tx L raw = Some (handler_tx h)"
    using L unfolding tx_roundtrip_def by blast
  have idx: "unat (word_of_int (?c + 1) - 1 :: u64) = nat ?c"
    using c by (intro unused_index) auto
  have "nat ?c < nat (uint ?num)"
    using c h(3) i32_of_usize_small(1) [OF num] by (simp del: nat_uint_eq)
  moreover have "length (btc_output (handler_tx h)) = unat ?num + 2"
    using signed_kickoff_outputs [OF h(1) num] by metis
  ultimately have in_range: "nat ?c < length (btc_output (handler_tx h))"
    by (simp only: nat_uint_eq)
  let ?d = "(world_db w)\<lparr>deposit_kickoff_generator_txs := rows'\<rparr>"
  have "sql_increase_unused (world_db w) = (Inr (gen_txid ?row, raw_hex L (handler_tx h), ?c + 1), ?d)"
    using up i(3) c(2) h(2) unfolding next_unused_def [abs_def]
    by (simp add: sql_increase_unused_def)
  then have run: "run_sql sql_increase_unused w =
      (Ok (Inr (gen_txid ?row, raw_hex L (handler_tx h), ?c + 1)), w\<lparr>world_db := ?d\<rparr>)"
    using assms(1) by (simp add: run_sql_no_fault)
  let ?u = "\<lparr>utxo_outpoint = \<lparr>op_txid = gen_txid ?row, op_vout = word_of_int (?c + 1) - 1\<rparr>,
    utxo_txout = btc_output (handler_tx h) ! nat ?c\<rparr>"
  have "unused_kickoff_result L (Inr (gen_txid ?row, raw_hex L (handler_tx h), ?c + 1)) (w\<lparr>world_db := ?d\<rparr>) =
      (Ok (Some ?u), w\<lparr>world_db := ?d\<rparr>)"
    unfolding unused_kickoff_result_Inr using raw idx in_range by auto
  with run have "get_unused_kickoff_utxo_and_increase_idx L w = (Ok (Some ?u), w\<lparr>world_db := ?d\<rparr>)"
    by (simp add: get_unused_kickoff_utxo_and_increase_idx_def ask_def)
  then show ?thesis
    by (auto simp: kickoff_of_def)
qed

lemma assign_kickoff_progress:
  assumes faults: "world_faults w = []" and serve: "can_serve L self (world_db w) k"
    and inv: "outputs_inv L self (world_db w)" and L: "tx_roundtrip L"
    and num: "unat (cfg_operator_num_kickoff_utxos_per_tx (operator_config self)) < 2 ^ 31"
    and laws: "txid_ignores_witness L" "key_sighash_total L" "single_leaf_trees L"
  shows "\<exists>u w'. assign_kickoff L N self k w = (Ok u, w') \<and> world_faults w' = []"
proof (cases "kickoff_of (world_db w) k")
  case (Some u)
  with faults show ?thesis
    by (simp add: assign_kickoff_def ask_def lock_no_fault get_kickoff_utxo_no_fault)
next
  case None
  note start = None faults
  show ?thesis
  proof (cases "\<exists>row \<in> set (deposit_kickoff_generator_txs (world_db w)). has_unused row")
    case True
    obtain u d where u: "get_unused_kickoff_utxo_and_increase_idx L w = (Ok (Some u), w\<lparr>world_db := d\<rparr>)"
      "kickoff_of d = kickoff_of (world_db w)"
      using get_unused_some [OF faults True inv L num] by blast
    obtain d' where "save_kickoff_utxo k u (w\<lparr>world_db := d\<rparr>) = (Ok (), w\<lparr>world_db := d'\<rparr>)"
      using save_kickoff_utxo_no_fault [of "w\<lparr>world_db := d\<rparr>" k u] u(2) start by auto
    with u(1) start show ?thesis
      by (simp add: assign_kickoff_def ask_def lock_no_fault get_kickoff_utxo_no_fault)
  next
    case False
    let ?num = "cfg_operator_num_kickoff_utxos_per_tx (operator_config self)" and ?signer = "operator_signer self"
    let ?funding = "last (funding_utxos (world_db w))"
    from serve None False have
      fund: "funding_utxos (world_db w) \<noteq> []" and one: "1 \<le> unat ?num"
      and amount: "100000 * unat ?num + (if unat ?num \<le> 250 then 154 else 156) + 43 * unat ?num +
        max 330 (dust L) \<le> unat (txout_value (utxo_txout ?funding))"
      and tweak: "add_xonly_tweak L (actor_keypair ?signer) (tap_tweak_hash L (actor_xonly ?signer) None) \<noteq> None"
      and fresh: "\<And>h. create_kickoff_utxo_tx L ?funding (operator_nofn_xonly_pk self) (actor_xonly ?signer)
         (cfg_network (operator_config self)) ?num = Ok h \<Longrightarrow>
        compute_txid L (handler_tx h) \<notin> gen_txid ` set (deposit_kickoff_generator_txs (world_db w))"
      unfolding can_serve_def Let_def by blast+
    have fee: "unat (kickoff_tx_min_relay_fee ?num) = (if unat ?num \<le> 250 then 154 else 156) + 43 * unat ?num"
      using num by (intro kickoff_tx_min_relay_fee_value) simp
    have "100000 * unat ?num + unat (kickoff_tx_min_relay_fee ?num) + dust L \<le> unat (txout_value (utxo_txout ?funding))"
      using amount unfolding fee by linarith
    from create_kickoff_utxo_tx_runs [OF laws(3) num this] obtain draft where
      u: "create_kickoff_utxo_tx L ?funding (operator_nofn_xonly_pk self) (actor_xonly ?signer)
        (cfg_network (operator_config self)) ?num = Ok draft"
      "List.map txin_previous_output (btc_input (handler_tx draft)) = [utxo_outpoint ?funding]"
      "handler_prevouts draft = [utxo_txout ?funding]" .
    obtain aux n where aux: "random_bytes N 32 (world_node w) = (aux, n)"
      by (meson prod.exhaust)
    from kickoff_tx_signed [OF laws(2,1) u(2,3) tweak] obtain sig h where
      h: "sign_taproot_pubkey_spend L aux ?signer draft 0 None = Ok sig"
        "handle_taproot_witness_new L draft [sig] 0 None = Ok h"
        "compute_txid L (handler_tx h) = compute_txid L (handler_tx draft)" .
    have "100000 * unat ?num + (if unat ?num \<le> 250 then 154 else 156) + 43 * unat ?num + 330 \<le>
        unat (txout_value (utxo_txout ?funding))"
      using amount by linarith
    from create_kickoffs_progress [OF faults None num one fund this [folded fee_bound [OF num]] aux u(1) h(1,2)]
      fresh [OF u(1)] h(3)
    obtain u w' where "create_kickoffs L N self k w = (Ok u, w')" "world_faults w' = []"
      by auto
    with start show ?thesis
      by (simp add: assign_kickoff_def ask_def lock_no_fault get_kickoff_utxo_no_fault get_unused_none [OF faults False])
  qed
qed

text \<open>
  C9. A deposit is served: when no message is lost, the chain confirms the deposit as
  \<open>check_deposit_utxo\<close> demands, and the operator has an assigned or an unused kickoff output or a
  funding output that is worth new ones, then at every point of a run the request returns a kickoff
  output with the operator's signature. The transaction for new outputs is then made, signed and
  recorded, unless one that spends the same funding output in the same way is recorded already.
\<close>

theorem operator_new_deposit_progress:
  assumes "operator_run L N self w0 w" "world_db w0 = empty_database" "tx_roundtrip L"
    and "unat (cfg_operator_num_kickoff_utxos_per_tx (operator_config self)) < 2 ^ 31"
    and "txid_ignores_witness L" "key_sighash_total L" "single_leaf_trees L"
    and "world_faults w = []" "can_serve L self (world_db w) k"
    and "deposit_facts L N (operator_nofn_xonly_pk self) k recovery evm
      (cfg_bridge_amount_sats (operator_config self)) (cfg_confirmation_threshold (operator_config self))
      (cfg_network (operator_config self)) (cfg_user_takes_after (operator_config self)) (world_node w) n"
  shows "\<exists>u aux w'. operator_new_deposit L N self k recovery evm w =
    (Ok (u, sign L aux (operator_signer self) (kickoff_sig_hash L k (utxo_outpoint u))), w')"
proof -
  let ?w = "w\<lparr>world_node := n\<rparr>"
  have c: "check_deposit_utxo L N (operator_nofn_xonly_pk self) k recovery evm
      (cfg_bridge_amount_sats (operator_config self)) (cfg_confirmation_threshold (operator_config self))
      (cfg_network (operator_config self)) (cfg_user_takes_after (operator_config self)) w = (Ok (), ?w)"
    using assms(10) by (simp add: check_deposit_utxo_eq_Ok)
  have "outputs_inv L self (world_db w)"
    using operator_run_outputs [OF assms(1) _ assms(3,4)] outputs_inv_empty [of L self] assms(2) by metis
  then have "outputs_inv L self (world_db ?w)"
    by simp
  from assign_kickoff_progress [OF _ _ this assms(3,4,5,6,7), of k N] assms(8,9)
  obtain u w' where "assign_kickoff L N self k ?w = (Ok u, w')" "world_faults w' = []"
    by auto
  then have "in_dbtx (assign_kickoff L N self k) ?w = (Ok u, w')"
    using assms(8) by (intro in_dbtx_no_fault) simp_all
  with c show ?thesis
    by (simp add: operator_new_deposit_def draw_aux_def call_def ask_def lift_def Let_def split: prod.splits) blast
qed

text \<open>The example operator after it started: no kickoff outputs yet, a funding output that pays for them.\<close>

lemma started_world_ready:
  "world_faults started_world = []"
  "funding_utxos (world_db started_world) \<noteq> []"
  "txout_value (utxo_txout (last (funding_utxos (world_db started_world)))) = 200000000"
  "deposit_kickoff_generator_txs (world_db started_world) = []"
  by code_simp+

lemma started_serves: "can_serve example_lib example_operator (world_db started_world) (deposit_at 0)"
proof -
  have "dust example_lib = 330"
    by (simp add: dust_def anyone_can_spend_txout_def example_lib_def ex_defs Let_def)
  with started_world_ready show ?thesis
    by (simp add: can_serve_def Let_def example_operator_def example_config_def)
      (simp add: example_lib_def ex_defs)
qed

lemma started_config:
  "operator_nofn_xonly_pk example_operator = example_nofn"
  "cfg_bridge_amount_sats (operator_config example_operator) = 100000000"
  "cfg_confirmation_threshold (operator_config example_operator) = 1"
  "cfg_network (operator_config example_operator) = Regtest"
  "cfg_user_takes_after (operator_config example_operator) = 5"
  by (simp_all add: example_operator_def example_config_def)

lemma started_deposit:
  "\<exists>n. deposit_facts example_lib example_node (operator_nofn_xonly_pk example_operator) (deposit_at 0)
    example_recovery example_evm (cfg_bridge_amount_sats (operator_config example_operator))
    (cfg_confirmation_threshold (operator_config example_operator))
    (cfg_network (operator_config example_operator))
    (cfg_user_takes_after (operator_config example_operator)) (world_node started_world) n"
proof -
  have "is_Ok (fst (check_deposit_utxo example_lib example_node example_nofn (deposit_at 0)
      example_recovery example_evm 100000000 1 Regtest 5 started_world))"
    by code_simp
  then show ?thesis
    unfolding is_Ok_iff
    by (metis (no_types, lifting) started_config check_deposit_utxo_eq_Ok prod.collapse)
qed

theorem operator_new_deposit_progress_witness:
  "\<exists>u aux w'. operator_new_deposit example_lib example_node example_operator (deposit_at 0) example_recovery
    example_evm started_world = (Ok (u, sign example_lib aux (operator_signer example_operator)
      (kickoff_sig_hash example_lib (deposit_at 0) (utxo_outpoint u))), w')"
proof -
  have start: "world_db start_world = empty_database"
    and num: "unat (cfg_operator_num_kickoff_utxos_per_tx (operator_config example_operator)) < 2 ^ 31"
    by (simp_all add: start_world_def example_operator_def example_config_def)
  from started_deposit obtain n where "deposit_facts example_lib example_node
    (operator_nofn_xonly_pk example_operator) (deposit_at 0) example_recovery example_evm
    (cfg_bridge_amount_sats (operator_config example_operator))
    (cfg_confirmation_threshold (operator_config example_operator))
    (cfg_network (operator_config example_operator))
    (cfg_user_takes_after (operator_config example_operator)) (world_node started_world) n" ..
  from operator_new_deposit_progress [OF started_reached start example_lib_roundtrip num
      example_lib_txid example_lib_builds started_world_ready(1) started_serves this]
  show ?thesis .
qed

end
