(* ===== verification/Nonce_Table.thy ===== *)
theory Nonce_Table
  imports Bridge_Database
begin

text \<open>
  The table \<open>nonces\<close> of a verifier and the statements of \<open>core/src/database/common.rs\<close> on it: what a
  row keeps for ever, how a row is found by its key, and which rows a statement hands out for
  signing.
\<close>

section \<open>What a row keeps\<close>

text \<open>
  A row of the table of nonces keeps its key and its nonce pair for ever, and its signature hash once
  it has one: the secret nonce of a row can only ever be asked to sign one message.
\<close>

definition nonce_row_kept :: "nonce_row \<Rightarrow> nonce_row \<Rightarrow> bool" where
  "nonce_row_kept row row' \<longleftrightarrow> nonce_key row' = nonce_key row \<and> nonce_sec row' = nonce_sec row \<and>
    nonce_pub row' = nonce_pub row \<and> (nonce_sighash row \<noteq> None \<longrightarrow> nonce_sighash row' = nonce_sighash row)"

definition extends_rows :: "nonce_row list \<Rightarrow> nonce_row list \<Rightarrow> nonce_row list \<Rightarrow> bool" where
  "extends_rows old rows new \<longleftrightarrow> list_all2 nonce_row_kept old rows \<and>
    (\<forall>row \<in> set new. nonce_key row \<notin> nonce_key ` set old) \<and> distinct (List.map nonce_key new)"

definition nonces_kept :: "database \<Rightarrow> database \<Rightarrow> bool" where
  "nonces_kept d d' \<longleftrightarrow> (\<exists>rows new. nonces d' = rows @ new \<and> extends_rows (nonces d) rows new)"

lemma nonce_row_kept_refl [simp]: "nonce_row_kept row row"
  by (simp add: nonce_row_kept_def)

lemma nonce_row_kept_trans:
  "nonce_row_kept r1 r2 \<Longrightarrow> nonce_row_kept r2 r3 \<Longrightarrow> nonce_row_kept r1 r3"
  by (simp add: nonce_row_kept_def)

lemma rows_kept_trans:
  "list_all2 nonce_row_kept r1 r2 \<Longrightarrow> list_all2 nonce_row_kept r2 r3 \<Longrightarrow> list_all2 nonce_row_kept r1 r3"
  using nonce_row_kept_trans by (auto simp: list_all2_conv_all_nth)

lemma list_all2_kept_refl [simp]: "list_all2 nonce_row_kept rows rows"
  by (simp add: list_all2_refl)

lemma kept_keys: "list_all2 nonce_row_kept rows rows' \<Longrightarrow> List.map nonce_key rows' = List.map nonce_key rows"
  by (induction rule: list_all2_induct) (auto simp: nonce_row_kept_def)

lemma kept_keys_set: "list_all2 nonce_row_kept rows rows' \<Longrightarrow> nonce_key ` set rows' = nonce_key ` set rows"
  by (metis kept_keys list.set_map)

lemma extends_rows_fresh:
  "distinct (List.map nonce_key new) \<Longrightarrow> \<forall>row \<in> set new. nonce_key row \<notin> nonce_key ` set old \<Longrightarrow>
    extends_rows old old new"
  by (simp add: extends_rows_def)

lemma nonces_kept_same: "nonces d' = nonces d \<Longrightarrow> nonces_kept d d'"
  unfolding nonces_kept_def extends_rows_def by (intro exI [of _ "nonces d"] exI [of _ "[]"]) simp

lemma nonces_kept_trans:
  assumes "nonces_kept d1 d2" "nonces_kept d2 d3"
  shows "nonces_kept d1 d3"
proof -
  obtain rows new where 12: "nonces d2 = rows @ new" and n: "extends_rows (nonces d1) rows new"
    using assms(1) unfolding nonces_kept_def by blast
  obtain rows' new' where 23: "nonces d3 = rows' @ new'" and n': "extends_rows (rows @ new) rows' new'"
    using assms(2) unfolding nonces_kept_def 12 by blast
  from n' have "list_all2 nonce_row_kept (rows @ new) rows'"
    by (simp add: extends_rows_def)
  then obtain a b where ab: "rows' = a @ b" "list_all2 nonce_row_kept rows a"
      "list_all2 nonce_row_kept new b"
    unfolding list_all2_append1 by (elim exE conjE) (rule that)
  have "list_all2 nonce_row_kept (nonces d1) a"
    using n ab(2) rows_kept_trans unfolding extends_rows_def by blast
  moreover have "\<forall>row \<in> set (b @ new'). nonce_key row \<notin> nonce_key ` set (nonces d1)"
  proof
    fix row assume "row \<in> set (b @ new')"
    then consider (old) "nonce_key row \<in> nonce_key ` set new" | (fresh) "row \<in> set new'"
      using kept_keys_set [OF ab(3)] by auto
    then show "nonce_key row \<notin> nonce_key ` set (nonces d1)"
    proof cases
      case old
      with n show ?thesis
        unfolding extends_rows_def by (metis imageE)
    next
      case fresh
      then have "nonce_key row \<notin> nonce_key ` set rows"
        using n' unfolding extends_rows_def by (simp add: image_Un)
      moreover have "nonce_key ` set rows = nonce_key ` set (nonces d1)"
        using n unfolding extends_rows_def by (simp add: kept_keys_set)
      ultimately show ?thesis
        by simp
    qed
  qed
  moreover have "distinct (List.map nonce_key (b @ new'))"
  proof -
    have "nonce_key x \<noteq> nonce_key y" if "x \<in> set new" "y \<in> set new'" for x y
      using n' that unfolding extends_rows_def by (metis Un_iff image_eqI set_append)
    then have "set (List.map nonce_key new) \<inter> set (List.map nonce_key new') = {}"
      by (simp add: disjoint_iff_not_equal)
    with n n' show ?thesis
      unfolding extends_rows_def map_append distinct_append kept_keys [OF ab(3)] by blast
  qed
  ultimately show ?thesis
    using 23 ab(1) unfolding nonces_kept_def extends_rows_def
    by (intro exI [of _ a] exI [of _ "b @ new'"]) simp
qed

interpretation nonce_order: db_order nonces_kept
  by unfold_locales (auto intro: nonces_kept_same nonces_kept_trans)

text \<open>The keys of a kept table stay distinct, and every old row is still there.\<close>

lemma nonces_kept_distinct:
  assumes "nonces_kept d d'" "distinct (List.map nonce_key (nonces d))"
  shows "distinct (List.map nonce_key (nonces d'))"
proof -
  obtain rows new where "nonces d' = rows @ new" and n: "extends_rows (nonces d) rows new"
    using assms(1) unfolding nonces_kept_def by blast
  then show ?thesis
    using assms(2) kept_keys [of "nonces d" rows] kept_keys_set [of "nonces d" rows]
    unfolding extends_rows_def by auto
qed

lemma nonces_kept_row:
  assumes "nonces_kept d d'" "row \<in> set (nonces d)"
  shows "\<exists>row' \<in> set (nonces d'). nonce_row_kept row row'"
proof -
  from assms obtain rows new where "nonces d' = rows @ new" "list_all2 nonce_row_kept (nonces d) rows"
    unfolding nonces_kept_def extends_rows_def by blast
  with assms(2) show ?thesis
    by (fastforce simp: list_all2_conv_all_nth in_set_conv_nth)
qed

lemma update_nonces_kept:
  assumes "\<And>row. nonce_key (f row) = nonce_key row \<and> nonce_sec (f row) = nonce_sec row \<and>
    nonce_pub (f row) = nonce_pub row"
  shows "nonces_kept d (snd (update_nonces f d))"
proof (cases "\<forall>row \<in> set (nonces d). sighash_update_allowed row (f row)")
  case True
  then have "\<forall>row \<in> set (nonces d). nonce_row_kept row (f row)"
    using assms by (auto simp: nonce_row_kept_def sighash_update_allowed_def)
  then have "extends_rows (nonces d) (List.map f (nonces d)) []"
    by (simp add: extends_rows_def list_all2_conv_all_nth)
  with True show ?thesis
    by (simp add: update_nonces_def nonces_kept_def) (metis append_Nil2)
next
  case False
  then show ?thesis
    by (auto simp: update_nonces_def intro: nonces_kept_same)
qed

lemma set_sighash_simps [simp]:
  "nonce_key (set_sighash k batch row) = nonce_key row"
  "nonce_deposit (set_sighash k batch row) = nonce_deposit row"
  "nonce_idx (set_sighash k batch row) = nonce_idx row"
  "nonce_sec (set_sighash k batch row) = nonce_sec row"
  "nonce_pub (set_sighash k batch row) = nonce_pub row"
  "nonce_agg (set_sighash k batch row) = nonce_agg row"
  by (auto simp: set_sighash_def nonce_key_def split: option.splits)

lemma set_agg_nonce_simps [simp]:
  "nonce_key (set_agg_nonce k batch row) = nonce_key row"
  "nonce_deposit (set_agg_nonce k batch row) = nonce_deposit row"
  "nonce_idx (set_agg_nonce k batch row) = nonce_idx row"
  "nonce_sec (set_agg_nonce k batch row) = nonce_sec row"
  "nonce_pub (set_agg_nonce k batch row) = nonce_pub row"
  "nonce_sighash (set_agg_nonce k batch row) = nonce_sighash row"
  by (auto simp: set_agg_nonce_def nonce_key_def split: option.splits)

lemma batch_of_simps [simp]:
  "fst ` set (batch_of xs) = {..<length xs}" "List.map fst (batch_of xs) = [0..<length xs]"
  "length (batch_of xs) = length xs"
proof -
  show "List.map fst (batch_of xs) = [0..<length xs]"
    by (simp add: batch_of_def)
  then show "fst ` set (batch_of xs) = {..<length xs}"
    by (metis list.set_map set_upt atLeast0LessThan)
qed (simp add: batch_of_def)

lemma nonces_kept_statements [simp]:
  "nonces_kept d (snd (sql_save_nonces k pairs d))"
  "nonces_kept d (snd (sql_save_sighashes_and_get_nonces k i sighashes d))"
  "nonces_kept d (snd (sql_save_agg_nonces k agg_nonces d))"
proof -
  have "List.map nonce_key (List.map (nonce_row_of k) (batch_of pairs)) = List.map (Pair k) [0..<length pairs]"
    by (auto simp: batch_of_def nonce_row_of_def nonce_key_def split_beta intro!: nth_equalityI)
  then have "distinct (List.map nonce_key (List.map (nonce_row_of k) (batch_of pairs)))"
    by (simp add: distinct_map inj_on_def)
  then have "extends_rows (nonces d) (nonces d) (List.map (nonce_row_of k) (batch_of pairs))"
    if "\<not> (\<exists>row \<in> set (List.map (nonce_row_of k) (batch_of pairs)). nonce_key row \<in> nonce_key ` set (nonces d))"
    using that by (intro extends_rows_fresh) blast+
  note new = this
  have "nonces_kept d (d\<lparr>nonces := nonces d @ rows\<rparr>)" if "extends_rows (nonces d) (nonces d) rows" for rows
    using that unfolding nonces_kept_def by auto
  with new show "nonces_kept d (snd (sql_save_nonces k pairs d))"
    by (simp only: sql_save_nonces_def Let_def split: if_split) (simp add: nonces_kept_same)
  show "nonces_kept d (snd (sql_save_agg_nonces k agg_nonces d))"
    by (simp add: sql_save_agg_nonces_def nonces_kept_same update_nonces_kept)
  show "nonces_kept d (snd (sql_save_sighashes_and_get_nonces k i sighashes d))"
    using update_nonces_kept [of "set_sighash k (List.map (\<lambda>(i', sighash). (i + i', sighash)) (batch_of sighashes))" d]
    by (auto simp: sql_save_sighashes_and_get_nonces_def Let_def nonces_kept_same
        split: prod.splits sum.splits option.splits)
qed

section \<open>Rows by key\<close>

lemma sort_key_Nil [simp]: "sort_key f xs = [] \<longleftrightarrow> xs = []"
  by (metis set_empty set_sort)

definition nonce_of :: "database \<Rightarrow> outpoint \<Rightarrow> nat \<Rightarrow> nonce_row option" where
  "nonce_of d k i = find (\<lambda>row. nonce_key row = (k, i)) (nonces d)"

text \<open>The indices that a deposit has rows for.\<close>

definition nonce_idxs :: "database \<Rightarrow> outpoint \<Rightarrow> nat set" where
  "nonce_idxs d k = nonce_idx ` {row \<in> set (nonces d). nonce_deposit row = k}"

abbreviation distinct_keys :: "database \<Rightarrow> bool" where
  "distinct_keys d \<equiv> distinct (List.map nonce_key (nonces d))"

lemma nonce_key_eq: "nonce_key row = (k, i) \<longleftrightarrow> nonce_deposit row = k \<and> nonce_idx row = i"
  by (auto simp: nonce_key_def)

lemma nonce_idxs_keys: "nonce_idxs d k = {i. (k, i) \<in> nonce_key ` set (nonces d)}"
  by (force simp: nonce_idxs_def nonce_key_def)

lemma nonce_of_Some_iff:
  assumes "distinct_keys d"
  shows "nonce_of d k i = Some row \<longleftrightarrow> row \<in> set (nonces d) \<and> nonce_key row = (k, i)"
proof
  assume "nonce_of d k i = Some row"
  then show "row \<in> set (nonces d) \<and> nonce_key row = (k, i)"
    unfolding nonce_of_def find_Some_iff by (auto simp: nth_mem)
next
  assume r: "row \<in> set (nonces d) \<and> nonce_key row = (k, i)"
  then obtain row' where row': "nonce_of d k i = Some row'"
    unfolding nonce_of_def by (cases "find (\<lambda>row. nonce_key row = (k, i)) (nonces d)") (auto simp: find_None_iff)
  then have "row' \<in> set (nonces d)" "nonce_key row' = (k, i)"
    unfolding nonce_of_def find_Some_iff by (auto simp: nth_mem)
  with assms r have "row' = row"
    unfolding distinct_map by (metis inj_onD)
  with row' show "nonce_of d k i = Some row"
    by simp
qed

lemma nonce_of_None_iff: "nonce_of d k i = None \<longleftrightarrow> i \<notin> nonce_idxs d k"
  unfolding nonce_of_def find_None_iff nonce_idxs_keys by (force simp: image_iff)

lemma nonce_of_key: "nonce_of d k i = Some row \<Longrightarrow> nonce_deposit row = k \<and> nonce_idx row = i"
  unfolding nonce_of_def find_Some_iff by (auto simp: nonce_key_eq)

text \<open>The rows of a deposit with given indices, in the order of the statements.\<close>

lemma filter_nonce_rows:
  assumes d: "distinct_keys d" and I: "sorted idxs" "distinct idxs" "set idxs = nonce_idxs d k \<inter> Collect P"
  shows "filter (\<lambda>row. P (nonce_idx row)) (nonce_rows k d) = List.map (\<lambda>i. the (nonce_of d k i)) idxs"
proof -
  let ?rows = "filter (\<lambda>row. P (nonce_idx row)) (nonce_rows k d)"
  have mem: "row \<in> set ?rows \<longleftrightarrow> row \<in> set (nonces d) \<and> nonce_deposit row = k \<and> P (nonce_idx row)" for row
    by (auto simp: nonce_rows_def)
  have "sorted (List.map nonce_idx ?rows)"
    unfolding nonce_rows_def by (simp add: sorted_filter)
  moreover have "distinct (List.map nonce_idx ?rows)"
  proof -
    have "distinct (nonce_rows k d)"
      using d by (simp add: nonce_rows_def distinct_map)
    moreover have "inj_on nonce_idx (set ?rows)"
      using d mem by (auto simp: distinct_map inj_on_def nonce_key_def)
    ultimately show ?thesis
      by (simp add: distinct_map)
  qed
  moreover have "set (List.map nonce_idx ?rows) = set idxs"
    using mem unfolding I(3) nonce_idxs_def by force
  ultimately have idx: "List.map nonce_idx ?rows = idxs"
    using I(1,2) by (intro sorted_distinct_set_unique)
  have "?rows = List.map (\<lambda>row. the (nonce_of d k (nonce_idx row))) ?rows"
  proof (rule map_idI [symmetric])
    fix row assume "row \<in> set ?rows"
    then have "nonce_of d k (nonce_idx row) = Some row"
      using mem [of row] nonce_of_Some_iff [OF d] by (simp add: nonce_key_eq)
    then show "the (nonce_of d k (nonce_idx row)) = row"
      by simp
  qed
  also have "\<dots> = List.map (\<lambda>i. the (nonce_of d k i)) (List.map nonce_idx ?rows)"
    by (simp add: comp_def)
  finally show ?thesis
    unfolding idx .
qed

lemma nonces_kept_of:
  assumes "nonces_kept d d'" "distinct_keys d" "nonce_of d k i = Some row"
  shows "\<exists>row'. nonce_of d' k i = Some row' \<and> nonce_row_kept row row'"
proof -
  have row: "row \<in> set (nonces d)" "nonce_key row = (k, i)"
    using assms(2,3) by (simp_all add: nonce_of_Some_iff)
  obtain row' where "row' \<in> set (nonces d')" "nonce_row_kept row row'"
    using nonces_kept_row [OF assms(1) row(1)] by blast
  with row nonces_kept_distinct [OF assms(1,2)] show ?thesis
    by (auto simp: nonce_of_Some_iff nonce_row_kept_def)
qed

section \<open>Signing\<close>

text \<open>Row \<open>i\<close> of a deposit holds a message with the nonces that sign it.\<close>

definition nonce_used :: "database \<Rightarrow> outpoint \<Rightarrow> nat \<Rightarrow> bytes \<Rightarrow> bytes \<times> bytes \<Rightarrow> bool" where
  "nonce_used d k i message pair \<longleftrightarrow> (\<exists>row. nonce_of d k i = Some row \<and>
    nonce_sighash row = Some message \<and> nonce_sec row = fst pair \<and> nonce_agg row = Some (snd pair))"

lemma nonce_of_map:
  assumes "\<And>row. nonce_key (f row) = nonce_key row"
  shows "nonce_of (d\<lparr>nonces := List.map f (nonces d)\<rparr>) k i = map_option f (nonce_of d k i)"
proof -
  have "find (\<lambda>row. nonce_key row = (k, i)) (List.map f rows) =
      map_option f (find (\<lambda>row. nonce_key row = (k, i)) rows)" for rows
    by (induction rows) (auto simp: assms)
  then show ?thesis
    by (simp add: nonce_of_def)
qed

lemma nonce_idxs_map:
  assumes "\<And>row. nonce_key (f row) = nonce_key row"
  shows "nonce_idxs (d\<lparr>nonces := List.map f (nonces d)\<rparr>) k = nonce_idxs d k"
  by (simp add: nonce_idxs_keys image_image assms)

lemma distinct_keys_map:
  assumes "\<And>row. nonce_key (f row) = nonce_key row"
  shows "distinct_keys (d\<lparr>nonces := List.map f (nonces d)\<rparr>) = distinct_keys d"
  by (simp add: comp_def assms)

definition sighash_batch :: "nat \<Rightarrow> bytes list \<Rightarrow> (nat \<times> bytes) list" where
  "sighash_batch index sighashes = List.map (\<lambda>(i, sighash). (index + i, sighash)) (batch_of sighashes)"

lemma sighash_batch_fst: "fst ` set (sighash_batch index sighashes) = {index..<index + length sighashes}"
proof -
  have "fst ` set (sighash_batch index sighashes) = (\<lambda>x. index + fst x) ` set (batch_of sighashes)"
    by (simp add: sighash_batch_def image_image split_beta)
  also have "\<dots> = (+) index ` fst ` set (batch_of sighashes)"
    by (simp only: image_image)
  finally show ?thesis
    by (simp add: lessThan_atLeast0 add.commute)
qed

lemma map_of_sighash_batch:
  assumes "j < length sighashes"
  shows "map_of (sighash_batch index sighashes) (index + j) = Some (sighashes ! j)"
proof -
  have "distinct (List.map fst (sighash_batch index sighashes))"
    by (simp add: sighash_batch_def batch_of_def split_beta comp_def distinct_map inj_on_def
        flip: zip_map1)
  moreover have "(index + j, sighashes ! j) \<in> set (sighash_batch index sighashes)"
    using assms by (force simp: sighash_batch_def batch_of_def in_set_zip)
  ultimately show ?thesis
    by simp
qed

lemma save_sighashes_eq_Ok:
  assumes "save_sighashes_and_get_nonces k index sighashes w = (Ok r, w')"
  obtains pairs where "r = Some pairs" "sighashes \<noteq> []"
    "world_db w' = (world_db w)\<lparr>nonces := List.map (set_sighash k (sighash_batch index sighashes)) (nonces (world_db w))\<rparr>"
    "\<forall>row \<in> set (nonces (world_db w)).
      sighash_update_allowed row (set_sighash k (sighash_batch index sighashes) row)"
    "decode_nonces (filter (\<lambda>row. nonce_idx row \<in> {index..<index + length sighashes})
      (nonce_rows k (world_db w'))) = Some pairs"
proof -
  from assms obtain result where r: "run_sql (sql_save_sighashes_and_get_nonces k index sighashes) w = (Ok result, w')"
    "result = Inl Row_Not_Found \<and> r = None \<or> (\<exists>a. result = Inr a \<and> r = Some a)"
    by (auto simp: save_sighashes_and_get_nonces_def ask_eq_Ok optional_row_eq_Ok)
  from run_sql_eq_Ok [OF r(1)] r(2) that show ?thesis
    unfolding sql_save_sighashes_and_get_nonces_def Let_def sighash_batch_def [symmetric] sighash_batch_fst
      update_nonces_def
    by (auto split: if_splits option.splits)
qed

lemma decode_nonces_Some:
  "decode_nonces rows = Some pairs \<longleftrightarrow>
    list_all2 (\<lambda>row pair. nonce_sec row = fst pair \<and> nonce_agg row = Some (snd pair)) rows pairs"
proof (induction rows arbitrary: pairs)
  case (Cons row rows)
  then show ?case
    by (cases pairs; cases "nonce_agg row"; cases "decode_nonces rows")
      (auto simp: decode_nonces_def)
qed (auto simp: decode_nonces_def)

text \<open>
  When the rows of the deposit are \<open>0..<m\<close>, the message at position \<open>j\<close> of the batch goes to row
  \<open>index + j\<close>, and the nonces of that row come back at position \<open>j\<close>.
\<close>

lemma save_sighashes_used:
  assumes "save_sighashes_and_get_nonces k index sighashes w = (Ok (Some pairs), w')"
    and d: "distinct_keys (world_db w)" and m: "nonce_idxs (world_db w) k = {..<m}"
  shows "length pairs = min (length sighashes) (m - index) \<and>
    (\<forall>j < length pairs. nonce_used (world_db w') k (index + j) (sighashes ! j) (pairs ! j))"
proof -
  let ?batch = "sighash_batch index sighashes" and ?d' = "world_db w'"
  from assms(1) have d': "?d' = (world_db w)\<lparr>nonces := List.map (set_sighash k ?batch) (nonces (world_db w))\<rparr>"
    and dec: "decode_nonces (filter (\<lambda>row. nonce_idx row \<in> {index..<index + length sighashes}) (nonce_rows k ?d')) = Some pairs"
    by (auto elim: save_sighashes_eq_Ok)
  have dist: "distinct_keys ?d'" and idxs: "nonce_idxs ?d' k = {..<m}"
    and of': "\<And>i. nonce_of ?d' k i = map_option (set_sighash k ?batch) (nonce_of (world_db w) k i)"
    unfolding d' using d m by (simp_all only: distinct_keys_map nonce_idxs_map nonce_of_map set_sighash_simps)
  let ?idxs = "[index..<min m (index + length sighashes)]"
  have "filter (\<lambda>row. nonce_idx row \<in> {index..<index + length sighashes}) (nonce_rows k ?d') =
      List.map (\<lambda>i. the (nonce_of ?d' k i)) ?idxs"
    by (rule filter_nonce_rows [OF dist]) (auto simp: idxs)
  with dec have all: "list_all2 (\<lambda>i pair. nonce_sec (the (nonce_of ?d' k i)) = fst pair \<and>
      nonce_agg (the (nonce_of ?d' k i)) = Some (snd pair)) ?idxs pairs"
    by (simp add: decode_nonces_Some list_all2_map1)
  then have len: "length pairs = min m (index + length sighashes) - index"
    by (auto dest: list_all2_lengthD)
  have "nonce_used ?d' k (index + j) (sighashes ! j) (pairs ! j)" if j: "j < length pairs" for j
  proof -
    have jl: "index + j < m" "j < length sighashes"
      using j len by auto
    then obtain row where row: "nonce_of (world_db w) k (index + j) = Some row"
      using m nonce_of_None_iff [of "world_db w" k "index + j"] by auto
    then have "nonce_deposit row = k" "nonce_idx row = index + j"
      by (simp_all add: nonce_of_key)
    then have "nonce_sighash (set_sighash k ?batch row) = Some (sighashes ! j)"
      using map_of_sighash_batch [OF jl(2), of index] by (simp add: set_sighash_def)
    moreover have "?idxs ! j = index + j"
      using jl by (intro nth_upt) simp
    ultimately show ?thesis
      using list_all2_nthD2 [OF all j] of' [of "index + j"] row by (simp add: nonce_used_def)
  qed
  with len show ?thesis
    by auto
qed

text \<open>Once used, a row never signs another message, and never with another secret nonce.\<close>

lemma nonce_used_kept:
  assumes "nonces_kept d d'" "distinct_keys d" "nonce_used d k i message pair" "nonce_used d' k i message' pair'"
  shows "message' = message \<and> fst pair' = fst pair"
proof -
  from assms(3) obtain row where row: "nonce_of d k i = Some row" "nonce_sighash row = Some message"
      "nonce_sec row = fst pair"
    unfolding nonce_used_def by blast
  obtain row' where row': "nonce_of d' k i = Some row'" "nonce_row_kept row row'"
    using nonces_kept_of [OF assms(1,2) row(1)] by blast
  with row assms(4) show ?thesis
    by (auto simp: nonce_used_def nonce_row_kept_def)
qed

section \<open>Aggregated nonces\<close>

definition aggs_saved :: "database \<Rightarrow> outpoint \<Rightarrow> bytes list \<Rightarrow> bool" where
  "aggs_saved d k aggs \<longleftrightarrow>
    (\<forall>i row. i < length aggs \<longrightarrow> nonce_of d k i = Some row \<longrightarrow> nonce_agg row = Some (aggs ! i))"

lemma save_agg_nonces_saved:
  assumes "save_agg_nonces k aggs w = (Ok u, w')"
  shows "aggs_saved (world_db w') k aggs"
proof -
  have d': "world_db w' = (world_db w)\<lparr>nonces := List.map (set_agg_nonce k (batch_of aggs)) (nonces (world_db w))\<rparr>"
    using query_eq_Ok [OF assms [unfolded save_agg_nonces_def]]
    by (auto simp: sql_save_agg_nonces_def update_nonces_def split: if_splits)
  have "nonce_agg (set_agg_nonce k (batch_of aggs) row) = Some (aggs ! i)"
    if "i < length aggs" "nonce_deposit row = k" "nonce_idx row = i" for i row
  proof -
    have "distinct (List.map fst (batch_of aggs))" "(i, aggs ! i) \<in> set (batch_of aggs)"
      using that(1) by (auto simp: batch_of_def in_set_zip intro!: exI [of _ i])
    then have "map_of (batch_of aggs) i = Some (aggs ! i)"
      by simp
    with that show ?thesis
      by (simp add: set_agg_nonce_def)
  qed
  then show ?thesis
    unfolding d' aggs_saved_def by (auto simp: nonce_of_map dest: nonce_of_key)
qed

lemma aggs_saved_same: "nonces d' = nonces d \<Longrightarrow> aggs_saved d k aggs \<Longrightarrow> aggs_saved d' k aggs"
  by (simp add: aggs_saved_def nonce_of_def)

lemma save_sighashes_aggs:
  assumes "save_sighashes_and_get_nonces k index sighashes w = (Ok r, w')" "aggs_saved (world_db w) k aggs"
  shows "aggs_saved (world_db w') k aggs"
  using assms by (elim save_sighashes_eq_Ok) (auto simp: aggs_saved_def nonce_of_map)

lemma nonce_used_agg:
  "aggs_saved d k aggs \<Longrightarrow> nonce_used d k i message pair \<Longrightarrow> i < length aggs \<Longrightarrow> snd pair = aggs ! i"
  by (auto simp: aggs_saved_def nonce_used_def)

end
