(* ===== verification/Verifier_Role.thy ===== *)
theory Verifier_Role
  imports Example_Node Nonce_Table
begin

text \<open>
  \<open>core/src/verifier.rs\<close>: the constructor and the four handlers of a verifier, as actions on the
  world. For each deposit a verifier draws one nonce for the move transaction and two for each
  operator, and spends them on the partial signatures of the three later calls. The lemmas show that
  a nonce never signs two messages, and what a verifier has checked before it signs.
\<close>

section \<open>State\<close>

record verifier =
  verifier_signer :: actor
  verifier_config :: bridge_config
  verifier_nofn_xonly_pk :: xonly
  verifier_operator_xonly_pks :: "xonly list"

definition verifier_new :: "'x lib_scheme \<Rightarrow> bridge_config \<Rightarrow> ('n, verifier) handler" where
  "verifier_new L config =
    (let signer = actor_new L (cfg_secret_key config) (cfg_network config);
         pk = keypair_public_key L (keypair_from_secret_key L (cfg_secret_key config)) in
    ask (lift (ensure (pk \<in> set (cfg_verifiers_public_keys config)) PublicKeyNotFound)) (\<lambda>_.
    ask database_new (\<lambda>_.
    ask (lift (from_musig2_pks L (cfg_verifiers_public_keys config) None False)) (\<lambda>nofn_xonly_pk.
    return \<lparr>verifier_signer = signer, verifier_config = config,
      verifier_nofn_xonly_pk = nofn_xonly_pk,
      verifier_operator_xonly_pks = cfg_operators_xonly_pks config\<rparr>))))"

section \<open>New deposits\<close>

fun draw_nonces ::
  "'x lib_scheme \<Rightarrow> 'n node_ops \<Rightarrow> keypair \<Rightarrow> nat \<Rightarrow> ('n, (bytes \<times> bytes) list) handler" where
  "draw_nonces L N keypair 0 = return []"
| "draw_nonces L N keypair (Suc n) =
    ask (call (random_bytes N 32)) (\<lambda>rnd.
    ask (draw_nonces L N keypair n) (\<lambda>pairs.
    return (nonce_pair L keypair rnd # pairs)))"

definition num_required_nonces :: "verifier \<Rightarrow> nat" where
  "num_required_nonces self = 2 * length (verifier_operator_xonly_pks self) + 1"

text \<open>What \<open>new_deposit\<close> does between the beginning and the commit of its transaction.\<close>

definition make_nonces ::
  "'x lib_scheme \<Rightarrow> 'n node_ops \<Rightarrow> verifier \<Rightarrow> outpoint \<Rightarrow> address \<Rightarrow> evm_address \<Rightarrow>
   ('n, bytes list) handler" where
  "make_nonces L N self deposit_outpoint recovery_taproot_address evm_address =
    ask (draw_nonces L N (actor_keypair (verifier_signer self)) (num_required_nonces self)) (\<lambda>pairs.
    ask (save_deposit_info deposit_outpoint recovery_taproot_address evm_address) (\<lambda>_.
    ask (save_nonces deposit_outpoint pairs) (\<lambda>_.
    return (List.map snd pairs))))"

definition find_or_make_nonces ::
  "'x lib_scheme \<Rightarrow> 'n node_ops \<Rightarrow> verifier \<Rightarrow> outpoint \<Rightarrow> address \<Rightarrow> evm_address \<Rightarrow>
   ('n, bytes list) handler" where
  "find_or_make_nonces L N self deposit_outpoint recovery_taproot_address evm_address =
    ask (get_pub_nonces deposit_outpoint) (\<lambda>pub_nonces_from_db.
    case pub_nonces_from_db of
      Some pub_nonces \<Rightarrow>
        if pub_nonces \<noteq> [] then
          ask (lift (ensure (\<not> length pub_nonces \<noteq> num_required_nonces self) NoncesNotFound)) (\<lambda>_.
          return pub_nonces)
        else make_nonces L N self deposit_outpoint recovery_taproot_address evm_address
    | None \<Rightarrow> make_nonces L N self deposit_outpoint recovery_taproot_address evm_address)"

definition verifier_new_deposit ::
  "'x lib_scheme \<Rightarrow> 'n node_ops \<Rightarrow> verifier \<Rightarrow> outpoint \<Rightarrow> address \<Rightarrow> evm_address \<Rightarrow>
   ('n, bytes list) handler" where
  "verifier_new_deposit L N self deposit_outpoint recovery_taproot_address evm_address =
    ask (check_deposit_utxo L N (verifier_nofn_xonly_pk self) deposit_outpoint
        recovery_taproot_address evm_address (cfg_bridge_amount_sats (verifier_config self))
        (cfg_confirmation_threshold (verifier_config self)) (cfg_network (verifier_config self))
        (cfg_user_takes_after (verifier_config self))) (\<lambda>_.
    in_dbtx (find_or_make_nonces L N self deposit_outpoint recovery_taproot_address evm_address))"

section \<open>Kickoff outputs of the operators\<close>

text \<open>One round of the loop: the checks of the \<open>i\<close>-th kickoff output, and its hash to sign.\<close>

definition slash_or_take_sighash ::
  "'x sign_lib_scheme \<Rightarrow> verifier \<Rightarrow> outpoint \<Rightarrow> signature list \<Rightarrow> nat \<times> utxo \<Rightarrow> bytes outcome" where
  "slash_or_take_sighash L self deposit_outpoint operators_kickoff_sigs = (\<lambda>(i, kickoff_utxo).
    let config = verifier_config self in
    attempt (ensure (\<not> txout_value (utxo_txout kickoff_utxo) < KICKOFF_UTXO_AMOUNT_SATS)
      InvalidKickoffUtxo) (\<lambda>_.
    let kickoff_sig_hash = sha256 L (op_txid deposit_outpoint @ u32_be (op_vout deposit_outpoint) @
      op_txid (utxo_outpoint kickoff_utxo) @ u32_be (op_vout (utxo_outpoint kickoff_utxo))) in
    attempt (item_at operators_kickoff_sigs i) (\<lambda>sig.
    attempt (item_at (cfg_operators_xonly_pks config) i) (\<lambda>config_pk.
    attempt (ensure (verify_schnorr L sig kickoff_sig_hash config_pk) Secp256k1Error) (\<lambda>_.
    attempt (item_at (verifier_operator_xonly_pks self) i) (\<lambda>pk.
    attempt (create_kickoff_address L (verifier_nofn_xonly_pk self) pk (cfg_network config))
      (\<lambda>(musig2_and_operator_address, _).
    attempt (assert_that (txout_script (utxo_txout kickoff_utxo) =
      address_script_pubkey L musig2_and_operator_address)) (\<lambda>_.
    attempt (create_slash_or_take_tx L deposit_outpoint kickoff_utxo config_pk (word_of_nat i)
        (verifier_nofn_xonly_pk self) (cfg_network config) (cfg_user_takes_after config)
        (cfg_operator_takes_after config) (cfg_bridge_amount_sats config))
      (\<lambda>slash_or_take_tx_handler.
    convert_tx_to_sighash_script_spend L slash_or_take_tx_handler 0 0)))))))))"

definition sign_all ::
  "'x lib_scheme \<Rightarrow> verifier \<Rightarrow> bool \<Rightarrow> bytes list \<Rightarrow> (bytes \<times> bytes) list \<Rightarrow> bytes list outcome" where
  "sign_all L self tweak_flag sighashes pairs =
    attempt_map (\<lambda>(sighash, (sec_nonce, agg_nonce)).
      partial_sign L (cfg_verifiers_public_keys (verifier_config self)) None tweak_flag sec_nonce
        agg_nonce (actor_keypair (verifier_signer self)) sighash) (zip sighashes pairs)"

definition operator_kickoffs_generated ::
  "'x lib_scheme \<Rightarrow> verifier \<Rightarrow> outpoint \<Rightarrow> utxo list \<Rightarrow> signature list \<Rightarrow> bytes list \<Rightarrow>
   ('n, bytes list \<times> bytes list) handler" where
  "operator_kickoffs_generated L self deposit_outpoint kickoff_utxos operators_kickoff_sigs agg_nonces =
    ask (lift (ensure (\<not> length operators_kickoff_sigs \<noteq> length kickoff_utxos) InvalidKickoffUtxo)) (\<lambda>_.
    ask (lift (attempt_map (slash_or_take_sighash L self deposit_outpoint operators_kickoff_sigs)
        (enumerate 0 kickoff_utxos))) (\<lambda>slash_or_take_sighashes.
    in_dbtx (
      ask (save_agg_nonces deposit_outpoint agg_nonces) (\<lambda>_.
      ask (save_kickoff_utxos deposit_outpoint kickoff_utxos) (\<lambda>_.
      ask (save_sighashes_and_get_nonces deposit_outpoint (cfg_num_operators (verifier_config self) + 1)
          slash_or_take_sighashes) (\<lambda>found.
      ask (lift (ok_or found NoncesNotFound)) (\<lambda>pairs.
      ask (lift (sign_all L self False slash_or_take_sighashes pairs)) (\<lambda>slash_or_take_partial_sigs.
      return (slash_or_take_partial_sigs, [])))))))))"

section \<open>Signatures on the operators' transactions\<close>

definition create_deposit_details ::
  "'x lib_scheme \<Rightarrow> verifier \<Rightarrow> outpoint \<Rightarrow> ('n, utxo list \<times> tx_handler \<times> outpoint) handler" where
  "create_deposit_details L self deposit_outpoint =
    ask (get_kickoff_utxos deposit_outpoint) (\<lambda>found.
    ask (lift (ok_or found KickoffOutpointsNotFound)) (\<lambda>kickoff_utxos.
    ask (get_deposit_info deposit_outpoint) (\<lambda>found.
    ask (lift (ok_or found DepositInfoNotFound)) (\<lambda>(recovery_taproot_address, evm_address).
    ask (lift (create_move_tx_handler L deposit_outpoint evm_address recovery_taproot_address
        (verifier_nofn_xonly_pk self) (cfg_network (verifier_config self))
        (cfg_user_takes_after (verifier_config self))
        (cfg_bridge_amount_sats (verifier_config self)))) (\<lambda>move_tx_handler.
    let bridge_fund_outpoint = \<lparr>op_txid = compute_txid L (handler_tx move_tx_handler), op_vout = 0\<rparr> in
    return (kickoff_utxos, move_tx_handler, bridge_fund_outpoint))))))"

text \<open>The closure of \<open>burn_txs_signed\<close>; every \<open>unwrap\<close> in it panics.\<close>

definition operator_takes_sighash ::
  "'x sign_lib_scheme \<Rightarrow> verifier \<Rightarrow> outpoint \<Rightarrow> outpoint \<Rightarrow> signature list \<Rightarrow> nat \<times> utxo \<Rightarrow> bytes outcome" where
  "operator_takes_sighash L self deposit_outpoint bridge_fund_outpoint slash_or_take_sigs =
    (\<lambda>(index, kickoff_utxo). let config = verifier_config self in
    attempt (item_at (verifier_operator_xonly_pks self) index) (\<lambda>operator_pk.
    attempt (create_slash_or_take_tx L deposit_outpoint kickoff_utxo operator_pk (word_of_nat index)
        (verifier_nofn_xonly_pk self) (cfg_network config) (cfg_user_takes_after config)
        (cfg_operator_takes_after config) (cfg_bridge_amount_sats config))
      (\<lambda>slash_or_take_tx_handler.
    attempt (unwrap_ok (convert_tx_to_sighash_script_spend L slash_or_take_tx_handler 0 0))
      (\<lambda>slash_or_take_sighash.
    attempt (item_at slash_or_take_sigs index) (\<lambda>sig.
    attempt (assert_that (verify_schnorr L sig slash_or_take_sighash (verifier_nofn_xonly_pk self))) (\<lambda>_.
    attempt (item_at (btc_output (handler_tx slash_or_take_tx_handler)) 0) (\<lambda>txout.
    let slash_or_take_utxo = \<lparr>utxo_outpoint =
        \<lparr>op_txid = compute_txid L (handler_tx slash_or_take_tx_handler), op_vout = 0\<rparr>,
      utxo_txout = txout\<rparr> in
    attempt (item_at (cfg_operator_wallet_addresses config) index) (\<lambda>wallet.
    attempt (create_operator_takes_tx L bridge_fund_outpoint slash_or_take_utxo operator_pk
        (verifier_nofn_xonly_pk self) (cfg_network config) (cfg_operator_takes_after config)
        (cfg_bridge_amount_sats config) wallet) (\<lambda>operator_takes_tx.
    unwrap_ok (convert_tx_to_sighash_pubkey_spend L operator_takes_tx 0))))))))))"

definition burn_txs_signed ::
  "'x lib_scheme \<Rightarrow> verifier \<Rightarrow> outpoint \<Rightarrow> signature list \<Rightarrow> signature list \<Rightarrow> ('n, bytes list) handler" where
  "burn_txs_signed L self deposit_outpoint _ slash_or_take_sigs =
    ask (create_deposit_details L self deposit_outpoint) (\<lambda>(kickoff_utxos, _, bridge_fund_outpoint).
    ask (lift (attempt_map (operator_takes_sighash L self deposit_outpoint bridge_fund_outpoint
        slash_or_take_sigs) (enumerate 0 kickoff_utxos))) (\<lambda>operator_takes_sighashes.
    ask (save_slash_or_take_sigs deposit_outpoint slash_or_take_sigs) (\<lambda>_.
    ask (save_sighashes_and_get_nonces deposit_outpoint 1 operator_takes_sighashes) (\<lambda>found.
    ask (lift (ok_or found NoncesNotFound)) (\<lambda>pairs.
    lift (sign_all L self True operator_takes_sighashes pairs))))))"

definition check_operator_take_sig ::
  "'x sign_lib_scheme \<Rightarrow> verifier \<Rightarrow> outpoint \<Rightarrow> outpoint \<Rightarrow> xonly \<Rightarrow> signature list \<Rightarrow> nat \<times> utxo \<Rightarrow>
   unit outcome" where
  "check_operator_take_sig L self deposit_outpoint bridge_fund_outpoint nofn_taproot_xonly_pk
     operator_take_sigs =
    (\<lambda>(index, kickoff_utxo). let config = verifier_config self in
    attempt (item_at (verifier_operator_xonly_pks self) index) (\<lambda>operator_pk.
    attempt (create_slash_or_take_tx L deposit_outpoint kickoff_utxo operator_pk (word_of_nat index)
        (verifier_nofn_xonly_pk self) (cfg_network config) (cfg_user_takes_after config)
        (cfg_operator_takes_after config) (cfg_bridge_amount_sats config)) (\<lambda>slash_or_take_tx.
    attempt (item_at (btc_output (handler_tx slash_or_take_tx)) 0) (\<lambda>txout.
    let slash_or_take_utxo = \<lparr>utxo_outpoint =
        \<lparr>op_txid = compute_txid L (handler_tx slash_or_take_tx), op_vout = 0\<rparr>,
      utxo_txout = txout\<rparr> in
    attempt (item_at (cfg_operator_wallet_addresses config) index) (\<lambda>wallet.
    attempt (create_operator_takes_tx L bridge_fund_outpoint slash_or_take_utxo operator_pk
        (verifier_nofn_xonly_pk self) (cfg_network config) (cfg_operator_takes_after config)
        (cfg_bridge_amount_sats config) wallet) (\<lambda>operator_takes_tx.
    attempt (unwrap_ok (convert_tx_to_sighash_pubkey_spend L operator_takes_tx 0)) (\<lambda>sig_hash.
    attempt (item_at operator_take_sigs index) (\<lambda>sig.
    assert_that (verify_schnorr L sig sig_hash nofn_taproot_xonly_pk)))))))))"

definition operator_take_txs_signed ::
  "'x lib_scheme \<Rightarrow> verifier \<Rightarrow> outpoint \<Rightarrow> signature list \<Rightarrow> ('n, bytes) handler" where
  "operator_take_txs_signed L self deposit_outpoint operator_take_sigs =
    ask (create_deposit_details L self deposit_outpoint)
      (\<lambda>(kickoff_utxos, move_tx_handler, bridge_fund_outpoint).
    ask (lift (slice_2_34 (address_script_pubkey L
        (p2tr L (verifier_nofn_xonly_pk self) None (cfg_network (verifier_config self)))))) (\<lambda>key_bytes.
    ask (lift (ok_or (xonly_from_slice L key_bytes) Secp256k1Error)) (\<lambda>nofn_taproot_xonly_pk.
    ask (lift (attempt_map (check_operator_take_sig L self deposit_outpoint bridge_fund_outpoint
        nofn_taproot_xonly_pk operator_take_sigs) (enumerate 0 kickoff_utxos))) (\<lambda>_.
    ask (lift (attempt_map (\<lambda>(index, utxo). attempt (item_at operator_take_sigs index)
        (\<lambda>sig. Ok (utxo, sig))) (enumerate 0 kickoff_utxos))) (\<lambda>utxos_and_sigs.
    ask (save_operator_take_sigs deposit_outpoint utxos_and_sigs) (\<lambda>_.
    ask (lift (convert_tx_to_sighash_script_spend L move_tx_handler 0 0)) (\<lambda>move_tx_sighash.
    ask (save_sighashes_and_get_nonces deposit_outpoint 0 [move_tx_sighash]) (\<lambda>found.
    ask (lift (ok_or found NoncesNotFound)) (\<lambda>pairs.
    ask (lift (item_at pairs 0)) (\<lambda>nonce.
    lift (partial_sign L (cfg_verifiers_public_keys (verifier_config self)) None False (fst nonce)
      (snd nonce) (actor_keypair (verifier_signer self)) move_tx_sighash)))))))))))"

section \<open>Nonces are kept\<close>

lemma reads_keep_nonces: "moves (=) m \<Longrightarrow> moves nonces_kept m"
  unfolding moves_def by (metis nonce_order.refl)

lemma draw_nonces_read: "moves (=) (draw_nonces L N keypair n)"
  by (induction n) (auto intro!: same_db.moves_intros)

lemma sql_other_tables [simp]:
  "nonces (snd (sql_save_deposit_info k recovery evm d)) = nonces d"
  "nonces (snd (sql_save_kickoff_utxos k utxos d)) = nonces d"
  "nonces (snd (sql_save_slash_or_take_sigs k sigs d)) = nonces d"
  "nonces (snd (sql_save_operator_take_sigs k utxos_and_sigs d)) = nonces d"
  by (simp_all add: sql_save_deposit_info_def sql_save_kickoff_utxos_def
      sql_save_slash_or_take_sigs_def sql_save_operator_take_sigs_def)

lemma database_functions_keep:
  "moves nonces_kept (save_deposit_info k recovery evm)" "moves nonces_kept (save_kickoff_utxos k utxos)"
  "moves nonces_kept (save_slash_or_take_sigs k sigs)" "moves nonces_kept (save_operator_take_sigs k utxos_and_sigs)"
  "moves nonces_kept (save_nonces k pairs)" "moves nonces_kept (save_agg_nonces k agg_nonces)"
  "moves nonces_kept (save_sighashes_and_get_nonces k i sighashes)" "moves nonces_kept database_new"
  unfolding save_deposit_info_def save_kickoff_utxos_def save_slash_or_take_sigs_def
    save_operator_take_sigs_def save_nonces_def save_agg_nonces_def save_sighashes_and_get_nonces_def
    database_new_def
  by (intro nonce_order.moves_intros nonce_order.moves_optional_row; simp add: nonces_kept_same)+

lemma create_deposit_details_read: "moves (=) (create_deposit_details L self k)"
  unfolding create_deposit_details_def Let_def by (intro same_db.moves_intros get_functions_read)

lemmas verifier_functions_keep = nonce_order.moves_intros draw_nonces_read
  database_functions_keep reads_keep_nonces create_deposit_details_read get_functions_read
  check_deposit_utxo_read

lemma verifier_handlers_keep:
  "moves nonces_kept (verifier_new_deposit L N self k recovery evm)"
  "moves nonces_kept (operator_kickoffs_generated L self k utxos sigs agg_nonces)"
  "moves nonces_kept (burn_txs_signed L self k burn_sigs sigs)"
  "moves nonces_kept (operator_take_txs_signed L self k sigs)"
  "moves nonces_kept (verifier_new L config)"
  unfolding verifier_new_deposit_def find_or_make_nonces_def make_nonces_def
    operator_kickoffs_generated_def burn_txs_signed_def operator_take_txs_signed_def verifier_new_def Let_def
  by (intro verifier_functions_keep)+

section \<open>Every deposit has all its nonces\<close>

text \<open>
  A deposit is either unknown, or its details are saved with exactly the nonces \<open>0..2n\<close> for \<open>n\<close>
  operators.
\<close>

definition verifier_inv :: "nat \<Rightarrow> database \<Rightarrow> bool" where
  "verifier_inv n d \<longleftrightarrow> distinct_keys d \<and>
    (\<forall>k. nonce_idxs d k = (if deposit_info_of d k = None then {} else {..<n}))"

definition same_keys :: "database \<Rightarrow> database \<Rightarrow> bool" where
  "same_keys d d' \<longleftrightarrow> List.map nonce_key (nonces d') = List.map nonce_key (nonces d) \<and>
    deposit_infos d' = deposit_infos d"

interpretation keys_order: db_order same_keys
  by unfold_locales (auto simp: same_keys_def)

lemma same_keys_inv: "same_keys d d' \<Longrightarrow> verifier_inv n d \<Longrightarrow> verifier_inv n d'"
  by (simp add: same_keys_def verifier_inv_def nonce_idxs_keys deposit_info_of_def flip: set_map)

lemma verifier_inv_rows:
  assumes "verifier_inv n d"
  shows "distinct_keys d" "nonce_idxs d k = {..<if deposit_info_of d k = None then 0 else n}"
  using assms by (simp_all add: verifier_inv_def)

lemma verifier_inv_empty: "verifier_inv n empty_database"
  by (simp add: verifier_inv_def empty_database_def nonce_idxs_def deposit_info_of_def)

lemma update_same_keys:
  "(\<And>row. nonce_key (f row) = nonce_key row) \<Longrightarrow> same_keys d (snd (update_nonces f d))"
  by (simp add: update_nonces_def same_keys_def comp_def)

lemma sql_same_keys [simp]:
  "same_keys d (snd (sql_save_agg_nonces k agg_nonces d))"
  "same_keys d (snd (sql_save_sighashes_and_get_nonces k i sighashes d))"
  "same_keys d (snd (sql_save_kickoff_utxos k utxos d))"
  "same_keys d (snd (sql_save_slash_or_take_sigs k sigs d))"
  "same_keys d (snd (sql_save_operator_take_sigs k utxos_and_sigs d))"
proof -
  show "same_keys d (snd (sql_save_agg_nonces k agg_nonces d))"
    by (simp add: sql_save_agg_nonces_def keys_order.refl update_same_keys)
  show "same_keys d (snd (sql_save_sighashes_and_get_nonces k i sighashes d))"
    using update_same_keys [of "set_sighash k (sighash_batch i sighashes)" d]
    by (auto simp: sql_save_sighashes_and_get_nonces_def Let_def keys_order.refl sighash_batch_def
        split: prod.splits sum.splits option.splits)
qed (simp_all add: same_keys_def sql_save_kickoff_utxos_def sql_save_slash_or_take_sigs_def
    sql_save_operator_take_sigs_def)

lemma reads_same_keys: "moves (=) m \<Longrightarrow> moves same_keys m"
  unfolding moves_def by (metis keys_order.refl)

lemma signing_same_keys:
  "moves same_keys (operator_kickoffs_generated L self k utxos sigs agg_nonces)"
  "moves same_keys (burn_txs_signed L self k burn_sigs sigs)"
  "moves same_keys (operator_take_txs_signed L self k sigs)"
  "moves same_keys (verifier_new L config)"
proof -
  have "moves same_keys (save_kickoff_utxos k utxos)" "moves same_keys (save_agg_nonces k agg_nonces)"
    "moves same_keys (save_slash_or_take_sigs k sigs)" "moves same_keys (save_operator_take_sigs k utxos_and_sigs)"
    "moves same_keys (save_sighashes_and_get_nonces k i sighashes)" "moves same_keys database_new"
    for utxos agg_nonces sigs utxos_and_sigs i sighashes
    unfolding save_kickoff_utxos_def save_agg_nonces_def save_slash_or_take_sigs_def database_new_def
      save_operator_take_sigs_def save_sighashes_and_get_nonces_def
    by (intro keys_order.moves_intros keys_order.moves_optional_row; simp add: keys_order.refl)+
  note keep = this keys_order.moves_intros reads_same_keys create_deposit_details_read
  show "moves same_keys (operator_kickoffs_generated L self k utxos sigs agg_nonces)"
    "moves same_keys (burn_txs_signed L self k burn_sigs sigs)"
    "moves same_keys (operator_take_txs_signed L self k sigs)"
    "moves same_keys (verifier_new L config)"
    unfolding operator_kickoffs_generated_def burn_txs_signed_def operator_take_txs_signed_def
      verifier_new_def Let_def
    by (intro keep)+
qed

text \<open>What the first request for a deposit does.\<close>

definition makes_nonces ::
  "nat \<Rightarrow> outpoint \<Rightarrow> bytes list \<Rightarrow> database \<Rightarrow> database \<Rightarrow> bool" where
  "makes_nonces n k pubs d d' \<longleftrightarrow> deposit_info_of d k = None \<and>
    (\<exists>info pairs. length pairs = n \<and> pubs = List.map snd pairs \<and>
      deposit_info_of d' = (deposit_info_of d)(k \<mapsto> info) \<and>
      nonces d' = nonces d @ List.map (nonce_row_of k) (batch_of pairs) \<and>
      (\<forall>row \<in> set (nonces d). nonce_deposit row = k \<longrightarrow> n \<le> nonce_idx row))"

lemma nonce_row_of_simps [simp]:
  "nonce_key (nonce_row_of k x) = (k, fst x)" "nonce_deposit (nonce_row_of k x) = k"
  "nonce_idx (nonce_row_of k x) = fst x" "nonce_pub (nonce_row_of k x) = snd (snd x)"
  by (simp_all add: nonce_row_of_def nonce_key_def split_beta)

lemma draw_nonces_length: "draw_nonces L N keypair n w = (Ok pairs, w') \<Longrightarrow> length pairs = n"
proof (induction n arbitrary: w pairs)
  case (Suc n)
  then show ?case
    by (auto simp: ask_eq_Ok)
qed simp

lemma make_nonces_eq_Ok:
  assumes "make_nonces L N self k recovery evm w = (Ok pubs, w')"
  shows "makes_nonces (num_required_nonces self) k pubs (world_db w) (world_db w')"
proof -
  let ?n = "num_required_nonces self"
  from assms obtain pairs w1 w2 where 1: "draw_nonces L N (actor_keypair (verifier_signer self)) ?n w = (Ok pairs, w1)"
    and 2: "save_deposit_info k recovery evm w1 = (Ok (), w2)" and 3: "save_nonces k pairs w2 = (Ok (), w')"
    and pubs: "pubs = List.map snd pairs"
    by (auto simp: make_nonces_def ask_eq_Ok)
  have db: "world_db w1 = world_db w"
    using same_db.moves_ok [OF draw_nonces_read 1] by simp
  from query_eq_Ok [OF 2 [unfolded save_deposit_info_def]]
  have info: "sql_save_info k (recovery, evm) (world_db w) = (Inr (), world_db w2)"
    by (simp add: sql_save_info_def db)
  from deposit_table.save_Inr [OF this]
  have new: "deposit_info_of (world_db w) k = None"
    "deposit_info_of (world_db w2) = (deposit_info_of (world_db w))(k \<mapsto> (recovery, evm))"
    by simp_all
  have same: "nonces (world_db w2) = nonces (world_db w)"
    using arg_cong [OF info, of "\<lambda>x. nonces (snd x)"] by (simp add: sql_save_info_def)
  from query_eq_Ok [OF 3 [unfolded save_nonces_def]]
  have rows: "world_db w' = (world_db w2)\<lparr>nonces := nonces (world_db w2) @ List.map (nonce_row_of k) (batch_of pairs)\<rparr>"
    and fresh: "\<forall>row \<in> set (List.map (nonce_row_of k) (batch_of pairs)). nonce_key row \<notin> nonce_key ` set (nonces (world_db w2))"
    by (auto simp: sql_save_nonces_def Let_def split: if_splits)
  have len: "length pairs = ?n"
    by (rule draw_nonces_length [OF 1])
  have "?n \<le> nonce_idx row" if "row \<in> set (nonces (world_db w))" "nonce_deposit row = k" for row
  proof (rule ccontr)
    assume "\<not> ?n \<le> nonce_idx row"
    then have "nonce_idx row \<in> fst ` set (batch_of pairs)"
      by (simp add: len)
    then obtain x where x: "x \<in> set (batch_of pairs)" "nonce_idx row = fst x"
      by blast
    then have "nonce_key (nonce_row_of k x) = nonce_key row"
      using that(2) by (simp add: nonce_key_def)
    with fresh x that(1) same show False
      by (metis imageI list.set_map)
  qed
  with new rows same len pubs show ?thesis
    unfolding makes_nonces_def by (auto simp: deposit_info_of_def)
qed

lemma get_pub_nonces_eq_Ok:
  assumes "get_pub_nonces k w = (Ok r, w')"
  shows "r = some_unless_empty (List.map nonce_pub (nonce_rows k (world_db w))) \<and> world_db w' = world_db w"
proof -
  from assms obtain result where "query (sql_get_pub_nonces k) w = (Ok result, w')" "r = some_unless_empty result"
    by (auto simp: get_pub_nonces_def ask_eq_Ok)
  with query_eq_Ok show ?thesis
    by (fastforce simp: sql_get_pub_nonces_def)
qed

lemma find_or_make_nonces_eq_Ok:
  assumes "find_or_make_nonces L N self k recovery evm w = (Ok pubs, w')"
  shows "(if nonce_rows k (world_db w) = [] then makes_nonces (num_required_nonces self) k pubs (world_db w) (world_db w')
    else pubs = List.map nonce_pub (nonce_rows k (world_db w)) \<and> length pubs = num_required_nonces self \<and>
      world_db w' = world_db w)"
proof -
  from assms obtain found w1 where g: "get_pub_nonces k w = (Ok found, w1)"
    and rest: "(case found of
      Some pub_nonces \<Rightarrow>
        if pub_nonces \<noteq> [] then
          ask (lift (ensure (\<not> length pub_nonces \<noteq> num_required_nonces self) NoncesNotFound)) (\<lambda>_.
          return pub_nonces)
        else make_nonces L N self k recovery evm
    | None \<Rightarrow> make_nonces L N self k recovery evm) w1 = (Ok pubs, w')"
    by (auto simp: find_or_make_nonces_def ask_eq_Ok)
  have f: "found = some_unless_empty (List.map nonce_pub (nonce_rows k (world_db w)))" "world_db w1 = world_db w"
    using get_pub_nonces_eq_Ok [OF g] by simp_all
  show ?thesis
  proof (cases "nonce_rows k (world_db w) = []")
    case True
    with f rest show ?thesis
      using make_nonces_eq_Ok [of L N self k recovery evm w1 pubs w'] by (simp add: some_unless_empty_def)
  next
    case False
    with f rest show ?thesis
      by (auto simp: some_unless_empty_def ask_eq_Ok)
  qed
qed

lemma verifier_new_deposit_Ok:
  assumes "verifier_new_deposit L N self k recovery evm w = (Ok pubs, w')"
  shows "(if nonce_rows k (world_db w) = [] then makes_nonces (num_required_nonces self) k pubs (world_db w) (world_db w')
    else pubs = List.map nonce_pub (nonce_rows k (world_db w)) \<and> length pubs = num_required_nonces self \<and>
      world_db w' = world_db w)"
proof -
  from assms obtain w1 where c: "check_deposit_utxo L N (verifier_nofn_xonly_pk self) k recovery evm
      (cfg_bridge_amount_sats (verifier_config self)) (cfg_confirmation_threshold (verifier_config self))
      (cfg_network (verifier_config self)) (cfg_user_takes_after (verifier_config self)) w = (Ok (), w1)"
    and f: "in_dbtx (find_or_make_nonces L N self k recovery evm) w1 = (Ok pubs, w')"
    by (auto simp: verifier_new_deposit_def ask_eq_Ok)
  have "world_db w1 = world_db w"
    using same_db.moves_ok [OF check_deposit_utxo_read c] by simp
  with f show ?thesis
    by (elim in_dbtx_eq_Ok) (use find_or_make_nonces_eq_Ok in metis)
qed

lemma verifier_new_deposit_effect:
  assumes "verifier_new_deposit L N self k recovery evm w = (r, w')"
  shows "world_db w' = world_db w \<or> (\<exists>pubs. makes_nonces (num_required_nonces self) k pubs (world_db w) (world_db w'))"
  using assms unfolding verifier_new_deposit_def
proof (cases rule: ask_cases)
  case (ok a w1)
  then have db: "world_db w1 = world_db w"
    using same_db.moves_ok [OF check_deposit_utxo_read] by metis
  from ok(2) show ?thesis
  proof (cases rule: in_dbtx_cases)
    case (committed v pubs v')
    from find_or_make_nonces_eq_Ok [OF committed(3)] committed(1,4) db show ?thesis
      by (auto split: if_splits)
  qed (use db in auto)
qed (metis same_db.moves_ok [OF check_deposit_utxo_read])+

lemma makes_nonces_inv:
  assumes inv: "verifier_inv n d" and m: "makes_nonces n k pubs d d'"
  shows "verifier_inv n d'"
proof -
  from m obtain info pairs where p: "length pairs = n" "deposit_info_of d k = None"
      "deposit_info_of d' = (deposit_info_of d)(k \<mapsto> info)"
      "nonces d' = nonces d @ List.map (nonce_row_of k) (batch_of pairs)"
      "\<forall>row \<in> set (nonces d). nonce_deposit row = k \<longrightarrow> n \<le> nonce_idx row"
    unfolding makes_nonces_def by blast
  have "List.map (nonce_key \<circ> nonce_row_of k) (batch_of pairs) = List.map (Pair k) (List.map fst (batch_of pairs))"
    by (simp del: batch_of_simps)
  then have keys: "List.map nonce_key (nonces d') = List.map nonce_key (nonces d) @ List.map (Pair k) [0..<n]"
    by (simp add: p(1,4))
  have "(k, i) \<notin> nonce_key ` set (nonces d)" if "i < n" for i
  proof
    assume "(k, i) \<in> nonce_key ` set (nonces d)"
    then obtain row where "row \<in> set (nonces d)" "nonce_key row = (k, i)"
      by auto
    with p(5) that show False
      by (auto simp: nonce_key_eq)
  qed
  then have "nonce_key ` set (nonces d) \<inter> Pair k ` {0..<n} = {}"
    by (metis (no_types, lifting) atLeastLessThan_iff disjoint_iff imageE)
  moreover have "distinct (List.map (Pair k) [0..<n])"
    by (simp add: distinct_map inj_on_def)
  ultimately have "distinct_keys d'"
    using inv unfolding keys distinct_append by (simp add: verifier_inv_def)
  moreover have "nonce_idxs d' k' = nonce_idxs d k' \<union> (if k' = k then {..<n} else {})" for k'
    unfolding nonce_idxs_keys set_map [symmetric] keys by auto
  ultimately show ?thesis
    using inv p(2,3) by (auto simp: verifier_inv_def)
qed

section \<open>Runs of a verifier\<close>

text \<open>
  The verifier serves requests with any arguments in any order and may be restarted; between two
  requests the outside may change and database messages may be lost.
\<close>

inductive verifier_step ::
  "'x lib_scheme \<Rightarrow> 'n node_ops \<Rightarrow> verifier \<Rightarrow> (database, 'n) world \<Rightarrow> (database, 'n) world \<Rightarrow> bool"
  for L N self where
  new_deposit: "verifier_new_deposit L N self k recovery evm w = (r, w') \<Longrightarrow> verifier_step L N self w w'"
| kickoffs: "operator_kickoffs_generated L self k utxos sigs agg_nonces w = (r, w') \<Longrightarrow>
    verifier_step L N self w w'"
| burn: "burn_txs_signed L self k burn_sigs sigs w = (r, w') \<Longrightarrow> verifier_step L N self w w'"
| takes: "operator_take_txs_signed L self k sigs w = (r, w') \<Longrightarrow> verifier_step L N self w w'"
| restart: "verifier_new L (verifier_config self) w = (r, w') \<Longrightarrow> verifier_step L N self w w'"
| outside: "world_db w' = world_db w \<Longrightarrow> verifier_step L N self w w'"

abbreviation verifier_run ::
  "'x lib_scheme \<Rightarrow> 'n node_ops \<Rightarrow> verifier \<Rightarrow> (database, 'n) world \<Rightarrow> (database, 'n) world \<Rightarrow> bool" where
  "verifier_run L N self \<equiv> (verifier_step L N self)\<^sup>*\<^sup>*"

lemma verifier_step_kept: "verifier_step L N self w w' \<Longrightarrow> nonces_kept (world_db w) (world_db w')"
  by (induction rule: verifier_step.induct)
    (metis nonce_order.moves_ok [OF verifier_handlers_keep(1)]
      nonce_order.moves_ok [OF verifier_handlers_keep(2)] nonce_order.moves_ok [OF verifier_handlers_keep(3)]
      nonce_order.moves_ok [OF verifier_handlers_keep(4)] nonce_order.moves_ok [OF verifier_handlers_keep(5)]
      nonce_order.refl)+

lemma verifier_run_kept: "verifier_run L N self w w' \<Longrightarrow> nonces_kept (world_db w) (world_db w')"
  by (induction rule: rtranclp_induct)
    (auto intro: nonce_order.refl nonce_order.trans dest: verifier_step_kept)

lemma verifier_step_effect:
  assumes "verifier_step L N self w w'"
  shows "same_keys (world_db w) (world_db w') \<or>
    (\<exists>k pubs. makes_nonces (num_required_nonces self) k pubs (world_db w) (world_db w'))"
  using assms
proof cases
  case (new_deposit k recovery evm r)
  then show ?thesis
    using verifier_new_deposit_effect keys_order.refl by metis
next
  case (kickoffs k utxos sigs agg_nonces r)
  then show ?thesis
    using keys_order.moves_ok [OF signing_same_keys(1)] by blast
next
  case (burn k burn_sigs sigs r)
  then show ?thesis
    using keys_order.moves_ok [OF signing_same_keys(2)] by blast
next
  case (takes k sigs r)
  then show ?thesis
    using keys_order.moves_ok [OF signing_same_keys(3)] by blast
next
  case (restart r)
  then show ?thesis
    using keys_order.moves_ok [OF signing_same_keys(4)] by blast
next
  case outside
  then show ?thesis
    using keys_order.refl by metis
qed

lemma verifier_run_inv:
  "verifier_run L N self w w' \<Longrightarrow> verifier_inv (num_required_nonces self) (world_db w) \<Longrightarrow>
    verifier_inv (num_required_nonces self) (world_db w')"
  by (induction rule: rtranclp_induct) (blast dest: verifier_step_effect same_keys_inv makes_nonces_inv)+

section \<open>Partial signatures\<close>

text \<open>A partial signature was made with the nonces of one row, on the message kept in the row.\<close>

definition partial_sig_of ::
  "'x lib_scheme \<Rightarrow> verifier \<Rightarrow> bool \<Rightarrow> bytes \<times> bytes \<Rightarrow> bytes \<Rightarrow> bytes outcome" where
  "partial_sig_of L self tweak_flag pair message =
    partial_sign L (cfg_verifiers_public_keys (verifier_config self)) None tweak_flag (fst pair)
      (snd pair) (actor_keypair (verifier_signer self)) message"

definition signed_with ::
  "'x lib_scheme \<Rightarrow> verifier \<Rightarrow> bool \<Rightarrow> database \<Rightarrow> outpoint \<Rightarrow> nat \<Rightarrow> bytes \<Rightarrow> bytes \<Rightarrow> bool" where
  "signed_with L self tweak_flag d k i message sig \<longleftrightarrow>
    (\<exists>pair. nonce_used d k i message pair \<and> partial_sig_of L self tweak_flag pair message = Ok sig)"

lemma sign_all_eq_Ok:
  assumes "sign_all L self flag messages pairs = Ok sigs"
  shows "length sigs = min (length messages) (length pairs) \<and>
    (\<forall>j < length sigs. partial_sig_of L self flag (pairs ! j) (messages ! j) = Ok (sigs ! j))"
proof -
  from assms have "attempt_map (\<lambda>x. partial_sig_of L self flag (snd x) (fst x)) (zip messages pairs) = Ok sigs"
    by (simp add: sign_all_def partial_sig_of_def split_def)
  from attempt_map_length [OF this] attempt_map_nth [OF this] show ?thesis
    by simp
qed

lemma sign_saved_rows:
  assumes "save_sighashes_and_get_nonces k index messages w = (Ok (Some pairs), w')"
    and "sign_all L self flag messages pairs = Ok sigs" "verifier_inv n (world_db w)" "j < length sigs"
  shows "nonce_used (world_db w') k (index + j) (messages ! j) (pairs ! j) \<and>
    partial_sig_of L self flag (pairs ! j) (messages ! j) = Ok (sigs ! j)"
  using save_sighashes_used [OF assms(1) verifier_inv_rows [OF assms(3)]] sign_all_eq_Ok [OF assms(2)] assms(4)
  by simp

lemma operator_kickoffs_generated_Ok:
  assumes "operator_kickoffs_generated L self k utxos sigs aggs w = (Ok (partial_sigs, burn_sigs), w')"
    and inv: "verifier_inv n (world_db w)"
  obtains messages pairs where "length sigs = length utxos"
    "attempt_map (slash_or_take_sighash L self k sigs) (enumerate 0 utxos) = Ok messages"
    "length partial_sigs \<le> length utxos" "burn_sigs = []"
    "\<And>j. j < length partial_sigs \<Longrightarrow>
      nonce_used (world_db w') k (cfg_num_operators (verifier_config self) + 1 + j) (messages ! j) (pairs ! j) \<and>
      partial_sig_of L self False (pairs ! j) (messages ! j) = Ok (partial_sigs ! j)"
    "\<And>j. j < length partial_sigs \<Longrightarrow> cfg_num_operators (verifier_config self) + 1 + j < length aggs \<Longrightarrow>
      snd (pairs ! j) = aggs ! (cfg_num_operators (verifier_config self) + 1 + j)"
proof -
  let ?index = "cfg_num_operators (verifier_config self) + 1"
  from assms(1) obtain messages where len: "length sigs = length utxos"
    and m: "attempt_map (slash_or_take_sighash L self k sigs) (enumerate 0 utxos) = Ok messages"
    and tx: "in_dbtx (
      ask (save_agg_nonces k aggs) (\<lambda>_.
      ask (save_kickoff_utxos k utxos) (\<lambda>_.
      ask (save_sighashes_and_get_nonces k ?index messages) (\<lambda>found.
      ask (lift (ok_or found NoncesNotFound)) (\<lambda>pairs.
      ask (lift (sign_all L self False messages pairs)) (\<lambda>slash_or_take_partial_sigs.
      return (slash_or_take_partial_sigs, []))))))) w = (Ok (partial_sigs, burn_sigs), w')"
    by (auto simp: operator_kickoffs_generated_def ask_eq_Ok)
  from tx obtain w1 w2 where "world_node w1 = world_node w"
    and db: "world_db w1 = world_db w" "world_db w' = world_db w2"
    and body: "ask (save_agg_nonces k aggs) (\<lambda>_.
      ask (save_kickoff_utxos k utxos) (\<lambda>_.
      ask (save_sighashes_and_get_nonces k ?index messages) (\<lambda>found.
      ask (lift (ok_or found NoncesNotFound)) (\<lambda>pairs.
      ask (lift (sign_all L self False messages pairs)) (\<lambda>slash_or_take_partial_sigs.
      return (slash_or_take_partial_sigs, [])))))) w1 = (Ok (partial_sigs, burn_sigs), w2)"
    by (elim in_dbtx_eq_Ok) (rule that)
  from body obtain w3 w4 pairs where 1: "save_agg_nonces k aggs w1 = (Ok (), w3)"
    and 2: "save_kickoff_utxos k utxos w3 = (Ok (), w4)"
    and 3: "save_sighashes_and_get_nonces k ?index messages w4 = (Ok (Some pairs), w2)"
    and sign: "sign_all L self False messages pairs = Ok partial_sigs" "burn_sigs = []"
    by (auto simp: ask_eq_Ok)
  have "same_keys (world_db w) (world_db w3)"
    using query_eq_Ok [OF 1 [unfolded save_agg_nonces_def]] db(1) sql_same_keys(1) by (metis snd_conv)
  moreover have k4: "snd (sql_save_kickoff_utxos k utxos (world_db w3)) = world_db w4"
    using query_eq_Ok [OF 2 [unfolded save_kickoff_utxos_def]] by simp
  ultimately have inv4: "verifier_inv n (world_db w4)"
    using inv sql_same_keys(3) same_keys_inv by metis
  have "aggs_saved (world_db w4) k aggs"
    using save_agg_nonces_saved [OF 1] k4 sql_other_tables(2) aggs_saved_same by metis
  then have saved: "aggs_saved (world_db w') k aggs"
    using save_sighashes_aggs [OF 3] db(2) by simp
  have used: "nonce_used (world_db w') k (?index + j) (messages ! j) (pairs ! j) \<and>
      partial_sig_of L self False (pairs ! j) (messages ! j) = Ok (partial_sigs ! j)"
    if "j < length partial_sigs" for j
    using sign_saved_rows [OF 3 sign(1) inv4 that] db(2) by simp
  have "length partial_sigs \<le> length utxos"
    using sign_all_eq_Ok [OF sign(1)] attempt_map_length [OF m] by simp
  from that [OF len m this sign(2) used] nonce_used_agg [OF saved] used show ?thesis
    by blast
qed

lemma create_deposit_details_eq_Ok:
  assumes "create_deposit_details L self k w = (Ok (utxos, h, fund), w')"
  shows "world_db w' = world_db w \<and> utxos \<noteq> [] \<and>
    fund = \<lparr>op_txid = compute_txid L (handler_tx h), op_vout = 0\<rparr> \<and>
    (\<exists>recovery evm. deposit_info_of (world_db w) k = Some (recovery, evm) \<and>
      create_move_tx_handler L k evm recovery (verifier_nofn_xonly_pk self)
        (cfg_network (verifier_config self)) (cfg_user_takes_after (verifier_config self))
        (cfg_bridge_amount_sats (verifier_config self)) = Ok h)"
proof -
  have read: "world_db w' = world_db w"
    using same_db.moves_ok [OF create_deposit_details_read assms] by simp
  from assms obtain w1 w2 recovery evm where k: "get_kickoff_utxos k w = (Ok (Some utxos), w1)"
    and i: "get_deposit_info k w1 = (Ok (Some (recovery, evm)), w2)"
    and h: "create_move_tx_handler L k evm recovery (verifier_nofn_xonly_pk self)
        (cfg_network (verifier_config self)) (cfg_user_takes_after (verifier_config self))
        (cfg_bridge_amount_sats (verifier_config self)) = Ok h"
      "fund = \<lparr>op_txid = compute_txid L (handler_tx h), op_vout = 0\<rparr>"
    by (auto simp: create_deposit_details_def ask_eq_Ok Let_def split_beta)
  have "world_db w1 = world_db w"
    using same_db.moves_ok [OF get_functions_read(4) k] by simp
  moreover from i obtain info where "query (sql_get_deposit_info k) w1 = (Ok info, w2)" "info = (recovery, evm)"
    by (auto simp: get_deposit_info_def ask_eq_Ok)
  ultimately have "deposit_info_of (world_db w) k = Some (recovery, evm)"
    using query_eq_Ok [of "sql_get_deposit_info k" w1 "(recovery, evm)" w2]
    by (auto simp: sql_get_deposit_info_eq split: option.splits)
  moreover have "utxos \<noteq> []"
    using k by (auto simp: get_kickoff_utxos_def ask_eq_Ok some_unless_empty_def split: if_splits)
  ultimately show ?thesis
    using read h by blast
qed

lemma burn_txs_signed_Ok:
  assumes "burn_txs_signed L self k burn_sigs sigs w = (Ok partial_sigs, w')" and inv: "verifier_inv n (world_db w)"
  obtains utxos h w1 fund messages pairs where
    "create_deposit_details L self k w = (Ok (utxos, h, fund), w1)" "world_db w1 = world_db w"
    "attempt_map (operator_takes_sighash L self k fund sigs) (enumerate 0 utxos) = Ok messages"
    "length partial_sigs \<le> length utxos"
    "\<And>j. j < length partial_sigs \<Longrightarrow> nonce_used (world_db w') k (1 + j) (messages ! j) (pairs ! j) \<and>
      partial_sig_of L self True (pairs ! j) (messages ! j) = Ok (partial_sigs ! j)"
proof -
  from assms(1) obtain utxos and h :: tx_handler and fund w1 messages w2 pairs w3 where
    1: "create_deposit_details L self k w = (Ok (utxos, h, fund), w1)"
    and m: "attempt_map (operator_takes_sighash L self k fund sigs) (enumerate 0 utxos) = Ok messages"
    and 2: "save_slash_or_take_sigs k sigs w1 = (Ok (), w2)"
    and 3: "save_sighashes_and_get_nonces k 1 messages w2 = (Ok (Some pairs), w')"
    and sign: "sign_all L self True messages pairs = Ok partial_sigs"
    by (auto simp: burn_txs_signed_def ask_eq_Ok)
  have db: "world_db w1 = world_db w"
    using same_db.moves_ok [OF create_deposit_details_read 1] by simp
  have "snd (sql_save_slash_or_take_sigs k sigs (world_db w1)) = world_db w2"
    using query_eq_Ok [OF 2 [unfolded save_slash_or_take_sigs_def]] by simp
  then have inv2: "verifier_inv n (world_db w2)"
    using inv sql_same_keys(4) same_keys_inv db by metis
  have "length partial_sigs \<le> length utxos"
    using sign_all_eq_Ok [OF sign] attempt_map_length [OF m] by simp
  from that [OF 1 db m this] sign_saved_rows [OF 3 sign inv2] show ?thesis
    by blast
qed

lemma operator_take_txs_signed_Ok:
  assumes "operator_take_txs_signed L self k sigs w = (Ok sig, w')" and inv: "verifier_inv n (world_db w)"
  obtains utxos h fund w1 message where
    "create_deposit_details L self k w = (Ok (utxos, h, fund), w1)" "world_db w1 = world_db w"
    "convert_tx_to_sighash_script_spend L h 0 0 = Ok message"
    "signed_with L self False (world_db w') k 0 message sig"
proof -
  from assms(1) obtain utxos h fund w1 key_bytes nofn_taproot u utxos_and_sigs w2 message pairs where
    1: "create_deposit_details L self k w = (Ok (utxos, h, fund), w1)"
    and 2: "save_operator_take_sigs k utxos_and_sigs w1 = (Ok (), w2)"
    and m: "convert_tx_to_sighash_script_spend L h 0 0 = Ok message"
    and 3: "save_sighashes_and_get_nonces k 0 [message] w2 = (Ok (Some pairs), w')"
    and sign: "0 < length pairs" "partial_sign L (cfg_verifiers_public_keys (verifier_config self)) None False
      (fst (pairs ! 0)) (snd (pairs ! 0)) (actor_keypair (verifier_signer self)) message = Ok sig"
    by (auto simp: operator_take_txs_signed_def ask_eq_Ok)
  have db: "world_db w1 = world_db w"
    using same_db.moves_ok [OF create_deposit_details_read 1] by simp
  have "snd (sql_save_operator_take_sigs k utxos_and_sigs (world_db w1)) = world_db w2"
    using query_eq_Ok [OF 2 [unfolded save_operator_take_sigs_def]] by simp
  then have inv2: "verifier_inv n (world_db w2)"
    using inv sql_same_keys(5) same_keys_inv db by metis
  then have "nonce_used (world_db w') k 0 message (pairs ! 0)"
    using save_sighashes_used [OF 3 verifier_inv_rows] sign(1) by fastforce
  with sign(2) have "signed_with L self False (world_db w') k 0 message sig"
    unfolding signed_with_def partial_sig_of_def by blast
  then show ?thesis
    by (rule that [OF 1 db m])
qed

section \<open>An example run\<close>

text \<open>
  A verifier that answers a deposit, signs the kickoff output of its operator twice, then the
  operator-takes and the move transaction, and answers the deposit again.
\<close>

definition example_verifier :: verifier where
  "example_verifier = \<lparr>verifier_signer = actor_new example_lib (replicate 32 1) Regtest,
     verifier_config = example_config (replicate 32 1), verifier_nofn_xonly_pk = example_nofn,
     verifier_operator_xonly_pks = [replicate 32 2]\<rparr>"

definition checked_kickoff :: utxo where
  "checked_kickoff =
    (case create_kickoff_address example_lib example_nofn (replicate 32 2) Regtest of
       Ok (addr, _) \<Rightarrow> \<lparr>utxo_outpoint = \<lparr>op_txid = replicate 32 4, op_vout = 0\<rparr>,
         utxo_txout = \<lparr>txout_value = 100000, txout_script = address_script_pubkey example_lib addr\<rparr>\<rparr>
     | _ \<Rightarrow> example_funding)"

definition checked_kickoff_sig :: signature where
  "checked_kickoff_sig = digest (op_txid (deposit_at 0) @ u32_be 0 @ replicate 32 4 @ u32_be 0) @ replicate 32 2"

definition send_kickoffs :: "u8 \<Rightarrow> (example_chain, bytes list \<times> bytes list) handler" where
  "send_kickoffs b = operator_kickoffs_generated example_lib example_verifier (deposit_at 0)
     [checked_kickoff] [checked_kickoff_sig] (replicate 3 (replicate 66 b))"

definition ask_nonces :: "(example_chain, bytes list) handler" where
  "ask_nonces = verifier_new_deposit example_lib example_node example_verifier (deposit_at 0)
     example_recovery example_evm"

definition ok_value :: "'a list outcome \<Rightarrow> 'a list" where
  "ok_value x = (case x of Ok a \<Rightarrow> a | _ \<Rightarrow> [])"

definition move_outpoint :: outpoint where
  "move_outpoint = (case create_move_tx example_lib (deposit_at 0) example_nofn 100000000 Regtest of
     Ok tx \<Rightarrow> \<lparr>op_txid = compute_txid example_lib tx, op_vout = 0\<rparr> | _ \<Rightarrow> example_deposit)"

definition slash_sigs :: "signature list" where
  "slash_sigs = [ok_value (slash_or_take_sighash example_lib example_verifier (deposit_at 0)
     [checked_kickoff_sig] (0, checked_kickoff)) @ example_nofn]"

definition takes_sigs :: "signature list" where
  "takes_sigs = [ok_value (operator_takes_sighash example_lib example_verifier (deposit_at 0)
     move_outpoint slash_sigs (0, checked_kickoff)) @ digest example_nofn]"

definition send_slash_sigs :: "(example_chain, bytes list) handler" where
  "send_slash_sigs = burn_txs_signed example_lib example_verifier (deposit_at 0) [] slash_sigs"

definition send_takes_sigs :: "(example_chain, bytes) handler" where
  "send_takes_sigs = operator_take_txs_signed example_lib example_verifier (deposit_at 0) takes_sigs"

abbreviation verified_run :: "(database, example_chain) world \<Rightarrow> (database, example_chain) world \<Rightarrow> bool" where
  "verified_run \<equiv> verifier_run example_lib example_node example_verifier"

lemma verifier_session:
  obtains pubs w1 sigs w2 sigs' w3 takes_partial w4 move_partial w5 pubs' w6 where
    "ask_nonces start_world = (Ok pubs, w1)" "send_kickoffs 4 w1 = (Ok (sigs, []), w2)" "length sigs = 1"
    "send_kickoffs 5 w2 = (Ok (sigs', []), w3)" "length sigs' = 1"
    "send_slash_sigs w3 = (Ok takes_partial, w4)" "length takes_partial = 1"
    "send_takes_sigs w4 = (Ok move_partial, w5)" "ask_nonces w5 = (Ok pubs', w6)"
    "deposit_info_of (world_db w5) (deposit_at 0) \<noteq> None" "deposit_info_of (world_db w5) (deposit_at 1) = None"
proof -
  have "let (r0, w1) = ask_nonces start_world; (r1, w2) = send_kickoffs 4 w1;
      (r2, w3) = send_kickoffs 5 w2; (r3, w4) = send_slash_sigs w3; (r4, w5) = send_takes_sigs w4;
      (r5, w6) = ask_nonces w5
    in is_Ok r0 \<and> (case r1 of Ok (sigs, burns) \<Rightarrow> burns = [] \<and> length sigs = 1 | _ \<Rightarrow> False) \<and>
      (case r2 of Ok (sigs, burns) \<Rightarrow> burns = [] \<and> length sigs = 1 | _ \<Rightarrow> False) \<and>
      (case r3 of Ok sigs \<Rightarrow> length sigs = 1 | _ \<Rightarrow> False) \<and> is_Ok r4 \<and> is_Ok r5 \<and>
      deposit_info_of (world_db w5) (deposit_at 0) \<noteq> None \<and> deposit_info_of (world_db w5) (deposit_at 1) = None"
    by code_simp
  then show ?thesis
    by (auto simp: Let_def is_Ok_iff split: prod.splits outcome.splits intro: that)
qed

lemma verified_run_steps:
  "ask_nonces w = (Ok pubs, w') \<Longrightarrow> verified_run w w'"
  "send_kickoffs b w = (r, w') \<Longrightarrow> verified_run w w'"
  "send_slash_sigs w = (r', w') \<Longrightarrow> verified_run w w'"
  "send_takes_sigs w = (r'', w') \<Longrightarrow> verified_run w w'"
  unfolding ask_nonces_def send_kickoffs_def send_slash_sigs_def send_takes_sigs_def
  by (blast intro: verifier_step.intros)+

lemma start_world_empty [simp]: "world_db start_world = empty_database"
  by (simp add: start_world_def)

lemma example_verifier_simps [simp]:
  "cfg_num_operators (verifier_config example_verifier) = 1"
  "verifier_operator_xonly_pks example_verifier = [replicate 32 2]"
  by (simp_all add: example_verifier_def example_config_def)

section \<open>Properties\<close>

text \<open>
  C3. Along every run of a verifier that starts with empty tables, a row of nonces signs one message
  only: if a row holds a message with its secret nonce, then whatever is requested later, restarts
  and lost messages included, it never holds another message or another secret nonce.
\<close>

theorem nonce_signs_one_message:
  assumes "verifier_run L N self w0 w1" "world_db w0 = empty_database" "verifier_run L N self w1 w2"
    and "nonce_used (world_db w1) k i message pair" "nonce_used (world_db w2) k i message' pair'"
  shows "message' = message \<and> fst pair' = fst pair"
proof -
  have "distinct_keys (world_db w1)"
    using verifier_run_inv [OF assms(1)] assms(2) verifier_inv_empty by (simp add: verifier_inv_def)
  then show ?thesis
    using nonce_used_kept [OF verifier_run_kept [OF assms(3)]] assms(4,5) by blast
qed

theorem nonce_signs_one_message_witness:
  "\<exists>w1 w2 message pair pair'. verified_run start_world w1 \<and> verified_run w1 w2 \<and>
    nonce_used (world_db w1) (deposit_at 0) 2 message pair \<and>
    nonce_used (world_db w2) (deposit_at 0) 2 message pair' \<and> fst pair' = fst pair"
proof (rule verifier_session)
  fix pubs w1 sigs w2 sigs' w3
  assume 0: "ask_nonces start_world = (Ok pubs, w1)"
    and 1: "send_kickoffs 4 w1 = (Ok (sigs, []), w2)" "length sigs = 1"
    and 2: "send_kickoffs 5 w2 = (Ok (sigs', []), w3)" "length sigs' = 1"
  have run: "verified_run start_world w1" "verified_run start_world w2" "verified_run w2 w3"
    using verified_run_steps(1) [OF 0] verified_run_steps(2) [OF 1(1)] verified_run_steps(2) [OF 2(1)]
    by auto
  have "verifier_inv (num_required_nonces example_verifier) (world_db w1)"
    "verifier_inv (num_required_nonces example_verifier) (world_db w2)"
    using verifier_run_inv run verifier_inv_empty by (metis start_world_empty)+
  note inv = this
  obtain message pair where m: "nonce_used (world_db w2) (deposit_at 0) 2 message pair"
    using operator_kickoffs_generated_Ok [OF 1(1) [unfolded send_kickoffs_def] inv(1)] 1(2)
    by (metis example_verifier_simps(1) add_0_right less_one one_add_one)
  obtain message' pair' where m': "nonce_used (world_db w3) (deposit_at 0) 2 message' pair'"
    using operator_kickoffs_generated_Ok [OF 2(1) [unfolded send_kickoffs_def] inv(2)] 2(2)
    by (metis example_verifier_simps(1) add_0_right less_one one_add_one)
  from nonce_signs_one_message [OF run(2) start_world_empty run(3) m m'] run m m' show ?thesis
    by blast
qed

text \<open>
  C16. The tables of a verifier stay complete: after every run from empty tables the keys of the nonces
  are distinct, a deposit with saved details has exactly the nonces 0 to 2n for n operators, and an
  unknown deposit has none.
\<close>

theorem verifier_nonces_complete:
  assumes "verifier_run L N self w w'" "world_db w = empty_database"
  shows "distinct (List.map nonce_key (nonces (world_db w'))) \<and>
    (\<forall>k. nonce_idxs (world_db w') k =
      (if deposit_info_of (world_db w') k = None then {}
       else {..<2 * length (verifier_operator_xonly_pks self) + 1}))"
  using verifier_run_inv [OF assms(1)] assms(2) verifier_inv_empty
  by (simp add: verifier_inv_def num_required_nonces_def)

text \<open>A run in which one deposit goes through all of a verifier's steps, and another is unknown.\<close>

theorem verifier_nonces_complete_witness:
  "\<exists>pubs w1 w5. ask_nonces start_world = (Ok pubs, w1) \<and> verified_run w1 w5 \<and>
    distinct (List.map nonce_key (nonces (world_db w5))) \<and>
    nonce_idxs (world_db w5) (deposit_at 0) = {..<3} \<and> nonce_idxs (world_db w5) (deposit_at 1) = {}"
proof (rule verifier_session)
  fix pubs w1 sigs w2 sigs' w3 takes_partial w4 move_partial w5
  assume 0: "ask_nonces start_world = (Ok pubs, w1)"
    and 1: "send_kickoffs 4 w1 = (Ok (sigs, []), w2)" and 2: "send_kickoffs 5 w2 = (Ok (sigs', []), w3)"
    and 3: "send_slash_sigs w3 = (Ok takes_partial, w4)" and 4: "send_takes_sigs w4 = (Ok move_partial, w5)"
    and info: "deposit_info_of (world_db w5) (deposit_at 0) \<noteq> None" "deposit_info_of (world_db w5) (deposit_at 1) = None"
  have run: "verified_run w1 w5"
    using verified_run_steps(2) [OF 1] verified_run_steps(2) [OF 2] verified_run_steps(3) [OF 3]
      verified_run_steps(4) [OF 4] by (meson rtranclp_trans)
  have "verified_run start_world w5"
    using verified_run_steps(1) [OF 0] run by (rule rtranclp_trans)
  from verifier_nonces_complete [OF this start_world_empty] info 0 run show ?thesis
    by (auto simp: numeral_3_eq_3)
qed

lemma nonce_rows_pubs:
  assumes "verifier_inv n d" "deposit_info_of d k \<noteq> None"
  shows "List.map nonce_pub (nonce_rows k d) = List.map (\<lambda>i. nonce_pub (the (nonce_of d k i))) [0..<n]"
proof -
  have "filter (\<lambda>row. True) (nonce_rows k d) = List.map (\<lambda>i. the (nonce_of d k i)) [0..<n]"
    by (rule filter_nonce_rows) (use assms in \<open>auto simp: verifier_inv_def\<close>)
  then show ?thesis
    by (simp add: comp_def)
qed

lemma nonce_rows_Nil:
  assumes "verifier_inv n d" "0 < n"
  shows "nonce_rows k d = [] \<longleftrightarrow> deposit_info_of d k = None"
proof -
  have "nonce_rows k d = [] \<longleftrightarrow> nonce_idxs d k = {}"
    by (auto simp: nonce_rows_def nonce_idxs_def filter_empty_conv)
  with assms show ?thesis
    by (auto simp: verifier_inv_def)
qed

text \<open>
  C25. The answer to a deposit never changes: the first successful request draws 2n+1 nonces for n
  operators, and every later one, whatever happens in between, returns the same public nonces and
  changes nothing.
\<close>

theorem verifier_new_deposit_stable:
  assumes "verifier_run L N self w0 w1" "world_db w0 = empty_database"
    and "verifier_new_deposit L N self k recovery evm w1 = (Ok pubs, w2)"
    and "verifier_run L N self w2 w3"
    and "verifier_new_deposit L N self k recovery' evm' w3 = (Ok pubs', w4)"
  shows "pubs' = pubs \<and> length pubs = 2 * length (verifier_operator_xonly_pks self) + 1 \<and>
    world_db w4 = world_db w3"
proof -
  let ?n = "num_required_nonces self"
  have n: "0 < ?n"
    by (simp add: num_required_nonces_def)
  have inv1: "verifier_inv ?n (world_db w1)"
    using verifier_run_inv [OF assms(1)] assms(2) verifier_inv_empty by simp
  then have inv2: "verifier_inv ?n (world_db w2)"
    using verifier_run_inv assms(3) verifier_step.new_deposit by blast
  then have inv3: "verifier_inv ?n (world_db w3)"
    by (rule verifier_run_inv [OF assms(4)])
  have 2: "deposit_info_of (world_db w2) k \<noteq> None \<and> pubs = List.map nonce_pub (nonce_rows k (world_db w2)) \<and>
      length pubs = ?n"
  proof (cases "nonce_rows k (world_db w1) = []")
    case True
    with verifier_new_deposit_Ok [OF assms(3)] have m: "makes_nonces ?n k pubs (world_db w1) (world_db w2)"
      by simp
    have rows: "nonce_rows k (world_db w2) = sort_key nonce_idx (List.map (nonce_row_of k) (batch_of pairs))"
      if "nonces (world_db w2) = nonces (world_db w1) @ List.map (nonce_row_of k) (batch_of pairs)" for pairs
      using True that by (simp add: nonce_rows_def comp_def)
    have "List.map nonce_pub (List.map (nonce_row_of k) (batch_of pairs)) = List.map snd pairs" for pairs
    proof -
      have "List.map snd (batch_of pairs) = pairs"
        by (simp add: batch_of_def)
      then have "List.map snd (List.map snd (batch_of pairs)) = List.map snd pairs"
        by simp
      then show ?thesis
        by (simp add: comp_def)
    qed
    moreover have "sorted (List.map nonce_idx (List.map (nonce_row_of k) (batch_of pairs)))" for pairs
      by (simp add: comp_def)
    ultimately show ?thesis
      using m rows unfolding makes_nonces_def by (auto simp: sort_key_id_if_sorted)
  next
    case False
    then have "deposit_info_of (world_db w1) k \<noteq> None"
      using nonce_rows_Nil [OF inv1 n] by blast
    moreover note verifier_new_deposit_Ok [OF assms(3), unfolded if_not_P [OF False]]
    ultimately show ?thesis
      by metis
  qed
  have kept: "\<exists>row'. nonce_of (world_db w3) k i = Some row' \<and> nonce_pub row' = nonce_pub (the (nonce_of (world_db w2) k i))"
    if "i < ?n" for i
  proof -
    have "i \<in> nonce_idxs (world_db w2) k"
      using that 2 inv2 by (simp add: verifier_inv_def)
    then obtain row where "nonce_of (world_db w2) k i = Some row"
      using nonce_of_None_iff [of "world_db w2" k i] by auto
    with nonces_kept_of [OF verifier_run_kept [OF assms(4)] verifier_inv_rows(1) [OF inv2]] show ?thesis
      by (fastforce simp: nonce_row_kept_def)
  qed
  then have "0 \<in> nonce_idxs (world_db w3) k"
    using n nonce_of_None_iff [of "world_db w3" k 0] by fastforce
  then have 3: "deposit_info_of (world_db w3) k \<noteq> None"
    using inv3 unfolding verifier_inv_def by (metis empty_iff)
  have "List.map nonce_pub (nonce_rows k (world_db w3)) = List.map nonce_pub (nonce_rows k (world_db w2))"
    using kept 2 3 unfolding nonce_rows_pubs [OF inv3 3] by (fastforce simp: nonce_rows_pubs [OF inv2])
  moreover have "nonce_rows k (world_db w3) \<noteq> []"
    using 3 nonce_rows_Nil [OF inv3 n, of k] by simp
  note verifier_new_deposit_Ok [OF assms(5), unfolded if_not_P [OF this]]
  ultimately show ?thesis
    using 2 by (metis num_required_nonces_def)
qed

theorem verifier_new_deposit_stable_witness:
  "\<exists>pubs w1 w5 w6. ask_nonces start_world = (Ok pubs, w1) \<and> ask_nonces w5 = (Ok pubs, w6) \<and> length pubs = 3"
proof (rule verifier_session)
  fix pubs w1 sigs w2 sigs' w3 takes_partial w4 move_partial w5 pubs' w6
  assume 0: "ask_nonces start_world = (Ok pubs, w1)"
    and 1: "send_kickoffs 4 w1 = (Ok (sigs, []), w2)" and 2: "send_kickoffs 5 w2 = (Ok (sigs', []), w3)"
    and 3: "send_slash_sigs w3 = (Ok takes_partial, w4)" and 4: "send_takes_sigs w4 = (Ok move_partial, w5)"
    and 5: "ask_nonces w5 = (Ok pubs', w6)"
  have "verified_run w1 w5"
    using verified_run_steps(2) [OF 1] verified_run_steps(2) [OF 2] verified_run_steps(3) [OF 3]
      verified_run_steps(4) [OF 4] by (meson rtranclp_trans)
  from verifier_new_deposit_stable [OF rtranclp.rtrancl_refl start_world_empty
      0 [unfolded ask_nonces_def] this 5 [unfolded ask_nonces_def]]
  show ?thesis
    using 0 5 by auto
qed

lemma slash_or_take_sighash_Ok:
  assumes "slash_or_take_sighash L self k sigs (i, utxo) = Ok message"
  shows "i < length sigs \<and> i < length (cfg_operators_xonly_pks (verifier_config self)) \<and>
    i < length (verifier_operator_xonly_pks self) \<and> 100000 \<le> unat (txout_value (utxo_txout utxo)) \<and>
    verify_schnorr L (sigs ! i) (sha256 L (op_txid k @ u32_be (op_vout k) @
      op_txid (utxo_outpoint utxo) @ u32_be (op_vout (utxo_outpoint utxo))))
      (cfg_operators_xonly_pks (verifier_config self) ! i) \<and>
    (\<exists>addr info h. create_kickoff_address L (verifier_nofn_xonly_pk self)
        (verifier_operator_xonly_pks self ! i) (cfg_network (verifier_config self)) = Ok (addr, info) \<and>
      txout_script (utxo_txout utxo) = address_script_pubkey L addr \<and>
      create_slash_or_take_tx L k utxo (cfg_operators_xonly_pks (verifier_config self) ! i)
        (word_of_nat i) (verifier_nofn_xonly_pk self) (cfg_network (verifier_config self))
        (cfg_user_takes_after (verifier_config self)) (cfg_operator_takes_after (verifier_config self))
        (cfg_bridge_amount_sats (verifier_config self)) = Ok h \<and>
      convert_tx_to_sighash_script_spend L h 0 0 = Ok message)"
  using assms by (auto simp: slash_or_take_sighash_def Let_def not_less word_le_nat_alt split: prod.splits)



text \<open>
  C17. Each of the three calls signs with its own rows of nonces, on the message kept in the row: the
  move transaction with row 0, the operator-takes transaction of operator i with row 1 + i and a
  tweaked key, the slash-or-take transaction of operator i with row num_operators + 1 + i.
\<close>

theorem partial_signatures_use_own_rows:
  assumes "verifier_run L N self w0 w" "world_db w0 = empty_database"
  shows "(operator_take_txs_signed L self k sigs w = (Ok sig, w') \<longrightarrow>
      (\<exists>message. signed_with L self False (world_db w') k 0 message sig)) \<and>
    (burn_txs_signed L self k burn_sigs sigs w = (Ok partial_sigs, w') \<longrightarrow>
      (\<forall>i < length partial_sigs. \<exists>message.
        signed_with L self True (world_db w') k (1 + i) message (partial_sigs ! i))) \<and>
    (operator_kickoffs_generated L self k utxos sigs aggs w = (Ok (partial_sigs, []), w') \<longrightarrow>
      (\<forall>i < length partial_sigs. \<exists>message.
        signed_with L self False (world_db w') k (cfg_num_operators (verifier_config self) + 1 + i)
          message (partial_sigs ! i)))"
proof (intro conjI impI allI)
  have inv: "verifier_inv (num_required_nonces self) (world_db w)"
    using verifier_run_inv [OF assms(1)] assms(2) verifier_inv_empty by simp
  show "\<exists>message. signed_with L self False (world_db w') k 0 message sig"
    if "operator_take_txs_signed L self k sigs w = (Ok sig, w')"
    using operator_take_txs_signed_Ok [OF that inv] by blast
  show "\<exists>message. signed_with L self True (world_db w') k (1 + i) message (partial_sigs ! i)"
    if "burn_txs_signed L self k burn_sigs sigs w = (Ok partial_sigs, w')" "i < length partial_sigs" for i
    using burn_txs_signed_Ok [OF that(1) inv] that(2) unfolding signed_with_def by metis
  show "\<exists>message. signed_with L self False (world_db w') k (cfg_num_operators (verifier_config self) + 1 + i)
      message (partial_sigs ! i)"
    if "operator_kickoffs_generated L self k utxos sigs aggs w = (Ok (partial_sigs, []), w')" "i < length partial_sigs" for i
    using operator_kickoffs_generated_Ok [OF that(1) inv] that(2) unfolding signed_with_def by metis
qed

theorem partial_signatures_use_own_rows_witness:
  "\<exists>w4 w5 sig message. send_takes_sigs w4 = (Ok sig, w5) \<and>
    signed_with example_lib example_verifier False (world_db w5) (deposit_at 0) 0 message sig"
proof (rule verifier_session)
  fix pubs w1 sigs w2 sigs' w3 takes_partial w4 move_partial w5
  assume 0: "ask_nonces start_world = (Ok pubs, w1)"
    and 1: "send_kickoffs 4 w1 = (Ok (sigs, []), w2)" and 2: "send_kickoffs 5 w2 = (Ok (sigs', []), w3)"
    and 3: "send_slash_sigs w3 = (Ok takes_partial, w4)" and 4: "send_takes_sigs w4 = (Ok move_partial, w5)"
  have "verified_run start_world w4"
    using verified_run_steps(1) [OF 0] verified_run_steps(2) [OF 1] verified_run_steps(2) [OF 2]
      verified_run_steps(3) [OF 3] by (meson rtranclp_trans)
  from partial_signatures_use_own_rows [OF this start_world_empty, THEN conjunct1, rule_format,
      OF 4 [unfolded send_takes_sigs_def]] 4
  show ?thesis
    by blast
qed

text \<open>
  C23. The aggregated nonce of a row is not protected: when the kickoff call is repeated for a deposit,
  the verifier signs the same message with the same secret nonce again, under the aggregated nonce
  the caller sends. Two partial signatures with one secret nonce and different aggregated nonces
  give the verifier's secret key away.
\<close>

theorem kickoffs_repeated_reuse_nonce:
  assumes "operator_kickoffs_generated L self k utxos sigs aggs w1 = (Ok (partial_sigs, burn_sigs), w2)"
    and "verifier_run L N self w2 w3"
    and "operator_kickoffs_generated L self k utxos' sigs' aggs' w3 = (Ok (partial_sigs', burn_sigs'), w4)"
    and "verifier_run L N self w0 w1" "world_db w0 = empty_database"
    and "i < length partial_sigs" "i < length partial_sigs'"
    and "cfg_num_operators (verifier_config self) + 1 + i < length aggs"
    and "cfg_num_operators (verifier_config self) + 1 + i < length aggs'"
  shows "\<exists>message sec.
    partial_sig_of L self False (sec, aggs ! (cfg_num_operators (verifier_config self) + 1 + i)) message =
      Ok (partial_sigs ! i) \<and>
    partial_sig_of L self False (sec, aggs' ! (cfg_num_operators (verifier_config self) + 1 + i)) message =
      Ok (partial_sigs' ! i)"
proof -
  let ?r = "cfg_num_operators (verifier_config self) + 1 + i" and ?inv = "verifier_inv (num_required_nonces self)"
  have inv1: "?inv (world_db w1)"
    using verifier_run_inv [OF assms(4)] assms(5) verifier_inv_empty by simp
  have run: "verifier_run L N self w1 w2"
    using verifier_step.kickoffs [OF assms(1)] by blast
  then have inv2: "?inv (world_db w2)"
    using verifier_run_inv inv1 by blast
  then have inv3: "?inv (world_db w3)"
    by (rule verifier_run_inv [OF assms(2)])
  obtain message pair where 1: "nonce_used (world_db w2) k ?r message pair"
      "partial_sig_of L self False pair message = Ok (partial_sigs ! i)" "snd pair = aggs ! ?r"
    using operator_kickoffs_generated_Ok [OF assms(1) inv1] assms(6,8) by metis
  obtain message' pair' where 2: "nonce_used (world_db w4) k ?r message' pair'"
      "partial_sig_of L self False pair' message' = Ok (partial_sigs' ! i)" "snd pair' = aggs' ! ?r"
    using operator_kickoffs_generated_Ok [OF assms(3) inv3] assms(7,9) by metis
  have "verifier_run L N self w2 w4"
    using verifier_step.kickoffs [OF assms(3)] assms(2) by (meson rtranclp.rtrancl_into_rtrancl)
  then have "message' = message" "fst pair' = fst pair"
    using nonce_used_kept [OF verifier_run_kept verifier_inv_rows(1) [OF inv2] 1(1) 2(1)] by blast+
  with 1 2 show ?thesis
    by (metis prod.collapse)
qed

theorem kickoffs_repeated_reuse_nonce_witness:
  "\<exists>sig sig' message sec. partial_sig_of example_lib example_verifier False (sec, replicate 66 4) message = Ok sig \<and>
    partial_sig_of example_lib example_verifier False (sec, replicate 66 5) message = Ok sig'"
proof (rule verifier_session)
  fix pubs w1 sigs w2 sigs' w3
  assume 0: "ask_nonces start_world = (Ok pubs, w1)"
    and 1: "send_kickoffs 4 w1 = (Ok (sigs, []), w2)" "length sigs = 1"
    and 2: "send_kickoffs 5 w2 = (Ok (sigs', []), w3)" "length sigs' = 1"
  from kickoffs_repeated_reuse_nonce [OF 1(1) [unfolded send_kickoffs_def] rtranclp.rtrancl_refl
      2(1) [unfolded send_kickoffs_def] verified_run_steps(1) [OF 0] start_world_empty, of 0] 1(2) 2(2)
  show ?thesis
    by (simp add: numeral_3_eq_3 del: replicate.simps) blast
qed

end
