(* ===== verification/Reimbursement.thy ===== *)
theory Reimbursement
  imports Operator_Service Verifier_Role
begin

text \<open>
  An operator and a verifier that share one database, as the processes of one participant do, and
  what the operator can do with the tables both have filled: after a withdrawal is proved it returns
  transactions that can be published one after the other, from one unspent output of a transaction
  the node knows, without touching a kickoff output of another deposit.
\<close>

section \<open>Publishing transactions\<close>

text \<open>
  The outputs a transaction spends and makes, and the publication of transactions in order: each
  spends outputs that are unspent when it comes, no output twice.
\<close>

definition spent_outputs :: "btc_tx \<Rightarrow> outpoint list" where
  "spent_outputs tx = List.map txin_previous_output (btc_input tx)"

definition created_outputs :: "'x script_lib_scheme \<Rightarrow> btc_tx \<Rightarrow> outpoint set" where
  "created_outputs L tx = {k. op_txid k = compute_txid L tx \<and> unat (op_vout k) < length (btc_output tx)}"

fun publish :: "'x script_lib_scheme \<Rightarrow> outpoint set \<Rightarrow> btc_tx list \<Rightarrow> outpoint set option" where
  "publish L unspent [] = Some unspent"
| "publish L unspent (tx # txs) =
    (if distinct (spent_outputs tx) \<and> set (spent_outputs tx) \<subseteq> unspent
     then publish L (unspent - set (spent_outputs tx) \<union> created_outputs L tx) txs else None)"

lemma publish_append:
  "publish L unspent (txs @ txs') = Option.bind (publish L unspent txs) (\<lambda>unspent. publish L unspent txs')"
  by (induction txs arbitrary: unspent) auto

text \<open>The change of a transaction with new kickoff outputs, after the kickoff outputs.\<close>

definition change_of :: "'x script_lib_scheme \<Rightarrow> operator \<Rightarrow> btc_tx \<Rightarrow> utxo" where
  "change_of L self tx = output_utxo L tx (cfg_operator_num_kickoff_utxos_per_tx (operator_config self))"

abbreviation spends_change :: "'x script_lib_scheme \<Rightarrow> operator \<Rightarrow> btc_tx \<Rightarrow> btc_tx \<Rightarrow> bool" where
  "spends_change L self tx tx' \<equiv> spent_outputs tx' = [utxo_outpoint (change_of L self tx)]"

lemma publish_changes:
  "successively (spends_change L self) (tx # txs) \<Longrightarrow> spent_outputs tx = [k] \<Longrightarrow> k \<in> unspent \<Longrightarrow>
    \<forall>tx' \<in> set (tx # txs). utxo_outpoint (change_of L self tx') \<in> created_outputs L tx' \<Longrightarrow>
    \<exists>unspent'. publish L unspent (tx # txs) = Some unspent' \<and> created_outputs L (last (tx # txs)) \<subseteq> unspent'"
proof (induction txs arbitrary: tx k unspent)
  case (Cons tx' txs)
  from Cons.prems have "\<exists>unspent'. publish L (unspent - {k} \<union> created_outputs L tx) (tx' # txs) = Some unspent' \<and>
      created_outputs L (last (tx' # txs)) \<subseteq> unspent'"
    by (intro Cons.IH [of tx' "utxo_outpoint (change_of L self tx)"]) simp_all
  with Cons.prems(2,3) show ?case
    by (simp del: publish.simps add: publish.simps(2) [of L unspent tx])
qed simp

lemma same_inputs:
  assumes "handle_taproot_witness_new L h els i script_index = Ok h'"
  shows "List.map txin_previous_output (btc_input (handler_tx h')) =
    List.map txin_previous_output (btc_input (handler_tx h))"
proof -
  have "List.map txin_previous_output (xs[i := (xs ! i)\<lparr>txin_witness := v\<rparr>]) =
      List.map txin_previous_output xs" for xs :: "txin list" and i v
    by (cases "i < length xs") (auto simp: list_update_beyond nth_list_update intro!: nth_equalityI)
  with assms show ?thesis
    by (auto simp: handle_taproot_witness_new_def Let_def push_witness_def
        split: option.splits if_splits)
qed

lemma handle_witness_outputs:
  "handle_taproot_witness_new L h els i script_index = Ok h' \<Longrightarrow>
    btc_output (handler_tx h') = btc_output (handler_tx h)"
  by (auto simp: handle_taproot_witness_new_def Let_def push_witness_def split: option.splits if_splits)

lemma signed_kickoff_spends:
  assumes "signed_kickoff_tx L self funding h"
    and "unat (cfg_operator_num_kickoff_utxos_per_tx (operator_config self)) < 2 ^ 31"
  shows "List.map txin_previous_output (btc_input (handler_tx h)) = [utxo_outpoint funding]"
proof -
  from assms(1) obtain unsigned sig where
    u: "create_kickoff_utxo_tx L funding (operator_nofn_xonly_pk self) (actor_xonly (operator_signer self))
      (cfg_network (operator_config self))
      (cfg_operator_num_kickoff_utxos_per_tx (operator_config self)) = Ok unsigned"
    and h: "handle_taproot_witness_new L unsigned [sig] 0 None = Ok h"
    unfolding signed_kickoff_tx_def by blast
  have "unat (cfg_operator_num_kickoff_utxos_per_tx (operator_config self)) < 2 ^ 40"
    using assms(2) by simp
  from create_kickoff_utxo_tx_eq [OF u this]
  have "List.map txin_previous_output (btc_input (handler_tx unsigned)) = [utxo_outpoint funding]"
    by metis
  with same_inputs [OF h] show ?thesis
    by simp
qed

lemma change_vout:
  assumes "unat (cfg_operator_num_kickoff_utxos_per_tx (operator_config self)) < 2 ^ 31"
  shows "unat (op_vout (utxo_outpoint (change_of L self tx))) =
    unat (cfg_operator_num_kickoff_utxos_per_tx (operator_config self))"
  using assms by (simp add: change_of_def output_utxo_def unsigned_ucast_eq take_bit_nat_eq_self)

lemma change_created:
  assumes "signed_kickoff_tx L self funding h"
    and "unat (cfg_operator_num_kickoff_utxos_per_tx (operator_config self)) < 2 ^ 31"
  shows "utxo_outpoint (change_of L self (handler_tx h)) \<in> created_outputs L (handler_tx h)"
proof -
  let ?num = "cfg_operator_num_kickoff_utxos_per_tx (operator_config self)"
  have "length (btc_output (handler_tx h)) = unat ?num + 2"
    using signed_kickoff_outputs [OF assms] by metis
  with change_vout [OF assms(2), of L "handler_tx h"] show ?thesis
    by (simp add: created_outputs_def) (simp add: change_of_def output_utxo_def)
qed

section \<open>Where the funding outputs come from\<close>

text \<open>
  A funding output was given from outside, or is the change of a recorded transaction; and every
  recorded transaction spent such an output.
\<close>

definition recorded :: "'x script_lib_scheme \<Rightarrow> generator_row list \<Rightarrow> btc_tx \<Rightarrow> bool" where
  "recorded L rows tx \<longleftrightarrow>
    (compute_txid L tx, raw_hex L tx) \<in> (\<lambda>row. (gen_txid row, gen_raw_signed_tx row)) ` set rows"

definition funded :: "'x script_lib_scheme \<Rightarrow> operator \<Rightarrow> utxo set \<Rightarrow> generator_row list \<Rightarrow> utxo \<Rightarrow> bool" where
  "funded L self G rows f \<longleftrightarrow> f \<in> G \<or> (\<exists>tx. recorded L rows tx \<and> f = change_of L self tx)"

definition funding_inv :: "'x sign_lib_scheme \<Rightarrow> operator \<Rightarrow> utxo set \<Rightarrow> database \<Rightarrow> bool" where
  "funding_inv L self G d \<longleftrightarrow>
    (\<forall>f \<in> set (funding_utxos d). funded L self G (deposit_kickoff_generator_txs d) f) \<and>
    (\<forall>row \<in> set (deposit_kickoff_generator_txs d). \<exists>f h. signed_kickoff_tx L self f h \<and>
      gen_txid row = compute_txid L (handler_tx h) \<and> gen_raw_signed_tx row = raw_hex L (handler_tx h) \<and>
      gen_funding_txid row = op_txid (utxo_outpoint f) \<and> funded L self G (deposit_kickoff_generator_txs d) f)"

lemma recorded_unique:
  assumes "tx_roundtrip L" "distinct (List.map gen_txid rows)"
    and "recorded L rows tx" "recorded L rows tx'" "compute_txid L tx = compute_txid L tx'"
  shows "tx = tx'"
proof -
  from assms(3,4) obtain row row' where "row \<in> set rows" "row' \<in> set rows" "gen_txid row = gen_txid row'"
    and raw: "gen_raw_signed_tx row = raw_hex L tx" "gen_raw_signed_tx row' = raw_hex L tx'"
    using assms(5) by (auto simp: recorded_def)
  then have "row = row'"
    using assms(2) by (meson distinct_map inj_onD)
  with raw assms(1) show ?thesis
    unfolding tx_roundtrip_def by (metis option.inject)
qed

lemma funded_mono:
  "funded L self G rows f \<Longrightarrow>
    (\<lambda>row. (gen_txid row, gen_raw_signed_tx row)) ` set rows \<subseteq>
    (\<lambda>row. (gen_txid row, gen_raw_signed_tx row)) ` set rows' \<Longrightarrow> funded L self G rows' f"
  by (auto simp: funded_def recorded_def)

lemma funding_inv_empty: "funding_inv L self G empty_database"
  by (simp add: funding_inv_def empty_database_def)

lemma funding_inv_assigned:
  assumes "funding_inv L self G d" "assigned L self k u d d'"
  shows "funding_inv L self G d'"
proof -
  let ?rows = "deposit_kickoff_generator_txs d" and ?rows' = "deposit_kickoff_generator_txs d'"
  let ?ids = "\<lambda>rows. (\<lambda>row. (gen_txid row, gen_raw_signed_tx row)) ` set rows"
  consider (old) "d' = d" | (unused) "takes_unused L k u d d'" | (fresh) "makes_generator L self k u d d'"
    using assms(2) by (auto simp: assigned_def split: if_splits)
  then show ?thesis
  proof cases
    case unused
    then obtain i where i: "i < length ?rows" and d': "?rows' = ?rows[i := next_unused (?rows ! i)]"
      "funding_utxos d' = funding_utxos d"
      unfolding takes_unused_def Let_def by auto
    have "List.map (\<lambda>row. (gen_txid row, gen_raw_signed_tx row, gen_funding_txid row)) ?rows' =
        List.map (\<lambda>row. (gen_txid row, gen_raw_signed_tx row, gen_funding_txid row)) ?rows"
      unfolding d' using i by (intro nth_equalityI) (auto simp: nth_list_update next_unused_def)
    from arg_cong [OF this, of set] have ids: "(\<lambda>row. (gen_txid row, gen_raw_signed_tx row, gen_funding_txid row)) ` set ?rows' =
        (\<lambda>row. (gen_txid row, gen_raw_signed_tx row, gen_funding_txid row)) ` set ?rows"
      by simp
    have "?ids ?rows' = ?ids ?rows"
      using arg_cong [OF ids, of "image (\<lambda>(a, b, c). (a, b))"] by (simp add: image_image)
    then have "funded L self G ?rows' = funded L self G ?rows"
      by (auto simp: fun_eq_iff funded_def recorded_def)
    moreover have "\<exists>f h. signed_kickoff_tx L self f h \<and> gen_txid row = compute_txid L (handler_tx h) \<and>
        gen_raw_signed_tx row = raw_hex L (handler_tx h) \<and> gen_funding_txid row = op_txid (utxo_outpoint f) \<and>
        funded L self G ?rows f" if "row \<in> set ?rows'" for row
    proof -
      have "(gen_txid row, gen_raw_signed_tx row, gen_funding_txid row) \<in>
          (\<lambda>row. (gen_txid row, gen_raw_signed_tx row, gen_funding_txid row)) ` set ?rows"
        using imageI [OF that] unfolding ids [symmetric] .
      then obtain row' where row': "row' \<in> set ?rows" "gen_txid row = gen_txid row'"
        "gen_raw_signed_tx row = gen_raw_signed_tx row'" "gen_funding_txid row = gen_funding_txid row'"
        by blast
      with assms(1) show ?thesis
        unfolding funding_inv_def row'(2-4) by blast
    qed
    ultimately show ?thesis
      using assms(1) by (simp add: funding_inv_def d'(2))
  next
    case fresh
    let ?num = "cfg_operator_num_kickoff_utxos_per_tx (operator_config self)"
    from fresh obtain h where h: "signed_kickoff_tx L self (last (funding_utxos d)) h" "funding_utxos d \<noteq> []"
      and d': "?rows' = ?rows @ [generator_row_of L ?num (last (funding_utxos d)) (handler_tx h)]"
        "funding_utxos d' = funding_utxos d @ [change_of L self (handler_tx h)]"
      unfolding makes_generator_def Let_def by (auto simp: change_of_def)
    have mono: "funded L self G ?rows' f" if "funded L self G ?rows f" for f
      using that by (rule funded_mono) (auto simp: d')
    have "recorded L ?rows' (handler_tx h)"
      by (simp add: recorded_def d' generator_row_of_def)
    then have "funded L self G ?rows' (change_of L self (handler_tx h))"
      by (auto simp: funded_def)
    moreover have "funded L self G ?rows' (last (funding_utxos d))"
      using assms(1) h(2) mono unfolding funding_inv_def by simp
    ultimately show ?thesis
      using assms(1) h(1) mono unfolding funding_inv_def d' by (fastforce simp: generator_row_of_def)
  qed (use assms(1) in simp)
qed

section \<open>The search\<close>

text \<open>
  The answers of the node to the search: it does not know the transactions in the list, in the order
  it is asked, and then knows the last one.
\<close>

fun searched :: "'n node_ops \<Rightarrow> txid list \<Rightarrow> txid \<Rightarrow> 'n \<Rightarrow> bool" where
  "searched N [] known n \<longleftrightarrow> fst (get_raw_transaction_op N known n) \<noteq> None"
| "searched N (t # ts) known n \<longleftrightarrow> fst (get_raw_transaction_op N t n) = None \<and>
    searched N ts known (snd (get_raw_transaction_op N t n))"

lemma get_generator_tx_eq_Ok:
  assumes "get_deposit_kickoff_generator_tx txid w = (Ok (Some (raw, num, cur, funding)), w')"
  shows "(\<exists>row \<in> set (deposit_kickoff_generator_txs (world_db w)). gen_txid row = txid \<and>
    gen_raw_signed_tx row = raw \<and> gen_funding_txid row = funding) \<and> world_node w' = world_node w"
proof -
  from assms obtain qr where qr: "query (sql_get_generator_tx txid) w = (Ok qr, w')"
    and row: "(case qr of Some row \<Rightarrow> Some (gen_raw_signed_tx row, word_of_int (gen_num_kickoffs row),
          word_of_int (gen_cur_unused row), gen_funding_txid row) | None \<Rightarrow> None) =
        Some (raw, num, cur, funding)"
    by (auto simp: get_deposit_kickoff_generator_tx_def ask_eq_Ok)
  from query_eq_Ok [OF qr]
  have "find (\<lambda>row. gen_txid row = txid) (deposit_kickoff_generator_txs (world_db w)) = qr" "world_node w' = world_node w"
    by (auto simp: sql_get_generator_tx_def)
  with row show ?thesis
    by (auto simp: find_Some_iff split: option.splits)
qed

text \<open>
  The search returns transactions the operator signed, newest first, each later one spending the
  change of the one before it, if no funding output from outside belongs to a recorded transaction.
\<close>

definition kickoff_chain ::
  "'x sign_lib_scheme \<Rightarrow> operator \<Rightarrow> utxo set \<Rightarrow> generator_row list \<Rightarrow> btc_tx list \<Rightarrow> txid \<Rightarrow> txid \<Rightarrow> bool" where
  "kickoff_chain L self G rows gens known t \<longleftrightarrow>
    (\<forall>tx \<in> set gens. recorded L rows tx \<and> (\<exists>f h. signed_kickoff_tx L self f h \<and> tx = handler_tx h)) \<and>
    successively (spends_change L self) gens \<and>
    (if gens = [] then known = t
     else compute_txid L (last gens) = t \<and>
       (\<exists>f. funded L self G rows f \<and> op_txid (utxo_outpoint f) = known \<and> spent_outputs (hd gens) = [utxo_outpoint f]))"

lemma kickoff_chain_snoc:
  assumes "kickoff_chain L self G rows gens known (op_txid (utxo_outpoint f))"
    and h: "signed_kickoff_tx L self f h" "recorded L rows (handler_tx h)" "funded L self G rows f"
      "spent_outputs (handler_tx h) = [utxo_outpoint f]"
    and "tx_roundtrip L" "distinct (List.map gen_txid rows)"
    and "\<forall>f \<in> G. op_txid (utxo_outpoint f) \<notin> gen_txid ` set rows"
  shows "kickoff_chain L self G rows (gens @ [handler_tx h]) known (compute_txid L (handler_tx h))"
proof (cases "gens = []")
  case True
  with assms show ?thesis
    by (auto simp: kickoff_chain_def)
next
  case False
  with assms(1) have last: "compute_txid L (last gens) = op_txid (utxo_outpoint f)" "recorded L rows (last gens)"
    by (auto simp: kickoff_chain_def)
  then have "f \<notin> G"
    using assms(8) by (force simp: recorded_def)
  with h(3) obtain tx where tx: "recorded L rows tx" "f = change_of L self tx"
    by (auto simp: funded_def)
  then have "compute_txid L tx = compute_txid L (last gens)"
    using last(1) by (simp add: change_of_def output_utxo_def)
  then have "tx = last gens"
    using recorded_unique [OF assms(6,7) tx(1) last(2)] by blast
  with False assms(1) h tx show ?thesis
    by (auto simp: kickoff_chain_def successively_append_iff)
qed

lemma search_generator_txs_chain:
  assumes "search_generator_txs N n txid w = (Ok (raws, True), w')"
    and "funding_inv L self G (world_db w)" "tx_roundtrip L"
    and "distinct (List.map gen_txid (deposit_kickoff_generator_txs (world_db w)))"
    and "\<forall>f \<in> G. op_txid (utxo_outpoint f) \<notin> gen_txid ` set (deposit_kickoff_generator_txs (world_db w))"
    and "unat (cfg_operator_num_kickoff_utxos_per_tx (operator_config self)) < 2 ^ 31"
  shows "\<exists>gens known. raws = rev (List.map (raw_hex L) gens) \<and> length gens < n \<and>
    searched N (List.map (compute_txid L) (rev gens)) known (world_node w) \<and>
    kickoff_chain L self G (deposit_kickoff_generator_txs (world_db w)) gens known txid"
  using assms(1,2,4,5)
proof (induction n arbitrary: txid raws w)
  case (Suc n)
  let ?rows = "deposit_kickoff_generator_txs (world_db w)"
  from Suc.prems(1) obtain found w1 where get: "get_raw_transaction N txid w = (Ok found, w1)"
    and rest: "(if found \<noteq> None then return ([], True) else
      ask (get_deposit_kickoff_generator_tx txid) (\<lambda>qr.
      ask (lift (ok_or qr KickoffGeneratorTxNotFound)) (\<lambda>(raw_signed_tx, _, _, funding_txid).
      ask (search_generator_txs N n funding_txid) (\<lambda>(rest, found).
      return (raw_signed_tx # rest, found))))) w1 = (Ok (raws, True), w')"
    by (auto simp: ask_eq_Ok)
  have db: "world_db w1 = world_db w"
    using same_db.moves_ok [OF chain_functions_read(6) get] by simp
  have node: "get_raw_transaction_op N txid (world_node w) = (found, world_node w1)"
    using get by (auto simp: get_raw_transaction_def call_eq)
  show ?case
  proof (cases found)
    case (Some tx)
    with rest node show ?thesis
      by (intro exI [of _ "[]"] exI [of _ txid]) (simp add: kickoff_chain_def)
  next
    case None
    with rest obtain raw num cur funding w2 rest' where
      row: "get_deposit_kickoff_generator_tx txid w1 = (Ok (Some (raw, num, cur, funding)), w2)"
      and search: "search_generator_txs N n funding w2 = (Ok (rest', True), w')"
      and raws: "raws = raw # rest'"
      by (auto simp: ask_eq_Ok)
    have db2: "world_db w2 = world_db w"
      using same_db.moves_ok [OF get_functions_read(3) row] db by simp
    from get_generator_tx_eq_Ok [OF row] db obtain r where r: "r \<in> set ?rows" "gen_txid r = txid"
      "gen_raw_signed_tx r = raw" "gen_funding_txid r = funding" and node2: "world_node w2 = world_node w1"
      by auto
    then obtain f h where h: "signed_kickoff_tx L self f h" "txid = compute_txid L (handler_tx h)"
        "raw = raw_hex L (handler_tx h)" "funding = op_txid (utxo_outpoint f)" "funded L self G ?rows f"
      using Suc.prems(2) unfolding funding_inv_def by metis
    have rec: "recorded L ?rows (handler_tx h)"
      unfolding recorded_def using imageI [OF r(1), of "\<lambda>row. (gen_txid row, gen_raw_signed_tx row)"] r(2,3) h(2,3)
      by metis
    from Suc.IH [OF search] Suc.prems(2-4) db2 obtain gens known where
      g: "rest' = rev (List.map (raw_hex L) gens)" "length gens < n"
        "searched N (List.map (compute_txid L) (rev gens)) known (world_node w2)"
        "kickoff_chain L self G ?rows gens known (op_txid (utxo_outpoint f))"
      unfolding h(4) by auto
    have "spent_outputs (handler_tx h) = [utxo_outpoint f]"
      unfolding spent_outputs_def by (rule signed_kickoff_spends [OF h(1) assms(6)])
    from kickoff_chain_snoc [OF g(4) h(1) rec h(5) this assms(3) Suc.prems(3,4)] g h(2,3) raws None node node2
    show ?thesis
      by (intro exI [of _ "gens @ [handler_tx h]"] exI [of _ known]) simp
  qed
qed simp


section \<open>The transactions of a reimbursement\<close>

text \<open>What the handler does, step by step.\<close>

lemma withdrawal_proved_eq_Ok:
  assumes "withdrawal_proved_on_citrea L N self i k w = (Ok raws, w')"
  obtains w0 u w1 gens w2 slash slash1 sigs1 move_tx wallet takes takes1 takes2 sigs2 sigs3 where
    "(if operator_citrea_client self then check_citrea_filler L N self i k else return ()) w = (Ok (), w0)"
    "kickoff_of (world_db w) k = Some u" "world_db w1 = world_db w" "world_node w1 = world_node w0"
    "search_generator_txs N 25 (op_txid (utxo_outpoint u)) w1 = (Ok (gens, True), w2)"
    "create_slash_or_take_tx L k u (actor_xonly (operator_signer self)) (operator_idx self)
       (operator_nofn_xonly_pk self) (cfg_network (operator_config self))
       (cfg_user_takes_after (operator_config self)) (cfg_operator_takes_after (operator_config self))
       (cfg_bridge_amount_sats (operator_config self)) = Ok slash"
    "handle_taproot_witness_new L slash sigs1 0 (Some 0) = Ok slash1"
    "create_move_tx L k (operator_nofn_xonly_pk self) (cfg_bridge_amount_sats (operator_config self))
       (cfg_network (operator_config self)) = Ok move_tx"
    "create_operator_takes_tx L \<lparr>op_txid = compute_txid L move_tx, op_vout = 0\<rparr>
       \<lparr>utxo_outpoint = \<lparr>op_txid = compute_txid L (handler_tx slash), op_vout = 0\<rparr>,
        utxo_txout = btc_output (handler_tx slash) ! 0\<rparr>
       (actor_xonly (operator_signer self)) (operator_nofn_xonly_pk self)
       (cfg_network (operator_config self)) (cfg_operator_takes_after (operator_config self))
       (cfg_bridge_amount_sats (operator_config self)) wallet = Ok takes"
    "handle_taproot_witness_new L takes sigs2 0 None = Ok takes1"
    "handle_taproot_witness_new L takes1 sigs3 1 (Some 0) = Ok takes2"
    "raws = rev gens @ [raw_hex L (handler_tx slash1), raw_hex L (handler_tx takes2)]"
proof -
  from assms obtain w0 u w1 gens w2 slash w3 nofn_sig w4 aux w5 our_sig slash1 move_tx takes w6 takes_sig
      w7 aux2 our_sig2 takes1 takes2 where
    0: "(if operator_citrea_client self then check_citrea_filler L N self i k else return ()) w = (Ok (), w0)"
    and 1: "get_kickoff_utxo k w0 = (Ok (Some u), w1)"
    and 2: "search_generator_txs N 25 (op_txid (utxo_outpoint u)) w1 = (Ok (gens, True), w2)"
    and 3: "create_slash_or_take_tx L k u (actor_xonly (operator_signer self)) (operator_idx self)
       (operator_nofn_xonly_pk self) (cfg_network (operator_config self))
       (cfg_user_takes_after (operator_config self)) (cfg_operator_takes_after (operator_config self))
       (cfg_bridge_amount_sats (operator_config self)) = Ok slash"
    and 4: "handle_taproot_witness_new L slash [our_sig, nofn_sig] 0 (Some 0) = Ok slash1"
    and 5: "create_move_tx L k (operator_nofn_xonly_pk self) (cfg_bridge_amount_sats (operator_config self))
       (cfg_network (operator_config self)) = Ok move_tx"
    and 6: "create_operator_takes_tx L \<lparr>op_txid = compute_txid L move_tx, op_vout = 0\<rparr>
       \<lparr>utxo_outpoint = \<lparr>op_txid = compute_txid L (handler_tx slash), op_vout = 0\<rparr>,
        utxo_txout = btc_output (handler_tx slash) ! 0\<rparr>
       (actor_xonly (operator_signer self)) (operator_nofn_xonly_pk self)
       (cfg_network (operator_config self)) (cfg_operator_takes_after (operator_config self))
       (cfg_bridge_amount_sats (operator_config self))
       (cfg_operator_wallet_addresses (operator_config self) ! unat (operator_idx self)) = Ok takes"
    and 7: "handle_taproot_witness_new L takes [takes_sig] 0 None = Ok takes1"
    and 8: "handle_taproot_witness_new L takes1 [our_sig2] 1 (Some 0) = Ok takes2"
    and 9: "raws = rev gens @ [raw_hex L (handler_tx slash1), raw_hex L (handler_tx takes2)]"
    unfolding withdrawal_proved_on_citrea_def sign_slash_or_take_def sign_operator_takes_def Let_def
    by (auto simp: ask_eq_Ok simp del: nat_uint_eq)
  have w0: "world_db w0 = world_db w"
    using 0 same_db.moves_ok [OF chain_functions_read(2) [of L N self i k], of w "Ok ()" w0]
    by (simp split: if_splits)
  have "kickoff_of (world_db w) k = Some u" "world_db w1 = world_db w" "world_node w1 = world_node w0"
    using get_kickoff_utxo_eq_Ok [OF 1] w0 by simp_all
  from 0 this 2 3 4 5 6 7 8 9 show ?thesis
    by (rule that)
qed

section \<open>An operator and a verifier on one database\<close>

inductive shared_step ::
  "'x lib_scheme \<Rightarrow> 'n node_ops \<Rightarrow> operator \<Rightarrow> verifier \<Rightarrow> (database, 'n) world \<Rightarrow> (database, 'n) world \<Rightarrow> bool"
  for L N self v where
  by_operator: "operator_step L N self w w' \<Longrightarrow> shared_step L N self v w w'"
| by_verifier: "verifier_step L N v w w' \<Longrightarrow> shared_step L N self v w w'"

abbreviation shared_run ::
  "'x lib_scheme \<Rightarrow> 'n node_ops \<Rightarrow> operator \<Rightarrow> verifier \<Rightarrow> (database, 'n) world \<Rightarrow> (database, 'n) world \<Rightarrow> bool" where
  "shared_run L N self v \<equiv> (shared_step L N self v)\<^sup>*\<^sup>*"

text \<open>Neither writes the tables of the other.\<close>

definition same_operator_tables :: "database \<Rightarrow> database \<Rightarrow> bool" where
  "same_operator_tables d d' \<longleftrightarrow> funding_utxos d' = funding_utxos d \<and>
    deposit_kickoff_generator_txs d' = deposit_kickoff_generator_txs d \<and>
    operators_kickoff_utxo d' = operators_kickoff_utxo d"

interpretation operator_tables: db_order same_operator_tables
  by unfold_locales (auto simp: same_operator_tables_def)

lemma update_nonces_operator:
  "same_operator_tables d (snd (update_nonces f d))"
  "update_nonces f d = (r, d') \<Longrightarrow> same_operator_tables d d'"
  by (auto simp: update_nonces_def same_operator_tables_def split: if_splits)

lemma sql_same_operator [simp]:
  "same_operator_tables d (snd (sql_save_agg_nonces k agg_nonces d))"
  "same_operator_tables d (snd (sql_save_sighashes_and_get_nonces k i sighashes d))"
  "same_operator_tables d (snd (sql_save_kickoff_utxos k utxos d))"
  "same_operator_tables d (snd (sql_save_slash_or_take_sigs k sigs d))"
  "same_operator_tables d (snd (sql_save_operator_take_sigs k utxos_and_sigs d))"
  "same_operator_tables d (snd (sql_save_deposit_info k recovery evm d))"
  "same_operator_tables d (snd (sql_save_nonces k pairs d))"
proof -
  show "same_operator_tables d (snd (sql_save_agg_nonces k agg_nonces d))"
    by (simp add: sql_save_agg_nonces_def operator_tables.refl update_nonces_operator)
  show "same_operator_tables d (snd (sql_save_sighashes_and_get_nonces k i sighashes d))"
    by (auto simp: sql_save_sighashes_and_get_nonces_def Let_def operator_tables.refl
        dest: update_nonces_operator(2) split: prod.splits sum.splits option.splits)
qed (simp_all add: same_operator_tables_def sql_save_kickoff_utxos_def sql_save_slash_or_take_sigs_def
    sql_save_operator_take_sigs_def sql_save_deposit_info_def sql_save_nonces_def Let_def)

lemma reads_same_operator: "moves (=) m \<Longrightarrow> moves same_operator_tables m"
  unfolding moves_def by (metis operator_tables.refl)

lemma verifier_same_operator:
  "moves same_operator_tables (verifier_new_deposit L N v k recovery evm)"
  "moves same_operator_tables (operator_kickoffs_generated L v k utxos sigs agg_nonces)"
  "moves same_operator_tables (burn_txs_signed L v k burn_sigs sigs)"
  "moves same_operator_tables (operator_take_txs_signed L v k sigs)"
  "moves same_operator_tables (verifier_new L config)"
proof -
  have "moves same_operator_tables (save_kickoff_utxos k utxos)"
    "moves same_operator_tables (save_agg_nonces k agg_nonces)"
    "moves same_operator_tables (save_slash_or_take_sigs k sigs)"
    "moves same_operator_tables (save_operator_take_sigs k utxos_and_sigs)"
    "moves same_operator_tables (save_sighashes_and_get_nonces k i sighashes)"
    "moves same_operator_tables (save_deposit_info k recovery evm)"
    "moves same_operator_tables (save_nonces k pairs)" "moves same_operator_tables database_new"
    for utxos agg_nonces sigs utxos_and_sigs i sighashes pairs
    unfolding save_kickoff_utxos_def save_agg_nonces_def save_slash_or_take_sigs_def database_new_def
      save_operator_take_sigs_def save_sighashes_and_get_nonces_def save_deposit_info_def save_nonces_def
    by (intro operator_tables.moves_intros operator_tables.moves_optional_row; simp add: operator_tables.refl)+
  note keep = this operator_tables.moves_intros reads_same_operator create_deposit_details_read
    draw_nonces_read get_functions_read check_deposit_utxo_read
  show "moves same_operator_tables (verifier_new_deposit L N v k recovery evm)"
    "moves same_operator_tables (operator_kickoffs_generated L v k utxos sigs agg_nonces)"
    "moves same_operator_tables (burn_txs_signed L v k burn_sigs sigs)"
    "moves same_operator_tables (operator_take_txs_signed L v k sigs)"
    "moves same_operator_tables (verifier_new L config)"
    unfolding verifier_new_deposit_def find_or_make_nonces_def make_nonces_def
      operator_kickoffs_generated_def burn_txs_signed_def operator_take_txs_signed_def verifier_new_def Let_def
    by (intro keep)+
qed

lemma verifier_step_operator: "verifier_step L N v w w' \<Longrightarrow> same_operator_tables (world_db w) (world_db w')"
  by (induction rule: verifier_step.induct)
    (metis operator_tables.moves_ok [OF verifier_same_operator(1)]
      operator_tables.moves_ok [OF verifier_same_operator(2)] operator_tables.moves_ok [OF verifier_same_operator(3)]
      operator_tables.moves_ok [OF verifier_same_operator(4)] operator_tables.moves_ok [OF verifier_same_operator(5)]
      operator_tables.refl)+

lemma outputs_inv_same_operator:
  assumes "same_operator_tables d d'" "outputs_inv L self d"
  shows "outputs_inv L self d'"
  using assms operator_inv_same [of d d'] unfolding outputs_inv_def same_operator_tables_def by simp

lemma shared_run_outputs:
  assumes "shared_run L N self v w w'" "outputs_inv L self (world_db w)" "tx_roundtrip L"
    and "unat (cfg_operator_num_kickoff_utxos_per_tx (operator_config self)) < 2 ^ 31"
  shows "outputs_inv L self (world_db w')"
  using assms(1,2)
proof (induction rule: rtranclp_induct)
  case (step w1 w2)
  from step(2) show ?case
  proof cases
    case by_operator
    then show ?thesis
      using operator_run_outputs [OF _ _ assms(3,4)] step by blast
  next
    case by_verifier
    then show ?thesis
      using verifier_step_operator outputs_inv_same_operator step by blast
  qed
qed

section \<open>Runs with funding from outside\<close>

text \<open>
  Runs in which the funding outputs that a caller of \<open>set_funding_utxo\<close> gives, and those an operator
  buys from the wallet when it starts, are of the set \<open>G\<close>.
\<close>

inductive funded_step ::
  "'x lib_scheme \<Rightarrow> 'n node_ops \<Rightarrow> operator \<Rightarrow> verifier \<Rightarrow> utxo set \<Rightarrow> (database, 'n) world \<Rightarrow>
   (database, 'n) world \<Rightarrow> bool"
  for L N self v G where
  set_funding: "operator_set_funding_utxo f w = (r, w') \<Longrightarrow> f \<in> G \<Longrightarrow> funded_step L N self v G w w'"
| restart: "operator_new L N (operator_config self) w = (r', w') \<Longrightarrow>
    set (funding_utxos (world_db w')) \<subseteq> set (funding_utxos (world_db w)) \<union> G \<Longrightarrow> funded_step L N self v G w w'"
| new_deposit: "operator_new_deposit L N self k recovery evm w = (r'', w') \<Longrightarrow> funded_step L N self v G w w'"
| withdrawal: "new_withdrawal_sig L N self i sig u out w = (r1, w') \<Longrightarrow> funded_step L N self v G w w'"
| proved: "withdrawal_proved_on_citrea L N self i k w = (r2, w') \<Longrightarrow> funded_step L N self v G w w'"
| outside: "world_db w' = world_db w \<Longrightarrow> funded_step L N self v G w w'"
| by_verifier: "verifier_step L N v w w' \<Longrightarrow> funded_step L N self v G w w'"

abbreviation funded_run ::
  "'x lib_scheme \<Rightarrow> 'n node_ops \<Rightarrow> operator \<Rightarrow> verifier \<Rightarrow> utxo set \<Rightarrow> (database, 'n) world \<Rightarrow>
   (database, 'n) world \<Rightarrow> bool" where
  "funded_run L N self v G \<equiv> (funded_step L N self v G)\<^sup>*\<^sup>*"

text \<open>They are the runs of before, with the set of all outputs.\<close>

lemma funded_step_shared: "funded_step L N self v G w w' \<Longrightarrow> shared_step L N self v w w'"
  by (induction rule: funded_step.induct) (auto intro: shared_step.intros operator_step.intros)

lemma shared_step_funded: "shared_step L N self v w w' \<Longrightarrow> funded_step L N self v UNIV w w'"
  by (auto elim!: shared_step.cases operator_step.cases intro: funded_step.intros)

lemma set_funding_adds:
  assumes "operator_set_funding_utxo f w = (r, w')"
  shows "set (funding_utxos (world_db w')) \<subseteq> insert f (set (funding_utxos (world_db w)))"
  using assms
  by (auto simp: operator_set_funding_utxo_def set_funding_utxo_def sql_set_funding_utxo_def query_def ask_def
      run_sql_def or_database_error_def Let_def split: prod.splits fault.splits sum.splits)

lemma funded_step_effect:
  assumes "funded_step L N self v G w w'"
  shows "only_funding (world_db w) (world_db w') \<and>
      set (funding_utxos (world_db w')) \<subseteq> set (funding_utxos (world_db w)) \<union> G \<or>
    (\<exists>k u. assigned L self k u (world_db w) (world_db w')) \<or> same_operator_tables (world_db w) (world_db w')"
  using assms
proof cases
  case (set_funding f r)
  then show ?thesis
    using operator_step_effect [OF operator_step.set_funding [of f w r w' L N self]] set_funding_adds [of f w r w']
      funding_order.moves_ok [OF set_funding_moves] unfolding operator_set_funding_utxo_def by blast
next
  case (restart r)
  then show ?thesis
    using funding_order.moves_ok [OF operator_new_moves] by blast
next
  case (new_deposit k recovery evm r)
  then show ?thesis
    using operator_new_deposit_effect operator_tables.refl by metis
next
  case by_verifier
  then show ?thesis
    using verifier_step_operator by blast
qed (metis same_db.moves_ok [OF withdrawals_read(1)] same_db.moves_ok [OF withdrawals_read(2)]
    operator_tables.refl)+

lemma funded_run_inv:
  assumes "funded_run L N self v G w w'" "funding_inv L self G (world_db w)"
  shows "funding_inv L self G (world_db w')"
  using assms
proof (induction rule: rtranclp_induct)
  case (step w1 w2)
  then have inv: "funding_inv L self G (world_db w1)"
    by blast
  from funded_step_effect [OF step(2)] show ?case
  proof (elim disjE exE)
    assume only: "only_funding (world_db w1) (world_db w2) \<and>
      set (funding_utxos (world_db w2)) \<subseteq> set (funding_utxos (world_db w1)) \<union> G"
    then have rows: "deposit_kickoff_generator_txs (world_db w2) = deposit_kickoff_generator_txs (world_db w1)"
      using only_funding_tables by blast
    have "funded L self G rows f" if "f \<in> G" for rows f
      using that by (simp add: funded_def)
    then have "\<forall>f \<in> set (funding_utxos (world_db w2)).
        funded L self G (deposit_kickoff_generator_txs (world_db w1)) f"
      using inv only unfolding funding_inv_def by blast
    with inv show ?thesis
      unfolding funding_inv_def rows by blast
  next
    fix k u assume "assigned L self k u (world_db w1) (world_db w2)"
    then show ?thesis
      using funding_inv_assigned [OF inv] by blast
  next
    assume "same_operator_tables (world_db w1) (world_db w2)"
    then show ?thesis
      using inv by (simp add: funding_inv_def same_operator_tables_def)
  qed
qed

lemma funded_run_shared: "funded_run L N self v G w w' \<Longrightarrow> shared_run L N self v w w'"
  by (induction rule: rtranclp_induct) (auto dest: funded_step_shared intro: rtranclp.rtrancl_into_rtrancl)

section \<open>Properties\<close>

text \<open>Assigned kickoff outputs are of recorded transactions, before the change.\<close>

lemma assigned_place:
  assumes "outputs_inv L self d" "kickoff_of d k = Some u"
    and "unat (cfg_operator_num_kickoff_utxos_per_tx (operator_config self)) < 2 ^ 31"
  shows "op_txid (utxo_outpoint u) \<in> gen_txid ` set (deposit_kickoff_generator_txs d) \<and>
    unat (op_vout (utxo_outpoint u)) < unat (cfg_operator_num_kickoff_utxos_per_tx (operator_config self))"
proof -
  let ?num = "cfg_operator_num_kickoff_utxos_per_tx (operator_config self)"
  have "u \<in> snd ` set (operators_kickoff_utxo d)"
    using assms(2) unfolding kickoff_of_def by (auto dest: map_of_SomeD intro: rev_image_eqI)
  with assms(1) obtain row where row: "row \<in> set (deposit_kickoff_generator_txs d)"
    "gen_txid row = op_txid (utxo_outpoint u)" "uint (op_vout (utxo_outpoint u)) < gen_cur_unused row"
    unfolding outputs_inv_def operator_inv_def below_counter_def by blast
  moreover have "gen_cur_unused row \<le> i32_of_usize ?num"
    using assms(1) row(1) unfolding outputs_inv_def operator_inv_def generators_ok_def row_of_signed_def by fastforce
  ultimately have "uint (op_vout (utxo_outpoint u)) < uint ?num"
    using i32_of_usize_small(1) [OF assms(3)] by simp
  then have "nat (uint (op_vout (utxo_outpoint u))) < nat (uint ?num)"
    by (simp only: nat_less_eq_zless [OF unsigned_greater_eq])
  then have "unat (op_vout (utxo_outpoint u)) < unat ?num"
    by (simp only: nat_uint_eq)
  moreover have "op_txid (utxo_outpoint u) \<in> gen_txid ` set (deposit_kickoff_generator_txs d)"
    using row(1) unfolding row(2) [symmetric] by (rule imageI)
  ultimately show ?thesis
    by blast
qed

lemma kickoff_chain_spends:
  assumes "kickoff_chain L self G rows gens known t" "tx \<in> set gens"
  shows "\<exists>f. funded L self G rows f \<and> spent_outputs tx = [utxo_outpoint f]"
proof -
  from assms(2) obtain i where i: "i < length gens" "tx = gens ! i"
    by (metis in_set_conv_nth)
  show ?thesis
  proof (cases i)
    case 0
    with i assms(1) show ?thesis
      by (cases gens) (auto simp: kickoff_chain_def)
  next
    case (Suc j)
    with i assms(1) have "spends_change L self (gens ! j) tx" "recorded L rows (gens ! j)"
      by (auto simp: kickoff_chain_def successively_conv_nth)
    then show ?thesis
      by (auto simp: funded_def)
  qed
qed

lemma kickoff_chain_spares:
  assumes "kickoff_chain L self G (deposit_kickoff_generator_txs d) gens known t" "tx \<in> set gens"
    and "outputs_inv L self d" "kickoff_of d k = Some u"
    and "\<forall>f \<in> G. op_txid (utxo_outpoint f) \<notin> gen_txid ` set (deposit_kickoff_generator_txs d)"
    and "unat (cfg_operator_num_kickoff_utxos_per_tx (operator_config self)) < 2 ^ 31"
  shows "utxo_outpoint u \<notin> set (spent_outputs tx)"
proof -
  from kickoff_chain_spends [OF assms(1,2)] obtain f where
    f: "funded L self G (deposit_kickoff_generator_txs d) f" "spent_outputs tx = [utxo_outpoint f]"
    by blast
  note place = assigned_place [OF assms(3,4,6)]
  from f(1) have "utxo_outpoint f \<noteq> utxo_outpoint u"
  proof (cases "f \<in> G")
    case False
    with f(1) obtain tx' where "f = change_of L self tx'"
      by (auto simp: funded_def)
    then show ?thesis
      using place change_vout [OF assms(6), of L tx'] by (metis less_irrefl)
  qed (use assms(5) place in metis)
  with f(2) show ?thesis
    by simp
qed

text \<open>The whole chain, and the transaction that spends the kickoff output after it, can be published.\<close>

lemma kickoff_chain_published:
  assumes "kickoff_chain L self G (deposit_kickoff_generator_txs d) gens known (op_txid (utxo_outpoint u))"
    and "outputs_inv L self d" "kickoff_of d k = Some u"
    and "unat (cfg_operator_num_kickoff_utxos_per_tx (operator_config self)) < 2 ^ 31"
    and "spent_outputs slash = [utxo_outpoint u]" "btc_output slash \<noteq> []"
  obtains first where "op_txid first = known"
    "\<forall>unspent. first \<in> unspent \<longrightarrow> (\<exists>unspent'. publish L unspent (gens @ [slash]) = Some unspent' \<and>
      \<lparr>op_txid = compute_txid L slash, op_vout = 0\<rparr> \<in> unspent')"
proof (cases gens)
  case Nil
  with assms show ?thesis
    by (intro that [of "utxo_outpoint u"]) (auto simp: kickoff_chain_def created_outputs_def)
next
  case (Cons tx txs)
  with assms(1) have chain: "successively (spends_change L self) (tx # txs)"
      "compute_txid L (last (tx # txs)) = op_txid (utxo_outpoint u)"
    by (simp_all add: kickoff_chain_def)
  from Cons assms(1) have "\<exists>f. funded L self G (deposit_kickoff_generator_txs d) f \<and>
      op_txid (utxo_outpoint f) = known \<and> spent_outputs tx = [utxo_outpoint f]"
    by (simp add: kickoff_chain_def)
  then obtain f :: utxo where f: "op_txid (utxo_outpoint f) = known" "spent_outputs tx = [utxo_outpoint f]"
    by blast
  have signed: "\<exists>f h. signed_kickoff_tx L self f h \<and> tx' = handler_tx h" if "tx' \<in> set (tx # txs)" for tx'
    using assms(1) that unfolding kickoff_chain_def Cons by blast
  then have change: "\<forall>tx' \<in> set (tx # txs). utxo_outpoint (change_of L self tx') \<in> created_outputs L tx'"
    using change_created [OF _ assms(4)] by blast
  obtain h f' where "signed_kickoff_tx L self f' h" "last (tx # txs) = handler_tx h"
    using signed [OF last_in_set] by blast
  then have "unat (cfg_operator_num_kickoff_utxos_per_tx (operator_config self)) < length (btc_output (last (tx # txs)))"
    using signed_kickoff_outputs [OF _ assms(4)] by (metis less_add_same_cancel1 zero_less_numeral)
  then have u: "utxo_outpoint u \<in> created_outputs L (last (tx # txs))"
    using assigned_place [OF assms(2-4)] chain(2) by (simp add: created_outputs_def)
  have "\<exists>unspent'. publish L unspent (gens @ [slash]) = Some unspent' \<and>
      \<lparr>op_txid = compute_txid L slash, op_vout = 0\<rparr> \<in> unspent'" if "utxo_outpoint f \<in> unspent" for unspent
  proof -
    from publish_changes [OF chain(1) f(2) that change] obtain unspent' where
      "publish L unspent (tx # txs) = Some unspent'" "utxo_outpoint u \<in> unspent'"
      using u by blast
    then show ?thesis
      unfolding Cons publish_append using assms(5,6) by (simp add: created_outputs_def)
  qed
  with f(1) that show ?thesis
    by blast
qed

text \<open>
  C4. After a withdrawal is proved, an operator that shares its database with a verifier returns at
  most 26 transactions that can be published in this order wherever one output, of a transaction that
  the node answered it knows, is unspent: at most 24 kickoff transactions it signed, none of which
  spends a kickoff output that is assigned to a deposit; then a slash-or-take transaction that spends
  the kickoff output of the deposit; and last, while the moved deposit is unspent, the transaction
  that spends it together with the slash-or-take output. The node was asked for these transactions in
  turn, newest first, and knew none of them. This is for runs from empty tables in which no funding
  output that is given from outside belongs to one of the operator's recorded transactions, and rests
  on ids of transactions not covering witnesses.
\<close>

theorem reimbursement_publishable:
  assumes "funded_run L N self v G w0 w" "world_db w0 = empty_database"
    and "\<forall>f \<in> G. op_txid (utxo_outpoint f) \<notin> gen_txid ` set (deposit_kickoff_generator_txs (world_db w))"
    and "tx_roundtrip L" "txid_ignores_witness L"
    and "unat (cfg_operator_num_kickoff_utxos_per_tx (operator_config self)) < 2 ^ 31"
    and "withdrawal_proved_on_citrea L N self i k w = (Ok raws, w')"
  shows "\<exists>gens slash takes first u w1 move_tx slash_outpoint move_outpoint.
    raws = List.map (raw_hex L) (gens @ [slash, takes]) \<and> length gens \<le> 24 \<and>
    (if operator_citrea_client self then check_citrea_filler L N self i k else return ()) w = (Ok (), w1) \<and>
    searched N (List.map (compute_txid L) (rev gens)) (op_txid first) (world_node w1) \<and>
    (\<forall>tx \<in> set gens. \<exists>funding h. signed_kickoff_tx L self funding h \<and> tx = handler_tx h) \<and>
    (\<forall>tx \<in> set gens. \<forall>k' u'. kickoff_of (world_db w) k' = Some u' \<longrightarrow> utxo_outpoint u' \<notin> set (spent_outputs tx)) \<and>
    kickoff_of (world_db w) k = Some u \<and> spent_outputs slash = [utxo_outpoint u] \<and>
    create_move_tx L k (operator_nofn_xonly_pk self) (cfg_bridge_amount_sats (operator_config self))
      (cfg_network (operator_config self)) = Ok move_tx \<and>
    move_outpoint = \<lparr>op_txid = compute_txid L move_tx, op_vout = 0\<rparr> \<and>
    slash_outpoint = \<lparr>op_txid = compute_txid L slash, op_vout = 0\<rparr> \<and>
    spent_outputs takes = [move_outpoint, slash_outpoint] \<and>
    (\<forall>unspent. first \<in> unspent \<longrightarrow> (\<exists>unspent'. publish L unspent (gens @ [slash]) = Some unspent' \<and>
      slash_outpoint \<in> unspent' \<and>
      (move_outpoint \<in> unspent' - {slash_outpoint} \<longrightarrow> publish L unspent (gens @ [slash, takes]) \<noteq> None)))"
  using assms(7)
proof (cases rule: withdrawal_proved_eq_Ok)
  case (1 w1 u w2 raw_gens w3 slash slash1 sigs1 move_tx wallet takes takes1 takes2)
  have inv: "outputs_inv L self (world_db w)" "funding_inv L self G (world_db w)"
    using shared_run_outputs [OF funded_run_shared [OF assms(1)] _ assms(4,6)] outputs_inv_empty [of L self]
      funded_run_inv [OF assms(1)] funding_inv_empty [of L self G] assms(2) by metis+
  then have "distinct (List.map gen_txid (deposit_kickoff_generator_txs (world_db w)))"
    by (simp add: outputs_inv_def operator_inv_def generators_ok_def)
  with search_generator_txs_chain [OF 1(5), of L self G] inv(2) 1(3,4) assms(3,4,6) obtain gens known where
    g: "raw_gens = rev (List.map (raw_hex L) gens)" "length gens < 25"
      "searched N (List.map (compute_txid L) (rev gens)) known (world_node w1)"
    and chain: "kickoff_chain L self G (deposit_kickoff_generator_txs (world_db w)) gens known (op_txid (utxo_outpoint u))"
    by auto
  have slash: "spent_outputs (handler_tx slash1) = [utxo_outpoint u]" "btc_output (handler_tx slash1) \<noteq> []"
    using same_inputs [OF 1(7)] handle_witness_outputs [OF 1(7)] unfolding spent_outputs_def
    by (cases rule: create_slash_or_take_tx_eq [OF 1(6)], simp)+
  have id: "compute_txid L (handler_tx slash1) = compute_txid L (handler_tx slash)"
    by (rule handle_witness_txid [OF assms(5) 1(7)])
  have takes: "spent_outputs (handler_tx takes2) =
      [\<lparr>op_txid = compute_txid L move_tx, op_vout = 0\<rparr>, \<lparr>op_txid = compute_txid L (handler_tx slash1), op_vout = 0\<rparr>]"
    using same_inputs [OF 1(10)] same_inputs [OF 1(11)] id unfolding spent_outputs_def
    by (cases rule: create_operator_takes_tx_eq [OF 1(9)])
      (simp add: create_tx_ins_def create_tx_ins_with_sequence_def)
  from kickoff_chain_published [OF chain inv(1) 1(2) assms(6) slash] obtain first where
    first: "op_txid first = known"
    and pub: "\<forall>unspent. first \<in> unspent \<longrightarrow> (\<exists>unspent'. publish L unspent (gens @ [handler_tx slash1]) = Some unspent' \<and>
      \<lparr>op_txid = compute_txid L (handler_tx slash1), op_vout = 0\<rparr> \<in> unspent')" .
  have all: "\<exists>unspent'. publish L unspent (gens @ [handler_tx slash1]) = Some unspent' \<and>
      \<lparr>op_txid = compute_txid L (handler_tx slash1), op_vout = 0\<rparr> \<in> unspent' \<and>
      (\<lparr>op_txid = compute_txid L move_tx, op_vout = 0\<rparr> \<in> unspent' -
         {\<lparr>op_txid = compute_txid L (handler_tx slash1), op_vout = 0\<rparr>} \<longrightarrow>
       publish L unspent (gens @ [handler_tx slash1, handler_tx takes2]) \<noteq> None)" if avail: "first \<in> unspent" for unspent
  proof -
    obtain unspent' where p: "publish L unspent (gens @ [handler_tx slash1]) = Some unspent'"
      "\<lparr>op_txid = compute_txid L (handler_tx slash1), op_vout = 0\<rparr> \<in> unspent'"
      using pub [rule_format, OF avail] by blast
    then have "publish L unspent ((gens @ [handler_tx slash1]) @ [handler_tx takes2]) = publish L unspent' [handler_tx takes2]"
      unfolding publish_append [of L unspent "gens @ [handler_tx slash1]"] by simp
    with p takes show ?thesis
      by auto
  qed
  have signed: "\<forall>tx \<in> set gens. \<exists>f h. signed_kickoff_tx L self f h \<and> tx = handler_tx h"
    using chain by (simp add: kickoff_chain_def)
  have spares: "\<forall>tx \<in> set gens. \<forall>k' u'. kickoff_of (world_db w) k' = Some u' \<longrightarrow> utxo_outpoint u' \<notin> set (spent_outputs tx)"
    using kickoff_chain_spares [OF chain _ inv(1) _ assms(3,6)] by blast
  show ?thesis
    by (intro exI [of _ gens] exI [of _ "handler_tx slash1"] exI [of _ "handler_tx takes2"] exI [of _ first]
        exI [of _ u] exI [of _ w1] exI [of _ move_tx]
        exI [of _ "\<lparr>op_txid = compute_txid L (handler_tx slash1), op_vout = 0\<rparr>"]
        exI [of _ "\<lparr>op_txid = compute_txid L move_tx, op_vout = 0\<rparr>"] conjI)
      (use 1(1,2,8,12) g first slash takes all signed spares in simp_all)
qed

end
