(* ===== verification/Reimbursement_Progress.thy ===== *)
theory Reimbursement_Progress
  imports Reimbursement
begin

text \<open>
  What \<open>withdrawal_proved_on_citrea\<close> answers: exactly when an operator gets the transactions of its
  reimbursement, and which error it gets otherwise.
\<close>

section \<open>The kickoff transactions that are not yet sent\<close>

text \<open>
  The rows from the transaction \<open>t\<close> back to one the node knows, newest first; \<open>found\<close> is false when
  the rows end before.
\<close>

inductive unsent_txs :: "(txid \<Rightarrow> bool) \<Rightarrow> generator_row list \<Rightarrow> txid \<Rightarrow> generator_row list \<Rightarrow> bool \<Rightarrow> bool"
  for known rows where
  arrived: "known t \<Longrightarrow> unsent_txs known rows t [] True"
| missing: "\<not> known t \<Longrightarrow> find (\<lambda>row. gen_txid row = t) rows = None \<Longrightarrow> unsent_txs known rows t [] False"
| unsent: "\<not> known t \<Longrightarrow> find (\<lambda>row. gen_txid row = t) rows = Some row \<Longrightarrow>
    unsent_txs known rows (gen_funding_txid row) rs found \<Longrightarrow> unsent_txs known rows t (row # rs) found"

text \<open>A node that answers for the transactions it knows, and is not changed by the question.\<close>

definition node_answers :: "'n node_ops \<Rightarrow> (txid \<Rightarrow> bool) \<Rightarrow> 'n \<Rightarrow> bool" where
  "node_answers N known n \<longleftrightarrow>
    (\<forall>t. \<exists>found. get_raw_transaction_op N t n = (found, n) \<and> (known t \<longleftrightarrow> found \<noteq> None))"

lemma get_raw_transaction_answered:
  assumes "node_answers N known (world_node w)"
  obtains found where "get_raw_transaction N t w = (Ok found, w)" "known t \<longleftrightarrow> found \<noteq> None"
proof -
  from assms obtain found where "get_raw_transaction_op N t (world_node w) = (found, world_node w)"
    "known t \<longleftrightarrow> found \<noteq> None"
    unfolding node_answers_def by blast
  then show ?thesis
    by (intro that) (simp_all add: get_raw_transaction_def call_def)
qed

lemma get_generator_tx_no_fault:
  assumes "world_faults w = []"
  shows "get_deposit_kickoff_generator_tx t w =
    (Ok (map_option (\<lambda>row. (gen_raw_signed_tx row, word_of_int (gen_num_kickoffs row),
      word_of_int (gen_cur_unused row), gen_funding_txid row))
      (find (\<lambda>row. gen_txid row = t) (deposit_kickoff_generator_txs (world_db w)))), w)"
  using query_no_fault [OF assms, of "sql_get_generator_tx t"]
  by (auto simp: get_deposit_kickoff_generator_tx_def ask_def sql_get_generator_tx_def lift_def
      split: option.splits)

lemma search_generator_txs_result:
  assumes "unsent_txs known (deposit_kickoff_generator_txs (world_db w)) t rs found"
    and "world_faults w = []" "node_answers N known (world_node w)"
  shows "search_generator_txs N n t w =
    (if found \<or> n \<le> length rs then Ok (List.map gen_raw_signed_tx (take n rs), length rs < n)
     else Err KickoffGeneratorTxNotFound, w)"
  using assms(1)
proof (induction arbitrary: n rule: unsent_txs.induct)
  case (arrived t m)
  then obtain tx where "get_raw_transaction N t w = (Ok (Some tx), w)"
    using get_raw_transaction_answered [OF assms(3), of t] by (metis not_None_eq)
  then show ?case
    by (induction m) (simp_all add: ask_def lift_def)
next
  case (missing t m)
  then have "get_raw_transaction N t w = (Ok None, w)"
    using get_raw_transaction_answered [OF assms(3), of t] by metis
  with missing show ?case
    by (induction m) (simp_all add: ask_def lift_def get_generator_tx_no_fault [OF assms(2)])
next
  case (unsent t row rs found m)
  then have "get_raw_transaction N t w = (Ok None, w)"
    using get_raw_transaction_answered [OF assms(3), of t] by metis
  with unsent show ?case
    by (induction m) (simp_all add: ask_def lift_def get_generator_tx_no_fault [OF assms(2)])
qed

section \<open>Signing\<close>

lemma sign_and_finish:
  assumes "sighash_total L" "i < length (btc_input (handler_tx h))"
    "length (handler_prevouts h) = length (btc_input (handler_tx h))"
    and "script_of_handler h i 0 = Ok script" "item_at (handler_spend_infos h) i = Ok info"
    and "control_block L info script \<noteq> None"
  shows "\<exists>sig. sign_taproot_script_spend_tx L aux signer h i 0 = Ok sig"
    "\<exists>h'. handle_taproot_witness_new L h els i (Some 0) = Ok h'"
proof -
  obtain sighash where "script_spend_signature_hash L (handler_tx h) i (All_Prevouts (handler_prevouts h))
      (tap_leaf_hash_from_script L script) Default = Some sighash"
    using assms(1-3) unfolding sighash_total_def by blast
  moreover obtain block where "control_block L info script = Some block"
    using assms(6) by blast
  moreover obtain scripts where "item_at (handler_scripts h) i = Ok scripts" "item_at scripts 0 = Ok script"
    using assms(4) by (auto simp: script_of_handler_def)
  ultimately show "\<exists>sig. sign_taproot_script_spend_tx L aux signer h i 0 = Ok sig"
    "\<exists>h'. handle_taproot_witness_new L h els i (Some 0) = Ok h'"
    using assms(2,4,5) by (simp_all add: sign_taproot_script_spend_tx_def handle_taproot_witness_new_def)
qed

text \<open>The random generator after what one signature draws.\<close>

definition rng_after :: "'n node_ops \<Rightarrow> 'n \<Rightarrow> 'n" where
  "rng_after N n = snd (random_bytes N 32 n)"

lemma draw_aux_eq: "draw_aux N w = (Ok (fst (random_bytes N 32 (world_node w))), w\<lparr>world_node := rng_after N (world_node w)\<rparr>)"
  by (simp add: draw_aux_def call_def rng_after_def split: prod.splits)

section \<open>Making the transactions\<close>

lemma create_move_tx_runs:
  assumes "create_musig2_address L nofn network = Ok (musig, musig_info)" "190 + dust L \<le> unat bridge"
  obtains move_tx where "create_move_tx L k nofn bridge network = Ok move_tx"
proof -
  obtain v where v: "amount_sub bridge MOVE_TX_MIN_RELAY_FEE = Ok v" "unat v = unat bridge - 190"
    using amounts_run(1) [of MOVE_TX_MIN_RELAY_FEE bridge] assms(2) by auto
  obtain v' where "amount_sub v (txout_value (anyone_can_spend_txout L)) = Ok v'"
    using amounts_run(1) [of "txout_value (anyone_can_spend_txout L)" v] v(2) assms(2) by (fastforce simp: dust_def)
  with v(1) assms(1) show ?thesis
    by (intro that) (simp add: create_move_tx_def Let_def)
qed

lemma create_slash_or_take_tx_runs:
  assumes "create_move_tx L k nofn bridge network = Ok move_tx" "length (compute_txid L move_tx) = 32"
    and "create_kickoff_address L nofn operator network = Ok (kickoff_addr, kickoff_info)"
    and "utxo_txout u = \<lparr>txout_value = 100000, txout_script = address_script_pubkey L kickoff_addr\<rparr>"
    and "create_taproot_address L [generate_relative_timelock_script L operator takes_after] (Some nofn) network =
      Ok (addr, info)"
  obtains h where "create_slash_or_take_tx L k u operator idx nofn network user_after takes_after bridge = Ok h"
    "btc_output (handler_tx h) ! 0 = \<lparr>txout_value = 99430, txout_script = address_script_pubkey L addr\<rparr>"
proof -
  have "length (compute_txid L move_tx @ usize_to_var_len_bytes idx) < 2 ^ 32"
    using assms(2) var_len_range [of idx] by (simp add: usize_to_var_len_bytes_eq)
  with assms have "\<exists>h. create_slash_or_take_tx L k u operator idx nofn network user_after takes_after bridge = Ok h \<and>
      btc_output (handler_tx h) ! 0 = \<lparr>txout_value = 99430, txout_script = address_script_pubkey L addr\<rparr>"
    by (simp add: create_slash_or_take_tx_def Let_def push_bytes_def amount_sub_def
        SLASH_OR_TAKE_TX_MIN_RELAY_FEE_def)
  then show ?thesis
    using that by blast
qed

lemma create_operator_takes_tx_runs:
  assumes "require_network L wallet network = Some wallet'"
    and "create_musig2_address L nofn network = Ok (musig, musig_info)"
    and "create_taproot_address L [generate_relative_timelock_script L operator takes_after] (Some nofn) network =
      Ok (addr, info)"
    and "utxo_txout slash = \<lparr>txout_value = 99430, txout_script = address_script_pubkey L addr\<rparr>"
    and "190 + dust L \<le> unat bridge" "2 * dust L \<le> unat bridge + 99010" "unat bridge + 99430 < 2 ^ 64"
  obtains h where "create_operator_takes_tx L fund slash operator nofn network takes_after bridge wallet = Ok h"
proof -
  let ?acs = "txout_value (anyone_can_spend_txout L)"
  have acs: "unat ?acs = dust L"
    by (simp add: dust_def)
  obtain v1 where 1: "amount_add 99430 bridge = Ok v1" "unat v1 = 99430 + unat bridge"
    using amounts_run(2) [of 99430 bridge] assms(7) by auto
  obtain v2 where 2: "amount_sub v1 MOVE_TX_MIN_RELAY_FEE = Ok v2" "unat v2 = unat v1 - 190"
    using amounts_run(1) [of MOVE_TX_MIN_RELAY_FEE v1] 1(2) by auto
  obtain v3 where 3: "amount_sub v2 OPERATOR_TAKES_TX_MIN_RELAY_FEE = Ok v3" "unat v3 = unat v2 - 230"
    using amounts_run(1) [of OPERATOR_TAKES_TX_MIN_RELAY_FEE v2] 1(2) 2(2) by auto
  obtain v4 where 4: "amount_sub v3 ?acs = Ok v4" "unat v4 = unat v3 - dust L"
    using amounts_run(1) [of ?acs v3] 1(2) 2(2) 3(2) acs assms(6) by auto
  obtain v5 where 5: "amount_sub v4 ?acs = Ok v5"
    using amounts_run(1) [of ?acs v4] 1(2) 2(2) 3(2) 4(2) acs assms(6) by fastforce
  obtain b1 where 6: "amount_sub bridge MOVE_TX_MIN_RELAY_FEE = Ok b1" "unat b1 = unat bridge - 190"
    using amounts_run(1) [of MOVE_TX_MIN_RELAY_FEE bridge] assms(5) by auto
  obtain b2 where 7: "amount_sub b1 ?acs = Ok b2"
    using amounts_run(1) [of ?acs b1] 6(2) acs assms(5) by fastforce
  show ?thesis
    using assms(1-4) 1(1) 2(1) 3(1) 4(1) 5 6(1) 7
    by (intro that) (simp add: create_operator_takes_tx_def Let_def)
qed

section \<open>What is stored and what is configured\<close>

text \<open>The signatures of the verifiers for a kickoff output are both stored.\<close>

definition stored_sigs :: "database \<Rightarrow> outpoint \<Rightarrow> utxo \<Rightarrow> bool" where
  "stored_sigs d k u \<longleftrightarrow> (\<exists>row slash_sig takes_sig.
    find (\<lambda>row. kickoff_deposit row = k \<and> kickoff_row_utxo row = u) (deposit_kickoff_utxos d) = Some row \<and>
    kickoff_slash_or_take_sig row = Some slash_sig \<and> kickoff_operator_take_sig row = Some takes_sig)"

lemma stored_sigs_read:
  assumes "stored_sigs (world_db w) k u" "world_faults w = []"
  obtains slash_sig takes_sig where "get_slash_or_take_sig k u w = (Ok (Some slash_sig), w)"
    "get_operator_take_sig k u w = (Ok (Some takes_sig), w)"
proof -
  from assms(1) obtain row slash_sig takes_sig where
    "find (\<lambda>row. kickoff_deposit row = k \<and> kickoff_row_utxo row = u) (deposit_kickoff_utxos (world_db w)) = Some row"
    "kickoff_slash_or_take_sig row = Some slash_sig" "kickoff_operator_take_sig row = Some takes_sig"
    unfolding stored_sigs_def by blast
  then have "sql_get_sig kickoff_slash_or_take_sig k u (world_db w) = (Inr (Some slash_sig), world_db w)"
    "sql_get_sig kickoff_operator_take_sig k u (world_db w) = (Inr (Some takes_sig), world_db w)"
    by (simp_all add: sql_get_sig_def)
  with assms(2) show ?thesis
    by (intro that) (simp_all add: get_slash_or_take_sig_def get_operator_take_sig_def query_no_fault)
qed

text \<open>
  The parameters of an operator with which the two transactions can be made: its addresses, a wallet
  on its network, and a bridge amount that pays the fees and anchors within 64 bits.
\<close>

definition takes_possible :: "'x script_lib_scheme \<Rightarrow> operator \<Rightarrow> bool" where
  "takes_possible L self \<longleftrightarrow>
    (let config = operator_config self; network = cfg_network config; nofn = operator_nofn_xonly_pk self;
         bridge = unat (cfg_bridge_amount_sats config); i = unat (operator_idx self) in
     is_Ok (create_musig2_address L nofn network) \<and>
     is_Ok (create_taproot_address L [generate_relative_timelock_script L (actor_xonly (operator_signer self))
       (cfg_operator_takes_after config)] (Some nofn) network) \<and>
     i < length (cfg_operator_wallet_addresses config) \<and>
     require_network L (cfg_operator_wallet_addresses config ! i) network \<noteq> None \<and>
     190 + dust L \<le> bridge \<and> 2 * dust L \<le> bridge + 99010 \<and> bridge + 99430 < 2 ^ 64)"

lemma sign_slash_or_take_ready:
  fixes self :: operator
  defines "config \<equiv> operator_config self"
  assumes "create_slash_or_take_tx L k u (actor_xonly (operator_signer self)) (operator_idx self)
      (operator_nofn_xonly_pk self) (cfg_network config) (cfg_user_takes_after config)
      (cfg_operator_takes_after config) (cfg_bridge_amount_sats config) = Ok h"
    and "sighash_total L" "control_blocks_exist L" "get_slash_or_take_sig k u w = (Ok (Some nofn_sig), w)"
  obtains h' where "sign_slash_or_take L N self k u w =
    (Ok (h', \<lparr>utxo_outpoint = \<lparr>op_txid = compute_txid L (handler_tx h), op_vout = 0\<rparr>,
      utxo_txout = btc_output (handler_tx h) ! 0\<rparr>), w\<lparr>world_node := rng_after N (world_node w)\<rparr>)"
proof -
  let ?script = "create_musig2_and_operator_multisig_script L (operator_nofn_xonly_pk self) (actor_xonly (operator_signer self))"
  from assms(2) obtain addr info where
    "create_kickoff_address L (operator_nofn_xonly_pk self) (actor_xonly (operator_signer self)) (cfg_network config) =
      Ok (addr, info)"
    and h: "List.map txin_previous_output (btc_input (handler_tx h)) = [utxo_outpoint u]"
      "handler_prevouts h = [utxo_txout u]" "handler_scripts h = [[?script]]" "handler_spend_infos h = [info]"
      "btc_output (handler_tx h) \<noteq> []"
    by (rule create_slash_or_take_tx_eq) fastforce
  then have "control_block L info ?script \<noteq> None"
    using assms(4) unfolding control_blocks_exist_def create_kickoff_address_def Let_def by blast
  moreover have "length (btc_input (handler_tx h)) = 1"
    using arg_cong [OF h(1), of length] by simp
  ultimately have "\<exists>sig. sign_taproot_script_spend_tx L (fst (random_bytes N 32 (world_node w)))
      (operator_signer self) h 0 0 = Ok sig"
    and fin: "\<exists>h'. handle_taproot_witness_new L h els 0 (Some 0) = Ok h'" for els
    using h(2-4) by (intro sign_and_finish [OF assms(3), where script = ?script and info = info];
      simp add: script_of_handler_def)+
  then obtain sig where sig: "sign_taproot_script_spend_tx L (fst (random_bytes N 32 (world_node w)))
      (operator_signer self) h 0 0 = Ok sig"
    by blast
  from fin obtain h' where "handle_taproot_witness_new L h [sig, nofn_sig] 0 (Some 0) = Ok h'"
    by blast
  with assms(2,5) sig h(5) show ?thesis
    by (intro that) (simp add: sign_slash_or_take_def Let_def ask_def lift_def config_def draw_aux_eq)
qed

lemma sign_operator_takes_ready:
  fixes self :: operator
  defines "config \<equiv> operator_config self"
  assumes "create_move_tx L k (operator_nofn_xonly_pk self) (cfg_bridge_amount_sats config) (cfg_network config) =
      Ok move_tx"
    and "unat (operator_idx self) < length (cfg_operator_wallet_addresses config)"
    and "create_operator_takes_tx L \<lparr>op_txid = compute_txid L move_tx, op_vout = 0\<rparr> slash
      (actor_xonly (operator_signer self)) (operator_nofn_xonly_pk self) (cfg_network config)
      (cfg_operator_takes_after config) (cfg_bridge_amount_sats config)
      (cfg_operator_wallet_addresses config ! unat (operator_idx self)) = Ok h"
    and "sighash_total L" "control_blocks_exist L" "get_operator_take_sig k u w = (Ok (Some nofn_sig), w)"
  obtains h' where "sign_operator_takes L N self k u slash w = (Ok h', w\<lparr>world_node := rng_after N (world_node w)\<rparr>)"
proof -
  let ?script = "generate_relative_timelock_script L (actor_xonly (operator_signer self)) (cfg_operator_takes_after config)"
  from assms(4) obtain addr info musig_info v where
    "create_taproot_address L [?script] (Some (operator_nofn_xonly_pk self)) (cfg_network config) = Ok (addr, info)"
    and h: "length (btc_input (handler_tx h)) = 2" "handler_prevouts h = [v, utxo_txout slash]"
      "handler_scripts h = [[], [?script]]" "handler_spend_infos h = [musig_info, info]"
    by (rule create_operator_takes_tx_eq) (force simp: create_tx_ins_def create_tx_ins_with_sequence_def)
  then have block: "control_block L info ?script \<noteq> None"
    using assms(6) unfolding control_blocks_exist_def by blast
  have "\<exists>sig. sign_taproot_script_spend_tx L (fst (random_bytes N 32 (world_node w)))
      (operator_signer self) h 1 0 = Ok sig"
    using h block by (intro sign_and_finish(1) [OF assms(5), where script = ?script and info = info];
      simp add: script_of_handler_def)
  then obtain sig where sig: "sign_taproot_script_spend_tx L (fst (random_bytes N 32 (world_node w)))
      (operator_signer self) h 1 0 = Ok sig"
    by blast
  define h1 where "h1 = h\<lparr>handler_tx := push_witness 0 [nofn_sig] (handler_tx h)\<rparr>"
  have first: "handle_taproot_witness_new L h [nofn_sig] 0 None = Ok h1"
    using h(1) by (simp add: handle_taproot_witness_new_def h1_def)
  have "length (btc_input (handler_tx h1)) = 2" "handler_prevouts h1 = [v, utxo_txout slash]"
    "handler_scripts h1 = [[], [?script]]" "handler_spend_infos h1 = [musig_info, info]"
    using h by (simp_all add: h1_def push_witness_def)
  then have "\<exists>h'. handle_taproot_witness_new L h1 [sig] 1 (Some 0) = Ok h'"
    using block by (intro sign_and_finish(2) [OF assms(5), where script = ?script and info = info];
      simp add: script_of_handler_def)
  then obtain h' where "handle_taproot_witness_new L h1 [sig] 1 (Some 0) = Ok h'"
    by blast
  with assms(2-4,7) sig first show ?thesis
    by (intro that) (simp add: sign_operator_takes_def Let_def ask_def lift_def config_def draw_aux_eq)
qed

text \<open>Once a kickoff output that is real is stored with its signatures, both transactions are signed.\<close>

lemma reimbursement_signed:
  assumes "takes_possible L self" "sighash_total L" "control_blocks_exist L" "\<forall>tx. length (compute_txid L tx) = 32"
    and "create_kickoff_address L (operator_nofn_xonly_pk self) (actor_xonly (operator_signer self))
      (cfg_network (operator_config self)) = Ok (kickoff_addr, kickoff_info)"
    and "utxo_txout u = \<lparr>txout_value = 100000, txout_script = address_script_pubkey L kickoff_addr\<rparr>"
    and "stored_sigs (world_db w) k u" "world_faults w = []"
  obtains slash slash_utxo takes where
    "sign_slash_or_take L N self k u w = (Ok (slash, slash_utxo), w\<lparr>world_node := rng_after N (world_node w)\<rparr>)"
    "sign_operator_takes L N self k u slash_utxo (w\<lparr>world_node := rng_after N (world_node w)\<rparr>) =
      (Ok takes, w\<lparr>world_node := rng_after N (rng_after N (world_node w))\<rparr>)"
proof -
  let ?config = "operator_config self" and ?nofn = "operator_nofn_xonly_pk self"
    and ?xonly = "actor_xonly (operator_signer self)"
  from assms(1) obtain musig musig_info addr info wallet where
    p: "create_musig2_address L ?nofn (cfg_network ?config) = Ok (musig, musig_info)"
      "create_taproot_address L [generate_relative_timelock_script L ?xonly (cfg_operator_takes_after ?config)]
        (Some ?nofn) (cfg_network ?config) = Ok (addr, info)"
      "unat (operator_idx self) < length (cfg_operator_wallet_addresses ?config)"
      "require_network L (cfg_operator_wallet_addresses ?config ! unat (operator_idx self)) (cfg_network ?config) =
        Some wallet"
    and b: "190 + dust L \<le> unat (cfg_bridge_amount_sats ?config)"
      "2 * dust L \<le> unat (cfg_bridge_amount_sats ?config) + 99010"
      "unat (cfg_bridge_amount_sats ?config) + 99430 < 2 ^ 64"
    by (auto simp: takes_possible_def Let_def is_Ok_iff)
  from create_move_tx_runs [OF p(1) b(1)] obtain move_tx where
    move: "create_move_tx L k ?nofn (cfg_bridge_amount_sats ?config) (cfg_network ?config) = Ok move_tx" .
  obtain slash_sig where sigs: "get_slash_or_take_sig k u w = (Ok (Some slash_sig), w)"
    using assms(7,8) by (rule stored_sigs_read)
  let ?w = "w\<lparr>world_node := rng_after N (world_node w)\<rparr>"
  have "stored_sigs (world_db ?w) k u" "world_faults ?w = []"
    using assms(7,8) by simp_all
  then obtain takes_sig where takes_sig: "get_operator_take_sig k u ?w = (Ok (Some takes_sig), ?w)"
    by (rule stored_sigs_read)
  from create_slash_or_take_tx_runs [OF move _ assms(5,6) p(2)] assms(4) obtain slash where
    s: "create_slash_or_take_tx L k u ?xonly (operator_idx self) ?nofn (cfg_network ?config)
      (cfg_user_takes_after ?config) (cfg_operator_takes_after ?config) (cfg_bridge_amount_sats ?config) = Ok slash"
      "btc_output (handler_tx slash) ! 0 = \<lparr>txout_value = 99430, txout_script = address_script_pubkey L addr\<rparr>"
    by metis
  let ?u = "\<lparr>utxo_outpoint = \<lparr>op_txid = compute_txid L (handler_tx slash), op_vout = 0\<rparr>,
    utxo_txout = btc_output (handler_tx slash) ! 0\<rparr>"
  obtain slash1 where 1: "sign_slash_or_take L N self k u w = (Ok (slash1, ?u), ?w)"
    using sign_slash_or_take_ready [OF s(1) assms(2,3) sigs(1)] .
  obtain takes where t: "create_operator_takes_tx L \<lparr>op_txid = compute_txid L move_tx, op_vout = 0\<rparr> ?u
      ?xonly ?nofn (cfg_network ?config) (cfg_operator_takes_after ?config) (cfg_bridge_amount_sats ?config)
      (cfg_operator_wallet_addresses ?config ! unat (operator_idx self)) = Ok takes"
    using create_operator_takes_tx_runs [OF p(4,1,2) _ b, of ?u] s(2) by auto
  from sign_operator_takes_ready [OF move p(3) t assms(2,3) takes_sig] obtain takes1 where
    "sign_operator_takes L N self k u ?u ?w = (Ok takes1, ?w\<lparr>world_node := rng_after N (world_node ?w)\<rparr>)" .
  with 1 show ?thesis
    by (intro that) simp_all
qed

section \<open>Properties\<close>

text \<open>
  C5. At every point of a run of an operator and a verifier on one database, when no message is lost
  and the checks on Citrea pass, an operator whose parameters allow its transactions and for whose
  kickoff output both signatures are stored gets its reimbursement exactly when fewer than 25 kickoff
  transactions lead from that output back to one the node knows; otherwise it gets the error for too
  many of them, or for a missing one. The transactions it gets start with those unsent, oldest first.
\<close>

theorem reimbursement_progress:
  assumes "shared_run L N self v w0 w" "world_db w0 = empty_database" "tx_roundtrip L"
    and "unat (cfg_operator_num_kickoff_utxos_per_tx (operator_config self)) < 2 ^ 31"
    and "takes_possible L self" "sighash_total L" "control_blocks_exist L" "\<forall>tx. length (compute_txid L tx) = 32"
    and "if operator_citrea_client self then check_citrea_filler L N self i k w = (Ok (), w1) else w1 = w"
    and "world_faults w1 = []" "node_answers N known (world_node w1)"
    and "kickoff_of (world_db w) k = Some u" "stored_sigs (world_db w) k u"
    and "unsent_txs known (deposit_kickoff_generator_txs (world_db w)) (op_txid (utxo_outpoint u)) rows found"
  shows "\<exists>slash takes. withdrawal_proved_on_citrea L N self i k w =
    (if 25 \<le> length rows then Err KickoffGeneratorTxsTooManyIterations
     else if \<not> found then Err KickoffGeneratorTxNotFound
     else Ok (List.map gen_raw_signed_tx (rev rows) @ [raw_hex L slash, raw_hex L takes]),
     if 25 \<le> length rows \<or> \<not> found then w1
     else w1\<lparr>world_node := rng_after N (rng_after N (world_node w1))\<rparr>)"
proof -
  have checked: "(if operator_citrea_client self then check_citrea_filler L N self i k else return ()) w = (Ok (), w1)"
    using assms(9) by (simp add: lift_def split: if_splits)
  have db: "world_db w1 = world_db w"
    using assms(9) same_db.moves_ok [OF chain_functions_read(2)] by (fastforce split: if_splits)
  have "outputs_inv L self (world_db w)"
    using shared_run_outputs [OF assms(1) _ assms(3,4)] outputs_inv_empty [of L self] assms(2) by metis
  from outputs_inv_kickoff [OF this assms(12,4)] obtain addr info where kickoff_output:
    "create_kickoff_address L (operator_nofn_xonly_pk self) (actor_xonly (operator_signer self))
      (cfg_network (operator_config self)) = Ok (addr, info)"
    "utxo_txout u = \<lparr>txout_value = 100000, txout_script = address_script_pubkey L addr\<rparr>"
    by metis
  from reimbursement_signed [OF assms(5-8) kickoff_output, of w1 k] assms(10,13) db obtain slash slash_utxo takes where
    signed: "sign_slash_or_take L N self k u w1 = (Ok (slash, slash_utxo), w1\<lparr>world_node := rng_after N (world_node w1)\<rparr>)"
      "sign_operator_takes L N self k u slash_utxo (w1\<lparr>world_node := rng_after N (world_node w1)\<rparr>) =
        (Ok takes, w1\<lparr>world_node := rng_after N (rng_after N (world_node w1))\<rparr>)"
    by metis
  have kickoff: "get_kickoff_utxo k w1 = (Ok (Some u), w1)"
    using get_kickoff_utxo_no_fault [OF assms(10)] assms(12) db by simp
  have search: "search_generator_txs N 25 (op_txid (utxo_outpoint u)) w1 =
      (if found \<or> 25 \<le> length rows then Ok (List.map gen_raw_signed_tx (take 25 rows), length rows < 25)
       else Err KickoffGeneratorTxNotFound, w1)"
    using search_generator_txs_result [OF _ assms(10,11)] assms(14) db by simp
  consider (many) "25 \<le> length rows" | (missing) "length rows < 25" "\<not> found" | (found) "length rows < 25" found
    by linarith
  then show ?thesis
  proof cases
    case found
    then show ?thesis
      using checked kickoff search signed
      by (intro exI [of _ "handler_tx slash"] exI [of _ "handler_tx takes"])
        (simp add: withdrawal_proved_on_citrea_def ask_def lift_def rev_map)
  qed (use checked kickoff search in \<open>simp_all add: withdrawal_proved_on_citrea_def ask_def lift_def\<close>)
qed

end
