(* ===== verification/Aggregator_Role.thy ===== *)
theory Aggregator_Role
  imports Signing
begin

text \<open>
  \<open>core/src/aggregator.rs\<close>: the aggregator, which has no state of its own. It turns the verifiers'
  lists of public nonces and partial signatures, one list for each verifier, into one aggregated
  value for each position, and rebuilds the transactions to find the message that was signed. The
  lemmas show what the lists must look like and which message each signature is for.
\<close>

section \<open>Single signatures\<close>

record aggregator =
  aggregator_config :: bridge_config
  aggregator_nofn_xonly_pk :: xonly

definition aggregator_new :: "'x lib_scheme \<Rightarrow> bridge_config \<Rightarrow> aggregator outcome" where
  "aggregator_new L config =
    attempt (from_musig2_pks L (cfg_verifiers_public_keys config) None False) (\<lambda>nofn_xonly_pk.
    Ok \<lparr>aggregator_config = config, aggregator_nofn_xonly_pk = nofn_xonly_pk\<rparr>)"

definition aggregate_slash_or_take_partial_sigs ::
  "'x lib_scheme \<Rightarrow> aggregator \<Rightarrow> outpoint \<Rightarrow> utxo \<Rightarrow> xonly \<Rightarrow> u64 \<Rightarrow> bytes \<Rightarrow> bytes list \<Rightarrow> bytes outcome" where
  "aggregate_slash_or_take_partial_sigs L self deposit_outpoint kickoff_utxo operator_xonly_pk
     operator_idx agg_nonce partial_sigs =
    (let config = aggregator_config self in
    attempt (create_slash_or_take_tx L deposit_outpoint kickoff_utxo operator_xonly_pk operator_idx
        (aggregator_nofn_xonly_pk self) (cfg_network config) (cfg_user_takes_after config)
        (cfg_operator_takes_after config) (cfg_bridge_amount_sats config)) (\<lambda>tx.
    attempt (convert_tx_to_sighash_script_spend L tx 0 0) (\<lambda>message.
    aggregate_partial_signatures L (cfg_verifiers_public_keys config) None False agg_nonce
      partial_sigs message)))"

definition aggregate_operator_takes_partial_sigs ::
  "'x lib_scheme \<Rightarrow> aggregator \<Rightarrow> outpoint \<Rightarrow> utxo \<Rightarrow> xonly \<Rightarrow> u64 \<Rightarrow> bytes \<Rightarrow> bytes list \<Rightarrow> bytes outcome" where
  "aggregate_operator_takes_partial_sigs L self deposit_outpoint kickoff_utxo operator_xonly_pk
     operator_idx agg_nonce partial_sigs =
    (let config = aggregator_config self; nofn_xonly_pk = aggregator_nofn_xonly_pk self in
    attempt (create_move_tx L deposit_outpoint nofn_xonly_pk (cfg_bridge_amount_sats config)
        (cfg_network config)) (\<lambda>move_tx.
    let bridge_fund_outpoint = \<lparr>op_txid = compute_txid L move_tx, op_vout = 0\<rparr> in
    attempt (create_slash_or_take_tx L deposit_outpoint kickoff_utxo operator_xonly_pk operator_idx
        nofn_xonly_pk (cfg_network config) (cfg_user_takes_after config)
        (cfg_operator_takes_after config) (cfg_bridge_amount_sats config))
      (\<lambda>slash_or_take_tx_handler.
    attempt (item_at (btc_output (handler_tx slash_or_take_tx_handler)) 0) (\<lambda>txout.
    let slash_or_take_utxo = \<lparr>utxo_outpoint =
        \<lparr>op_txid = compute_txid L (handler_tx slash_or_take_tx_handler), op_vout = 0\<rparr>,
      utxo_txout = txout\<rparr> in
    attempt (item_at (cfg_operator_wallet_addresses config) (unat operator_idx)) (\<lambda>wallet.
    attempt (create_operator_takes_tx L bridge_fund_outpoint slash_or_take_utxo operator_xonly_pk
        nofn_xonly_pk (cfg_network config) (cfg_operator_takes_after config)
        (cfg_bridge_amount_sats config) wallet) (\<lambda>tx_handler.
    attempt (convert_tx_to_sighash_pubkey_spend L tx_handler 0) (\<lambda>message.
    aggregate_partial_signatures L (cfg_verifiers_public_keys config) None True agg_nonce
      partial_sigs message)))))))"

definition aggregate_move_partial_sigs ::
  "'x lib_scheme \<Rightarrow> aggregator \<Rightarrow> outpoint \<Rightarrow> evm_address \<Rightarrow> address \<Rightarrow> bytes \<Rightarrow> bytes list \<Rightarrow> bytes outcome" where
  "aggregate_move_partial_sigs L self deposit_outpoint evm_address recovery_taproot_address agg_nonce
     partial_sigs =
    (let config = aggregator_config self in
    attempt (create_move_tx_handler L deposit_outpoint evm_address recovery_taproot_address
        (aggregator_nofn_xonly_pk self) (cfg_network config) (cfg_user_takes_after config)
        (cfg_bridge_amount_sats config)) (\<lambda>tx.
    attempt (convert_tx_to_sighash_script_spend L tx 0 0) (\<lambda>message.
    aggregate_partial_signatures L (cfg_verifiers_public_keys config) None False agg_nonce
      partial_sigs message)))"

section \<open>Lists from all verifiers\<close>

text \<open>\<open>v.get(i)\<close> for every list, collected into an option.\<close>

definition column :: "nat \<Rightarrow> 'a list list \<Rightarrow> 'a list option" where
  "column i rows = those (List.map (\<lambda>row. array_get row i) rows)"

definition aggregate_pub_nonces :: "'x lib_scheme \<Rightarrow> bytes list list \<Rightarrow> bytes list outcome" where
  "aggregate_pub_nonces L pub_nonces =
    attempt (item_at pub_nonces 0) (\<lambda>first_nonces.
    attempt_map (\<lambda>i.
      attempt (ok_or (column i pub_nonces) NoncesNotFound) (\<lambda>pub_nonces.
      aggregate_nonces L pub_nonces)) [0..<length first_nonces])"

definition aggregate_slash_or_take_sigs ::
  "'x lib_scheme \<Rightarrow> aggregator \<Rightarrow> outpoint \<Rightarrow> utxo list \<Rightarrow> bytes list \<Rightarrow> bytes list list \<Rightarrow>
   signature list outcome" where
  "aggregate_slash_or_take_sigs L self deposit_outpoint kickoff_utxos agg_nonces partial_sigs =
    attempt (item_at partial_sigs 0) (\<lambda>first_sigs.
    attempt_map (\<lambda>i.
      attempt (ok_or (column i partial_sigs) NoncesNotFound) (\<lambda>partial_sigs.
      attempt (item_at kickoff_utxos i) (\<lambda>kickoff_utxo.
      attempt (item_at (cfg_operators_xonly_pks (aggregator_config self)) i) (\<lambda>operator_xonly_pk.
      attempt (item_at agg_nonces i) (\<lambda>agg_nonce.
      attempt (aggregate_slash_or_take_partial_sigs L self deposit_outpoint kickoff_utxo
          operator_xonly_pk (word_of_nat i) agg_nonce partial_sigs) (\<lambda>agg_sig.
      ok_or (signature_from_slice L agg_sig) Secp256k1Error))))))
      [0..<length first_sigs])"

definition aggregate_operator_take_sigs ::
  "'x lib_scheme \<Rightarrow> aggregator \<Rightarrow> outpoint \<Rightarrow> utxo list \<Rightarrow> bytes list \<Rightarrow> bytes list list \<Rightarrow>
   signature list outcome" where
  "aggregate_operator_take_sigs L self deposit_outpoint kickoff_utxos agg_nonces partial_sigs =
    attempt (item_at partial_sigs 0) (\<lambda>first_sigs.
    attempt_map (\<lambda>i.
      attempt (item_at kickoff_utxos i) (\<lambda>kickoff_utxo.
      attempt (item_at (cfg_operators_xonly_pks (aggregator_config self)) i) (\<lambda>operator_xonly_pk.
      attempt (item_at agg_nonces i) (\<lambda>agg_nonce.
      attempt (attempt_map (\<lambda>v. item_at v i) partial_sigs) (\<lambda>partial_sigs.
      attempt (aggregate_operator_takes_partial_sigs L self deposit_outpoint kickoff_utxo
          operator_xonly_pk (word_of_nat i) agg_nonce partial_sigs) (\<lambda>agg_sig.
      ok_or (signature_from_slice L agg_sig) Secp256k1Error))))))
      [0..<length first_sigs])"

definition aggregate_move_tx_sigs ::
  "'x lib_scheme \<Rightarrow> aggregator \<Rightarrow> outpoint \<Rightarrow> address \<Rightarrow> evm_address \<Rightarrow> bytes \<Rightarrow> bytes list \<Rightarrow>
   (string \<times> txid) outcome" where
  "aggregate_move_tx_sigs L self deposit_outpoint recovery_taproot_address evm_address agg_nonce
     partial_sigs =
    (let config = aggregator_config self in
    attempt (aggregate_move_partial_sigs L self deposit_outpoint evm_address
        recovery_taproot_address agg_nonce partial_sigs) (\<lambda>agg_move_tx_final_sig.
    attempt (ok_or (signature_from_slice L agg_move_tx_final_sig) Secp256k1Error) (\<lambda>move_tx_sig.
    attempt (create_move_tx_handler L deposit_outpoint evm_address recovery_taproot_address
        (aggregator_nofn_xonly_pk self) (cfg_network config) (cfg_user_takes_after config)
        (cfg_bridge_amount_sats config)) (\<lambda>move_tx_handler.
    attempt (handle_taproot_witness_new L move_tx_handler
        [move_tx_sig] 0 (Some 0)) (\<lambda>move_tx_handler.
    let txid = compute_txid L (handler_tx move_tx_handler)
    in Ok (raw_hex L (handler_tx move_tx_handler), txid))))))"

section \<open>Nonces of all verifiers\<close>

lemma column_eq_Some:
  "column i rows = Some xs \<longleftrightarrow> (\<forall>row \<in> set rows. i < length row) \<and> xs = List.map (\<lambda>row. row ! i) rows"
  by (induction rows arbitrary: xs) (auto simp: column_def array_get_def split: option.splits)

lemma attempt_map_Err: "attempt_map f xs = Err e \<Longrightarrow> \<exists>x \<in> set xs. f x = Err e"
proof (induction xs)
  case (Cons x xs)
  then show ?case
    by (cases "f x"; cases "attempt_map f xs") auto
qed simp

lemma attempt_map_Panic: "attempt_map f xs = Panic \<Longrightarrow> \<exists>x \<in> set xs. f x = Panic"
proof (induction xs)
  case (Cons x xs)
  then show ?case
    by (cases "f x"; cases "attempt_map f xs") auto
qed simp

lemma aggregate_nonces_not_Ok:
  "aggregate_nonces L ns \<noteq> Err e"
  "aggregate_nonces L ns = Panic \<Longrightarrow> \<exists>n \<in> set ns. pub_nonce_from_bytes L n = None"
proof -
  let ?m = "attempt_map (\<lambda>x. unwrap (pub_nonce_from_bytes L x)) ns"
  have "unwrap x \<noteq> Err e" for x :: "bytes option" and e
    by (cases x) simp_all
  then have no_err: "?m \<noteq> Err e" for e
    using attempt_map_Err [of "\<lambda>x. unwrap (pub_nonce_from_bytes L x)" ns e] by metis
  then show "aggregate_nonces L ns \<noteq> Err e"
    by (cases ?m) (simp_all add: aggregate_nonces_def)
  assume "aggregate_nonces L ns = Panic"
  then have "?m = Panic"
    using no_err by (cases ?m) (simp_all add: aggregate_nonces_def)
  from attempt_map_Panic [OF this] show "\<exists>n \<in> set ns. pub_nonce_from_bytes L n = None"
    by (auto simp: unwrap_def split: option.splits)
qed

text \<open>
  C30. The aggregator turns the lists of the verifiers into one aggregated nonce for each place of the
  first list: the one of the nonces that all verifiers have at that place. It fails with
  \<open>NoncesNotFound\<close> only if a list is shorter than the first, ignores what a longer list has beyond
  it, and panics only without lists or on bytes that are no nonce.
\<close>

theorem aggregate_pub_nonces_columns:
  "case aggregate_pub_nonces L rows of
     Ok aggs \<Rightarrow> rows \<noteq> [] \<and> length aggs = length (hd rows) \<and>
       (\<forall>i < length aggs. (\<forall>row \<in> set rows. i < length row) \<and>
         aggregate_nonces L (List.map (\<lambda>row. row ! i) rows) = Ok (aggs ! i))
   | Err e \<Rightarrow> e = NoncesNotFound \<and> (\<exists>row \<in> set rows. length row < length (hd rows))
   | Panic \<Rightarrow> rows = [] \<or> (\<exists>row \<in> set rows. \<exists>n \<in> set row. pub_nonce_from_bytes L n = None)"
proof (cases rows)
  case Nil
  then show ?thesis
    by (simp add: aggregate_pub_nonces_def)
next
  case (Cons first rest)
  define f where "f i = attempt (ok_or (column i rows) NoncesNotFound) (aggregate_nonces L)" for i
  have run: "aggregate_pub_nonces L rows = attempt_map f [0..<length (hd rows)]"
    using Cons by (simp add: aggregate_pub_nonces_def f_def [abs_def])
  have ok: "(\<forall>row \<in> set rows. i < length row) \<and> aggregate_nonces L (List.map (\<lambda>row. row ! i) rows) = Ok agg"
    if "f i = Ok agg" for i agg
    using that by (auto simp: f_def column_eq_Some)
  have err: "e = NoncesNotFound \<and> (\<exists>row \<in> set rows. \<not> i < length row)" if "f i = Err e" for i e
    using that aggregate_nonces_not_Ok(1)
    by (cases "column i rows") (auto simp: f_def, metis column_eq_Some option.distinct(1))
  have panic: "\<exists>row \<in> set rows. \<exists>n \<in> set row. pub_nonce_from_bytes L n = None" if "f i = Panic" for i
  proof (cases "column i rows")
    case (Some ns)
    with that obtain n where "n \<in> set ns" "pub_nonce_from_bytes L n = None"
      using aggregate_nonces_not_Ok(2) by (fastforce simp: f_def)
    with Some show ?thesis
      by (auto simp: column_eq_Some) (metis nth_mem)
  qed (use that in \<open>simp add: f_def\<close>)
  show ?thesis
  proof (cases "aggregate_pub_nonces L rows")
    case (Ok aggs)
    with run have m: "attempt_map f [0..<length (hd rows)] = Ok aggs"
      by simp
    then have "length aggs = length (hd rows)" "f i = Ok (aggs ! i)" if "i < length aggs" for i
      using that attempt_map_length [OF m] attempt_map_nth [OF m, of i] by simp_all
    moreover have "length aggs = length (hd rows)"
      using attempt_map_length [OF m] by simp
    ultimately have "rows \<noteq> [] \<and> length aggs = length (hd rows) \<and> (\<forall>i < length aggs. (\<forall>row \<in> set rows. i < length row) \<and>
          aggregate_nonces L (List.map (\<lambda>row. row ! i) rows) = Ok (aggs ! i))"
      using ok Cons by blast
    then show ?thesis
      unfolding Ok outcome.case .
  next
    case (Err e)
    with run attempt_map_Err [of f "[0..<length (hd rows)]" e] obtain i where
      "i < length (hd rows)" "f i = Err e"
      by auto
    with err [of i e] have "e = NoncesNotFound \<and> (\<exists>row \<in> set rows. length row < length (hd rows))"
      by (meson less_le_trans not_less)
    then show ?thesis
      unfolding Err outcome.case .
  next
    case Panic
    with run attempt_map_Panic [of f "[0..<length (hd rows)]"] panic
    have "\<exists>row \<in> set rows. \<exists>n \<in> set row. pub_nonce_from_bytes L n = None"
      by metis
    then show ?thesis
      unfolding Panic outcome.case by (rule disjI2)
  qed
qed

theorem aggregate_pub_nonces_columns_witness:
  "\<exists>aggs. aggregate_pub_nonces example_lib [[replicate 66 1, replicate 66 2], [replicate 66 3, replicate 66 4]] = Ok aggs \<and>
    aggregate_nonces example_lib [replicate 66 2, replicate 66 4] = Ok (aggs ! 1)"
proof -
  let ?rows = "[[replicate 66 1, replicate 66 2], [replicate 66 3, replicate 66 4]] :: bytes list list"
  have "is_Ok (aggregate_pub_nonces example_lib ?rows)"
    by code_simp
  then obtain aggs where "aggregate_pub_nonces example_lib ?rows = Ok aggs"
    by (auto simp: is_Ok_iff)
  with aggregate_pub_nonces_columns [where L = example_lib and rows = ?rows] show ?thesis
    by (auto simp del: replicate.simps)
qed

end
