(* ===== verification/Deposit_Session.thy ===== *)
theory Deposit_Session
  imports Reimbursement_Progress Aggregator_Role
begin

text \<open>
  A deposit made by all roles together on the example node, from the constructors to the withdrawal
  of the operator. It shows that the handlers fit each other, and that the hypotheses of the
  properties can hold at once.
\<close>

section \<open>The run\<close>

text \<open>
  Two verifiers, one operator that shares the database of the first, and the aggregator make a deposit:
  the calls in the order of the protocol, the state being the worlds of the two databases.
\<close>

definition on_first :: "('w, 'a) action \<Rightarrow> ('w \<times> 'v, 'a) action" where
  "on_first m p = (case m (fst p) of (r, w) \<Rightarrow> (r, w, snd p))"

definition on_second :: "('v, 'a) action \<Rightarrow> ('w \<times> 'v, 'a) action" where
  "on_second m p = (case m (snd p) of (r, v) \<Rightarrow> (r, fst p, v))"

lemma on_parts_eq_Ok:
  "on_first m p = (Ok a, p') \<longleftrightarrow> m (fst p) = (Ok a, fst p') \<and> snd p' = snd p"
  "on_second m p = (Ok a, p') \<longleftrightarrow> m (snd p) = (Ok a, snd p') \<and> fst p' = fst p"
  by (cases p', auto simp: on_first_def on_second_def split: prod.splits)+

definition deposit_session where
  "deposit_session =
    (let L = example_lib; N = example_node; k = deposit_at 0 in
    ask (on_first (operator_new L N (example_config (replicate 32 2)))) (\<lambda>self.
    ask (on_first (verifier_new L (example_config (replicate 32 1)))) (\<lambda>v1.
    ask (on_second (verifier_new L (example_config (replicate 32 3)))) (\<lambda>v2.
    ask (lift (aggregator_new L (example_config []))) (\<lambda>a.
    ask (on_first (operator_new_deposit L N self k example_recovery example_evm)) (\<lambda>(u, sig).
    ask (on_first (verifier_new_deposit L N v1 k example_recovery example_evm)) (\<lambda>nonces1.
    ask (on_second (verifier_new_deposit L N v2 k example_recovery example_evm)) (\<lambda>nonces2.
    ask (lift (aggregate_pub_nonces L [nonces1, nonces2])) (\<lambda>agg_nonces.
    ask (on_first (operator_kickoffs_generated L v1 k [u] [sig] agg_nonces)) (\<lambda>(slash1, _).
    ask (on_second (operator_kickoffs_generated L v2 k [u] [sig] agg_nonces)) (\<lambda>(slash2, _).
    ask (lift (aggregate_slash_or_take_sigs L a k [u] (drop 2 agg_nonces) [slash1, slash2])) (\<lambda>slash.
    ask (on_first (burn_txs_signed L v1 k [] slash)) (\<lambda>takes1.
    ask (on_second (burn_txs_signed L v2 k [] slash)) (\<lambda>takes2.
    ask (lift (aggregate_operator_take_sigs L a k [u] (drop 1 agg_nonces) [takes1, takes2])) (\<lambda>takes.
    ask (on_first (operator_take_txs_signed L v1 k takes)) (\<lambda>move1.
    ask (on_second (operator_take_txs_signed L v2 k takes)) (\<lambda>move2.
    ask (lift (item_at agg_nonces 0)) (\<lambda>agg_nonce.
    ask (lift (aggregate_move_tx_sigs L a k example_recovery example_evm agg_nonce [move1, move2])) (\<lambda>move.
    ask (on_first (withdrawal_proved_on_citrea L N self 0 k)) (\<lambda>raws.
    return (self, v1, a, u, sig, slash, takes, move, raws)))))))))))))))))))))"

text \<open>
  At the end the operator has what a reimbursement takes: the kickoff output with both signatures, one
  kickoff transaction that the node does not know, and before it one that it knows. The funding output
  bought at the start is not of a kickoff transaction.
\<close>

definition started_funding :: utxo where
  "started_funding = hd (funding_utxos (world_db started_world))"

definition session_end :: "operator \<Rightarrow> utxo \<Rightarrow> (database, example_chain) world \<Rightarrow> bool" where
  "session_end self u w \<longleftrightarrow>
    (let d = world_db w; t = op_txid (utxo_outpoint u) in
     kickoff_of d (deposit_at 0) = Some u \<and>
     (\<forall>row \<in> set (deposit_kickoff_generator_txs d). gen_txid row \<noteq> op_txid (utxo_outpoint started_funding)) \<and>
     world_faults w = [] \<and> \<not> operator_citrea_client self \<and>
     (case find (\<lambda>row. kickoff_deposit row = deposit_at 0 \<and> kickoff_row_utxo row = u) (deposit_kickoff_utxos d) of
        Some row \<Rightarrow> kickoff_slash_or_take_sig row \<noteq> None \<and> kickoff_operator_take_sig row \<noteq> None
      | None \<Rightarrow> False) \<and>
     (case find (\<lambda>row. gen_txid row = t) (deposit_kickoff_generator_txs d) of
        Some row \<Rightarrow> lookup_tx (fst (world_node w)) t = None \<and>
          lookup_tx (fst (world_node w)) (gen_funding_txid row) \<noteq> None
      | None \<Rightarrow> False))"

lemma deposit_session_Ok:
  "case deposit_session (start_world, start_world) of
     (Ok (self, v1, a, u, sig, slash, takes, move, raws), (w, _)) \<Rightarrow> length slash = 1 \<and> length takes = 1 \<and>
       length raws = 3 \<and> session_end self u w
   | _ \<Rightarrow> False"
  by code_simp

text \<open>The steps of the run.\<close>

lemma deposit_session_steps:
  obtains self w1 v1 w2 a u sig w3 nonces1 w4 agg_nonces slash1 w5 slash_parts slash takes1 w6 takes_parts takes
      move1 w7 agg_nonce move_parts move raws w8 where
    "operator_new example_lib example_node (example_config (replicate 32 2)) start_world = (Ok self, w1)"
    "verifier_new example_lib (example_config (replicate 32 1)) w1 = (Ok v1, w2)"
    "aggregator_new example_lib (example_config []) = Ok a"
    "operator_new_deposit example_lib example_node self (deposit_at 0) example_recovery example_evm w2 =
      (Ok (u, sig), w3)"
    "verifier_new_deposit example_lib example_node v1 (deposit_at 0) example_recovery example_evm w3 =
      (Ok nonces1, w4)"
    "operator_kickoffs_generated example_lib v1 (deposit_at 0) [u] [sig] agg_nonces w4 = (Ok slash1, w5)"
    "aggregate_slash_or_take_sigs example_lib a (deposit_at 0) [u] (drop 2 agg_nonces) slash_parts = Ok slash"
    "burn_txs_signed example_lib v1 (deposit_at 0) [] slash w5 = (Ok takes1, w6)"
    "aggregate_operator_take_sigs example_lib a (deposit_at 0) [u] (drop 1 agg_nonces) takes_parts = Ok takes"
    "operator_take_txs_signed example_lib v1 (deposit_at 0) takes w6 = (Ok move1, w7)"
    "aggregate_move_tx_sigs example_lib a (deposit_at 0) example_recovery example_evm agg_nonce move_parts = Ok move"
    "withdrawal_proved_on_citrea example_lib example_node self 0 (deposit_at 0) w7 = (Ok raws, w8)"
    "length slash = 1" "length takes = 1" "length raws = 3" "session_end self u w8"
proof -
  from deposit_session_Ok obtain self v1 a u sig slash takes move raws w8 v8 where
    run: "deposit_session (start_world, start_world) = (Ok (self, v1, a, u, sig, slash, takes, move, raws), w8, v8)"
    and len: "length slash = 1" "length takes = 1" "length raws = 3" and fin: "session_end self u w8"
    by (auto split: prod.splits outcome.splits)
  from run fin show ?thesis
    unfolding deposit_session_def Let_def
    by (auto simp: ask_eq_Ok on_parts_eq_Ok len [simplified] intro: that)
qed

end
