(* ===== verification/Deposit_Protocol.thy ===== *)
theory Deposit_Protocol
  imports Deposit_Session Key_Laws
begin

text \<open>
  What the roles owe each other, on participants made by the constructors from configurations with
  the same public parameters: the deposit address a user is given is the one that verifiers and
  operators accept, a verifier's checks pass on an operator's answer, the signatures the aggregator
  returns are for the messages the verifiers signed and pass their checks, and a user's signature on
  a withdrawal is one that an operator can pay.
\<close>

section \<open>Participants\<close>

definition same_parameters :: "bridge_config \<Rightarrow> bridge_config \<Rightarrow> bool" where
  "same_parameters c c' \<longleftrightarrow> cfg_network c' = cfg_network c \<and>
    cfg_verifiers_public_keys c' = cfg_verifiers_public_keys c \<and>
    cfg_operators_xonly_pks c' = cfg_operators_xonly_pks c \<and>
    cfg_operator_wallet_addresses c' = cfg_operator_wallet_addresses c \<and>
    cfg_user_takes_after c' = cfg_user_takes_after c \<and>
    cfg_operator_takes_after c' = cfg_operator_takes_after c \<and>
    cfg_bridge_amount_sats c' = cfg_bridge_amount_sats c"

lemma user_new_Ok:
  "user_new L sk c = Ok usr \<Longrightarrow> user_signer usr = actor_new L sk (cfg_network c) \<and>
    user_config usr = c \<and> from_musig2_pks L (cfg_verifiers_public_keys c) None False = Ok (user_nofn_xonly_pk usr)"
  by (auto simp: user_new_def Let_def)

lemma verifier_new_Ok:
  "verifier_new L c w = (Ok v, w') \<Longrightarrow> verifier_config v = c \<and>
    from_musig2_pks L (cfg_verifiers_public_keys c) None False = Ok (verifier_nofn_xonly_pk v) \<and>
    verifier_operator_xonly_pks v = cfg_operators_xonly_pks c"
  by (auto simp: verifier_new_def Let_def ask_eq_Ok)

lemma verifier_new_read: "moves (=) (verifier_new L c)"
  unfolding verifier_new_def Let_def database_new_def by (intro same_db.moves_intros) simp

lemma aggregator_new_Ok:
  "aggregator_new L c = Ok a \<Longrightarrow> aggregator_config a = c \<and>
    from_musig2_pks L (cfg_verifiers_public_keys c) None False = Ok (aggregator_nofn_xonly_pk a)"
  by (auto simp: aggregator_new_def)

lemma position_Some: "position p xs = Some i \<Longrightarrow> i < length xs \<and> p (xs ! i)"
  by (auto simp: position_def find_Some_iff)

lemma operator_new_Ok:
  assumes "operator_new L N c w = (Ok self, w')"
  shows "operator_config self = c \<and> operator_signer self = actor_new L (cfg_secret_key c) (cfg_network c) \<and>
    from_musig2_pks L (cfg_verifiers_public_keys c) None False = Ok (operator_nofn_xonly_pk self) \<and>
    (\<exists>i < length (cfg_operators_xonly_pks c). operator_idx self = word_of_nat i \<and>
      cfg_operators_xonly_pks c ! i = actor_xonly (operator_signer self))"
  using assms by (auto simp: operator_new_def Let_def ask_eq_Ok simp del: actor_new_simps dest!: position_Some)

section \<open>Deposits of a user\<close>

text \<open>
  C20. A verifier accepts a deposit exactly when it pays the bridge amount to the address that the user
  was given, has the demanded confirmations and is unspent, each by the node's answer at the time;
  the node is asked nothing else and the tables do not change.
\<close>

theorem user_deposit_accepted:
  assumes "user_new L sk c = Ok usr" "verifier_new L c' w0 = (Ok v, w0')" "same_parameters c c'"
  shows "check_deposit_utxo L N (verifier_nofn_xonly_pk v) k (actor_address (user_signer usr)) evm
      (cfg_bridge_amount_sats c') (cfg_confirmation_threshold c') (cfg_network c') (cfg_user_takes_after c') w =
      (Ok (), w') \<longleftrightarrow>
    (\<exists>addr confirmations n1 tx n2 out. get_deposit_address L usr evm = Ok addr \<and>
      get_raw_transaction_info N (op_txid k) (world_node w) = (Some (Some confirmations), n1) \<and>
      cfg_confirmation_threshold c' \<le> confirmations \<and>
      get_raw_transaction_op N (op_txid k) n1 = (Some tx, n2) \<and>
      unat (op_vout k) < length (btc_output tx) \<and>
      btc_output tx ! unat (op_vout k) =
        \<lparr>txout_value = cfg_bridge_amount_sats c, txout_script = address_script_pubkey L addr\<rparr> \<and>
      get_tx_out N (op_txid k) (op_vout k) n2 = (Some (Some out), world_node w')) \<and>
    w' = w\<lparr>world_node := world_node w'\<rparr>"
proof -
  have "from_musig2_pks L (cfg_verifiers_public_keys c) None False = Ok (user_nofn_xonly_pk usr)"
    "from_musig2_pks L (cfg_verifiers_public_keys c) None False = Ok (verifier_nofn_xonly_pk v)"
    using user_new_Ok [OF assms(1)] verifier_new_Ok [OF assms(2)] assms(3)
    by (simp_all add: same_parameters_def)
  then have nofn: "verifier_nofn_xonly_pk v = user_nofn_xonly_pk usr"
    by simp
  have addr: "get_deposit_address L usr evm = Ok addr \<longleftrightarrow> (\<exists>info. generate_deposit_address L
      (verifier_nofn_xonly_pk v) (actor_address (user_signer usr)) evm (cfg_bridge_amount_sats c')
      (cfg_network c') (cfg_user_takes_after c') = Ok (addr, info))" for addr
    using user_new_Ok [OF assms(1)] assms(3) nofn by (auto simp: get_deposit_address_def same_parameters_def)
  have amount: "cfg_bridge_amount_sats c' = cfg_bridge_amount_sats c"
    using assms(3) by (simp add: same_parameters_def)
  show ?thesis
    unfolding check_deposit_utxo_eq_Ok deposit_facts_def addr amount by blast
qed

text \<open>The example user pays to his deposit address.\<close>

definition pay_deposit :: "(example_chain, outpoint) handler" where
  "pay_deposit = deposit_tx example_lib example_node example_user example_evm"

lemma example_participants:
  "user_new example_lib (replicate 32 9) (example_config (replicate 32 9)) = Ok example_user"
  "verifier_new example_lib (example_config (replicate 32 1)) start_world = (Ok example_verifier, start_world)"
  "same_parameters (example_config sk) (example_config sk')"
proof -
  show "user_new example_lib (replicate 32 9) (example_config (replicate 32 9)) = Ok example_user"
    "verifier_new example_lib (example_config (replicate 32 1)) start_world = (Ok example_verifier, start_world)"
    by code_simp+
qed (simp add: same_parameters_def example_config_def)

lemma example_nofn_key:
  "from_musig2_pks example_lib (cfg_verifiers_public_keys (example_config sk)) None False = Ok example_nofn"
  using verifier_new_Ok [OF example_participants(2)] by (simp add: example_config_def example_verifier_def)

lemma paid_deposit_checked:
  obtains k w1 w2 where "pay_deposit start_world = (Ok k, w1)"
    "check_deposit_utxo example_lib example_node (verifier_nofn_xonly_pk example_verifier) k
      (actor_address (user_signer example_user)) example_evm 100000000 1 Regtest 5 w1 = (Ok (), w2)"
proof -
  have "case pay_deposit start_world of (Ok k, w1) \<Rightarrow>
      is_Ok (fst (check_deposit_utxo example_lib example_node (verifier_nofn_xonly_pk example_verifier) k
        (actor_address (user_signer example_user)) example_evm 100000000 1 Regtest 5 w1)) | _ \<Rightarrow> False"
    by code_simp
  then show ?thesis
    using that by (auto simp: is_Ok_iff prod_eq_iff split: prod.splits outcome.splits)
qed

theorem user_deposit_accepted_witness:
  "\<exists>(k :: outpoint) addr (tx :: btc_tx). get_deposit_address example_lib example_user example_evm = Ok addr \<and>
    btc_output tx ! unat (op_vout k) =
      \<lparr>txout_value = 100000000, txout_script = address_script_pubkey example_lib addr\<rparr>"
proof (rule paid_deposit_checked)
  fix k w1 w2
  assume c: "check_deposit_utxo example_lib example_node (verifier_nofn_xonly_pk example_verifier) k
      (actor_address (user_signer example_user)) example_evm 100000000 1 Regtest 5 w1 = (Ok (), w2)"
  have "cfg_bridge_amount_sats (example_config sk) = 100000000"
    "cfg_confirmation_threshold (example_config sk) = 1" "cfg_network (example_config sk) = Regtest"
    "cfg_user_takes_after (example_config sk) = 5" for sk
    by (simp_all add: example_config_def)
  from iffD1 [OF user_deposit_accepted [OF example_participants, of example_node k example_evm w1 w2, unfolded this] c]
  show ?thesis
    by blast
qed

section \<open>An operator's answer\<close>

text \<open>
  C18. A verifier's checks pass on an operator's answer to a deposit: at the place of the operator, the
  kickoff output has the amount and the address the verifier demands and the signature verifies, so
  that what is left is to build the slash-or-take transaction, the one the operator will use.
\<close>

theorem operator_answer_accepted:
  assumes "operator_new L N c w0 = (Ok self, w1)" "world_db w0 = empty_database"
    and "operator_run L N self w1 w"
    and "operator_new_deposit L N self k recovery evm w = (Ok (u, sig), w')"
    and "verifier_new L c' v0 = (Ok v, v1)" "same_parameters c c'"
    and "tx_roundtrip L" "schnorr_correct L"
    and "unat (cfg_operator_num_kickoff_utxos_per_tx c) < 2 ^ 31"
    and "length (cfg_operators_xonly_pks c) < 2 ^ 64"
    and "sigs ! unat (operator_idx self) = sig" "unat (operator_idx self) < length sigs"
  shows "slash_or_take_sighash L v k sigs (unat (operator_idx self), u) =
    attempt (create_slash_or_take_tx L k u (actor_xonly (operator_signer self)) (operator_idx self)
      (operator_nofn_xonly_pk self) (cfg_network c) (cfg_user_takes_after c) (cfg_operator_takes_after c)
      (cfg_bridge_amount_sats c)) (\<lambda>h. convert_tx_to_sighash_script_spend L h 0 0)"
proof -
  note op = operator_new_Ok [OF assms(1)] and ver = verifier_new_Ok [OF assms(5)]
  from op obtain i where i: "i < length (cfg_operators_xonly_pks c)" "operator_idx self = word_of_nat i"
    "cfg_operators_xonly_pks c ! i = actor_xonly (operator_signer self)"
    by blast
  then have idx: "unat (operator_idx self) = i"
    using assms(10) by (simp add: unsigned_of_nat take_bit_nat_eq_self)
  have nofn: "verifier_nofn_xonly_pk v = operator_nofn_xonly_pk self"
    using op ver assms(6) by (simp add: same_parameters_def)
  have "outputs_inv L self (world_db w1)"
    using operator_run_outputs [of L N self w0 w1] operator_step.restart [of L N self w0 "Ok self" w1]
      outputs_inv_empty [of L self] assms(1,2,7,9) op by (metis r_into_rtranclp)
  then have inv: "outputs_inv L self (world_db w')"
    using operator_run_outputs [of L N self w1 w'] assms(3,7,9) op
      operator_step.new_deposit [OF assms(4)] by (metis rtranclp.rtrancl_into_rtrancl)
  have "kickoff_of (world_db w') k = Some u"
    using operator_new_deposit_Ok [OF assms(4)] assigned_kept by blast
  then have "(k, u) \<in> set (operators_kickoff_utxo (world_db w'))"
    unfolding kickoff_of_def by (rule map_of_SomeD)
  with inv have "real_output L self u"
    unfolding outputs_inv_def by force
  then obtain funding h j where h: "signed_kickoff_tx L self funding h"
      "j < unat (cfg_operator_num_kickoff_utxos_per_tx (operator_config self))"
      "utxo_txout u = btc_output (handler_tx h) ! j"
    unfolding real_output_def by auto
  obtain addr info where a: "create_kickoff_address L (operator_nofn_xonly_pk self)
      (actor_xonly (operator_signer self)) (cfg_network (operator_config self)) = Ok (addr, info)"
    "utxo_txout u = \<lparr>txout_value = 100000, txout_script = address_script_pubkey L addr\<rparr>"
    using signed_kickoff_outputs [OF h(1)] assms(9) op h(2,3) by metis
  have "verify_schnorr L sig (kickoff_sig_hash L k (utxo_outpoint u)) (actor_xonly (operator_signer self))"
    using operator_new_deposit_Ok [OF assms(4)] sign_verifies [OF assms(8)] op by metis
  with a i idx nofn op ver assms(6,11,12) show ?thesis
    by (simp add: slash_or_take_sighash_def same_parameters_def kickoff_sig_hash_def Let_def
        KICKOFF_UTXO_AMOUNT_SATS_def del: actor_new_simps)
qed

theorem operator_answer_accepted_witness:
  "\<exists>(v :: verifier) u sig. slash_or_take_sighash example_lib v (deposit_at 0) [sig] (0, u) =
    attempt (create_slash_or_take_tx example_lib (deposit_at 0) u (replicate 32 2) 0
      example_nofn Regtest 5 5 100000000) (\<lambda>h. convert_tx_to_sighash_script_spend example_lib h 0 0)"
proof (rule deposit_session_steps)
  fix self w1 v1 w2 u sig w3
  assume 1: "operator_new example_lib example_node (example_config (replicate 32 2)) start_world = (Ok self, w1)"
    and 2: "verifier_new example_lib (example_config (replicate 32 1)) w1 = (Ok v1, w2)"
    and 3: "operator_new_deposit example_lib example_node self (deposit_at 0) example_recovery example_evm w2 =
      (Ok (u, sig), w3)"
  have run: "operator_run example_lib example_node self w1 w2"
  proof (intro r_into_rtranclp operator_step.outside)
    show "world_db w2 = world_db w1"
      using same_db.moves_ok [OF verifier_new_read 2] by simp
  qed
  have self: "operator_idx self = 0" "actor_xonly (operator_signer self) = replicate 32 2"
    "operator_nofn_xonly_pk self = example_nofn"
    using operator_new_Ok [OF 1] by (auto simp: example_nofn_key) (simp_all add: example_config_def)
  have small: "unat (cfg_operator_num_kickoff_utxos_per_tx (example_config sk)) < 2 ^ 31"
    "length (cfg_operators_xonly_pks (example_config sk)) < 2 ^ 64" for sk
    by (simp_all add: example_config_def)
  have "[sig] ! unat (operator_idx self) = sig" "unat (operator_idx self) < length [sig]"
    by (simp_all add: self)
  from operator_answer_accepted [OF 1 start_world_empty run 3 2 example_participants(3)
      example_lib_roundtrip example_lib_keys(1) small this] show ?thesis
    by (auto simp: self example_config_def)
qed

section \<open>Aggregated signatures\<close>

lemma aggregate_slash_or_take_sigs_nth:
  assumes "aggregate_slash_or_take_sigs L a k utxos agg_nonces partial_sigs = Ok sigs" "i < length sigs"
  obtains pk nonce parts s where "i < length utxos" "i < length (cfg_operators_xonly_pks (aggregator_config a))"
    "pk = cfg_operators_xonly_pks (aggregator_config a) ! i"
    "aggregate_slash_or_take_partial_sigs L a k (utxos ! i) pk (word_of_nat i) nonce parts = Ok s"
    "signature_from_slice L s = Some (sigs ! i)"
proof -
  from assms(1) obtain first :: "bytes list" where m: "attempt_map (\<lambda>i.
      attempt (ok_or (column i partial_sigs) NoncesNotFound) (\<lambda>partial_sigs.
      attempt (item_at utxos i) (\<lambda>kickoff_utxo.
      attempt (item_at (cfg_operators_xonly_pks (aggregator_config a)) i) (\<lambda>operator_xonly_pk.
      attempt (item_at agg_nonces i) (\<lambda>agg_nonce.
      attempt (aggregate_slash_or_take_partial_sigs L a k kickoff_utxo
          operator_xonly_pk (word_of_nat i) agg_nonce partial_sigs) (\<lambda>agg_sig.
      ok_or (signature_from_slice L agg_sig) Secp256k1Error)))))) [0..<length first] = Ok sigs"
    unfolding aggregate_slash_or_take_sigs_def attempt_eq_Ok by blast
  with assms(2) have "i < length [0..<length first]"
    using attempt_map_length [OF m] by simp
  from attempt_map_nth [OF m this] that show ?thesis
    using \<open>i < length [0..<length first]\<close> by auto
qed

lemma aggregate_operator_take_sigs_nth:
  assumes "aggregate_operator_take_sigs L a k utxos agg_nonces partial_sigs = Ok sigs" "i < length sigs"
  obtains pk nonce parts s where "i < length utxos" "i < length (cfg_operators_xonly_pks (aggregator_config a))"
    "pk = cfg_operators_xonly_pks (aggregator_config a) ! i"
    "aggregate_operator_takes_partial_sigs L a k (utxos ! i) pk (word_of_nat i) nonce parts = Ok s"
    "signature_from_slice L s = Some (sigs ! i)"
proof -
  from assms(1) obtain first :: "bytes list" where m: "attempt_map (\<lambda>i.
      attempt (item_at utxos i) (\<lambda>kickoff_utxo.
      attempt (item_at (cfg_operators_xonly_pks (aggregator_config a)) i) (\<lambda>operator_xonly_pk.
      attempt (item_at agg_nonces i) (\<lambda>agg_nonce.
      attempt (attempt_map (\<lambda>v. item_at v i) partial_sigs) (\<lambda>partial_sigs.
      attempt (aggregate_operator_takes_partial_sigs L a k kickoff_utxo
          operator_xonly_pk (word_of_nat i) agg_nonce partial_sigs) (\<lambda>agg_sig.
      ok_or (signature_from_slice L agg_sig) Secp256k1Error)))))) [0..<length first] = Ok sigs"
    unfolding aggregate_operator_take_sigs_def attempt_eq_Ok by blast
  with assms(2) have "i < length [0..<length first]"
    using attempt_map_length [OF m] by simp
  from attempt_map_nth [OF m this] that show ?thesis
    using \<open>i < length [0..<length first]\<close> by auto
qed

text \<open>An aggregator and a verifier with the same public parameters.\<close>

definition agree :: "'x lib_scheme \<Rightarrow> aggregator \<Rightarrow> verifier \<Rightarrow> bool" where
  "agree L a v \<longleftrightarrow> same_parameters (aggregator_config a) (verifier_config v) \<and>
    verifier_operator_xonly_pks v = cfg_operators_xonly_pks (verifier_config v) \<and>
    verifier_nofn_xonly_pk v = aggregator_nofn_xonly_pk a \<and>
    from_musig2_pks L (cfg_verifiers_public_keys (aggregator_config a)) None False =
      Ok (aggregator_nofn_xonly_pk a)"

lemma constructed_agree:
  assumes "aggregator_new L c = Ok a" "verifier_new L c' w = (Ok v, w')" "same_parameters c c'"
  shows "agree L a v"
  using aggregator_new_Ok [OF assms(1)] verifier_new_Ok [OF assms(2)] assms(3)
  by (simp add: agree_def same_parameters_def)

lemma slash_sigs_accepted:
  assumes "agree L a v" "musig_correct L"
    and "aggregate_slash_or_take_sigs L a k utxos agg_nonces partial_sigs = Ok sigs" "i < length sigs"
    and "slash_or_take_sighash L v k kickoff_sigs (i, utxos ! i) = Ok message"
  shows "verify_schnorr L (sigs ! i) message (verifier_nofn_xonly_pk v)"
proof (rule aggregate_slash_or_take_sigs_nth [OF assms(3,4)])
  fix pk nonce parts s
  assume pk: "pk = cfg_operators_xonly_pks (aggregator_config a) ! i"
    and s: "aggregate_slash_or_take_partial_sigs L a k (utxos ! i) pk (word_of_nat i) nonce parts = Ok s"
      "signature_from_slice L s = Some (sigs ! i)"
  from slash_or_take_sighash_Ok [OF assms(5)] obtain h where
    h: "create_slash_or_take_tx L k (utxos ! i) (cfg_operators_xonly_pks (verifier_config v) ! i)
        (word_of_nat i) (verifier_nofn_xonly_pk v) (cfg_network (verifier_config v))
        (cfg_user_takes_after (verifier_config v)) (cfg_operator_takes_after (verifier_config v))
        (cfg_bridge_amount_sats (verifier_config v)) = Ok h"
      "convert_tx_to_sighash_script_spend L h 0 0 = Ok message"
    by blast
  with s(1) pk assms(1) have "aggregate_partial_signatures L (cfg_verifiers_public_keys (aggregator_config a))
      None False nonce parts message = Ok s"
    by (simp add: aggregate_slash_or_take_partial_sigs_def agree_def same_parameters_def Let_def)
  with s(2) assms(1,2) show ?thesis
    by (auto simp: agree_def intro: aggregated_signature_verifies)
qed

lemma takes_sigs_accepted:
  assumes "agree L a v" "musig_correct L"
    and "aggregate_operator_take_sigs L a k utxos agg_nonces partial_sigs = Ok sigs" "i < length sigs"
      "length sigs < 2 ^ 64"
    and "create_move_tx L k (verifier_nofn_xonly_pk v) (cfg_bridge_amount_sats (verifier_config v))
      (cfg_network (verifier_config v)) = Ok move_tx"
    and "slice_2_34 (address_script_pubkey L (p2tr L (verifier_nofn_xonly_pk v) None
      (cfg_network (verifier_config v)))) = Ok key_bytes" "xonly_from_slice L key_bytes = Some key"
  shows "check_operator_take_sig L v k \<lparr>op_txid = compute_txid L move_tx, op_vout = 0\<rparr> key sigs
    (i, utxos ! i) = Ok ()"
proof (rule aggregate_operator_take_sigs_nth [OF assms(3,4)])
  let ?c = "verifier_config v" and ?fund = "\<lparr>op_txid = compute_txid L move_tx, op_vout = 0\<rparr>"
  fix pk nonce parts s
  assume i: "i < length (cfg_operators_xonly_pks (aggregator_config a))"
    and pk: "pk = cfg_operators_xonly_pks (aggregator_config a) ! i"
    and s: "aggregate_operator_takes_partial_sigs L a k (utxos ! i) pk (word_of_nat i) nonce parts = Ok s"
      "signature_from_slice L s = Some (sigs ! i)"
  have idx: "unat (word_of_nat i :: u64) = i"
    using assms(4,5) by (simp add: unsigned_of_nat take_bit_nat_eq_self)
  from s(1) assms(1,6) obtain slash wallet takes message where
    1: "create_slash_or_take_tx L k (utxos ! i) pk (word_of_nat i) (verifier_nofn_xonly_pk v)
        (cfg_network ?c) (cfg_user_takes_after ?c) (cfg_operator_takes_after ?c)
        (cfg_bridge_amount_sats ?c) = Ok slash"
      "item_at (btc_output (handler_tx slash)) 0 = Ok (btc_output (handler_tx slash) ! 0)"
    and 2: "item_at (cfg_operator_wallet_addresses ?c) i = Ok wallet"
    and 3: "create_operator_takes_tx L ?fund
        \<lparr>utxo_outpoint = \<lparr>op_txid = compute_txid L (handler_tx slash), op_vout = 0\<rparr>,
         utxo_txout = btc_output (handler_tx slash) ! 0\<rparr> pk (verifier_nofn_xonly_pk v) (cfg_network ?c)
        (cfg_operator_takes_after ?c) (cfg_bridge_amount_sats ?c) wallet = Ok takes"
    and 4: "convert_tx_to_sighash_pubkey_spend L takes 0 = Ok message"
    and 5: "aggregate_partial_signatures L (cfg_verifiers_public_keys (aggregator_config a)) None True
        nonce parts message = Ok s"
    by (auto simp: aggregate_operator_takes_partial_sigs_def agree_def same_parameters_def Let_def idx
        simp del: nat_uint_eq)
  have "verify_schnorr L (sigs ! i) message key"
    using assms(1) by (intro aggregated_signature_verifies_tweaked [OF assms(2) _ 5 s(2) assms(7,8)])
      (simp add: agree_def)
  with 1 2 3 4 i pk assms(1,4) show ?thesis
    by (auto simp: check_operator_take_sig_def agree_def same_parameters_def Let_def)
qed

lemma move_sig_accepted:
  assumes "agree L a v" "musig_correct L"
    and "aggregate_move_tx_sigs L a k recovery evm agg_nonce partial_sigs = Ok (raw, txid)"
  shows "\<exists>h message sig h'. create_move_tx_handler L k evm recovery (verifier_nofn_xonly_pk v)
      (cfg_network (verifier_config v)) (cfg_user_takes_after (verifier_config v))
      (cfg_bridge_amount_sats (verifier_config v)) = Ok h \<and>
    convert_tx_to_sighash_script_spend L h 0 0 = Ok message \<and>
    verify_schnorr L sig message (verifier_nofn_xonly_pk v) \<and>
    handle_taproot_witness_new L h [sig] 0 (Some 0) = Ok h' \<and>
    raw = raw_hex L (handler_tx h') \<and> txid = compute_txid L (handler_tx h')"
proof -
  let ?c = "verifier_config v"
  from assms(1,3) obtain s sig h h' message where
    1: "create_move_tx_handler L k evm recovery (verifier_nofn_xonly_pk v) (cfg_network ?c)
      (cfg_user_takes_after ?c) (cfg_bridge_amount_sats ?c) = Ok h"
      "convert_tx_to_sighash_script_spend L h 0 0 = Ok message"
    and 2: "aggregate_partial_signatures L (cfg_verifiers_public_keys (aggregator_config a)) None False
      agg_nonce partial_sigs message = Ok s" "signature_from_slice L s = Some sig"
    and 3: "handle_taproot_witness_new L h [sig] 0 (Some 0) = Ok h'"
      "raw = raw_hex L (handler_tx h')" "txid = compute_txid L (handler_tx h')"
    by (auto simp: aggregate_move_tx_sigs_def aggregate_move_partial_sigs_def agree_def
        same_parameters_def Let_def)
  have "verify_schnorr L sig message (verifier_nofn_xonly_pk v)"
    using assms(1) aggregated_signature_verifies [OF assms(2) _ 2] by (simp add: agree_def)
  with 1 3 show ?thesis
    by blast
qed

text \<open>
  C6. The aggregator's signatures are for the verifiers' messages: the \<open>i\<close>-th slash-or-take signature
  verifies for the message that a verifier partially signs for operator \<open>i\<close>, every operator-takes
  signature passes the verifier's check, and the move transaction that the aggregator returns is the
  verifiers' one with a signature that verifies for it. This rests on aggregated signatures being
  checked before they are returned.
\<close>

theorem aggregated_signatures_accepted:
  assumes "aggregator_new L c = Ok a" "verifier_new L c' w = (Ok v, w')" "same_parameters c c'"
    and "musig_correct L"
  shows "(aggregate_slash_or_take_sigs L a k utxos agg_nonces partial_sigs = Ok sigs \<and> i < length sigs \<and>
      slash_or_take_sighash L v k kickoff_sigs (i, utxos ! i) = Ok message \<longrightarrow>
      verify_schnorr L (sigs ! i) message (verifier_nofn_xonly_pk v)) \<and>
    (aggregate_operator_take_sigs L a k utxos agg_nonces' partial_sigs' = Ok sigs' \<and> i < length sigs' \<and>
      length sigs' < 2 ^ 64 \<and>
      create_move_tx L k (verifier_nofn_xonly_pk v) (cfg_bridge_amount_sats c') (cfg_network c') = Ok move_tx \<and>
      slice_2_34 (address_script_pubkey L (p2tr L (verifier_nofn_xonly_pk v) None (cfg_network c'))) = Ok key_bytes \<and>
      xonly_from_slice L key_bytes = Some key \<longrightarrow>
      check_operator_take_sig L v k \<lparr>op_txid = compute_txid L move_tx, op_vout = 0\<rparr> key sigs'
        (i, utxos ! i) = Ok ()) \<and>
    (aggregate_move_tx_sigs L a k recovery evm agg_nonce move_sigs = Ok (raw, txid) \<longrightarrow>
      (\<exists>h message sig h'. create_move_tx_handler L k evm recovery (verifier_nofn_xonly_pk v)
          (cfg_network c') (cfg_user_takes_after c') (cfg_bridge_amount_sats c') = Ok h \<and>
        convert_tx_to_sighash_script_spend L h 0 0 = Ok message \<and>
        verify_schnorr L sig message (verifier_nofn_xonly_pk v) \<and>
        handle_taproot_witness_new L h [sig] 0 (Some 0) = Ok h' \<and>
        raw = raw_hex L (handler_tx h') \<and> txid = compute_txid L (handler_tx h')))"
proof -
  note agree = constructed_agree [OF assms(1-3)]
  have c: "verifier_config v = c'"
    using verifier_new_Ok [OF assms(2)] by blast
  note accepted = slash_sigs_accepted [OF agree assms(4)] takes_sigs_accepted [OF agree assms(4), unfolded c]
    move_sig_accepted [OF agree assms(4), unfolded c]
  show ?thesis
    by (intro conjI impI; (elim conjE)?; rule accepted; assumption)
qed

theorem aggregated_signatures_accepted_witness:
  "\<exists>(v :: verifier) u sigs message move_tx key takes h sig.
    verify_schnorr example_lib (sigs ! 0) message (verifier_nofn_xonly_pk v) \<and>
    slash_or_take_sighash example_lib v (deposit_at 0) sig (0, u) = Ok message \<and>
    check_operator_take_sig example_lib v (deposit_at 0)
      \<lparr>op_txid = compute_txid example_lib move_tx, op_vout = 0\<rparr> key takes (0, u) = Ok () \<and>
    create_move_tx_handler example_lib (deposit_at 0) example_evm example_recovery
      (verifier_nofn_xonly_pk v) Regtest 5 100000000 = Ok h \<and> handler_tx h = move_tx"
proof (rule deposit_session_steps)
  fix w1 v1 w2 a u sig w4 agg_nonces slash1 w5 slash_parts slash takes_parts takes agg_nonce move_parts move
  assume 1: "verifier_new example_lib (example_config (replicate 32 1)) w1 = (Ok v1, w2)"
    and 2: "aggregator_new example_lib (example_config []) = Ok a"
    and 3: "operator_kickoffs_generated example_lib v1 (deposit_at 0) [u] [sig] agg_nonces w4 = (Ok slash1, w5)"
    and 4: "aggregate_slash_or_take_sigs example_lib a (deposit_at 0) [u] (drop 2 agg_nonces) slash_parts = Ok slash"
    and 5: "aggregate_operator_take_sigs example_lib a (deposit_at 0) [u] (drop 1 agg_nonces) takes_parts = Ok takes"
    and 6: "aggregate_move_tx_sigs example_lib a (deposit_at 0) example_recovery example_evm agg_nonce move_parts =
      Ok move"
    and len: "length slash = 1" "length takes = 1"
  obtain raw txid where move: "move = (raw, txid)"
    by (cases move)
  obtain message where m: "slash_or_take_sighash example_lib v1 (deposit_at 0) [sig] (0, [u] ! 0) = Ok message"
    using 3 by (auto simp: operator_kickoffs_generated_def ask_eq_Ok)
  have v1: "verifier_nofn_xonly_pk v1 = example_nofn"
    using verifier_new_Ok [OF 1] by (simp add: example_nofn_key)
  obtain key_bytes key where key: "slice_2_34 (address_script_pubkey example_lib
      (p2tr example_lib (verifier_nofn_xonly_pk v1) None (cfg_network (example_config (replicate 32 1))))) = Ok key_bytes"
    "xonly_from_slice example_lib key_bytes = Some key"
    by (simp add: slice_2_34_def example_lib_def ex_defs v1)
  note accepted = aggregated_signatures_accepted [OF 2 1 example_participants(3) example_lib_keys(3)]
  from accepted [THEN conjunct2, THEN conjunct2, rule_format, OF 6 [unfolded move]] obtain h where
    h: "create_move_tx_handler example_lib (deposit_at 0) example_evm example_recovery (verifier_nofn_xonly_pk v1)
      (cfg_network (example_config (replicate 32 1))) (cfg_user_takes_after (example_config (replicate 32 1)))
      (cfg_bridge_amount_sats (example_config (replicate 32 1))) = Ok h"
    by blast
  have "verify_schnorr example_lib (slash ! 0) message (verifier_nofn_xonly_pk v1)"
    using 4 len m by (intro accepted [THEN conjunct1, rule_format]) (intro conjI, assumption, simp, assumption)
  moreover have "check_operator_take_sig example_lib v1 (deposit_at 0)
      \<lparr>op_txid = compute_txid example_lib (handler_tx h), op_vout = 0\<rparr> key takes (0, [u] ! 0) = Ok ()"
    using 5 len key create_move_tx_handler_fee(2) [OF h]
    by (intro accepted [THEN conjunct2, THEN conjunct1, rule_format]) (intro conjI; (assumption | simp))
  ultimately show ?thesis
    using m h by (intro exI [of _ v1] exI [of _ u] exI [of _ slash] exI [of _ message]
        exI [of _ "handler_tx h"] exI [of _ key] exI [of _ takes] exI [of _ h] exI [of _ "[sig]"])
      (simp add: example_config_def)
qed

section \<open>Withdrawals of a user\<close>

lemma withdrawal_request_signed:
  assumes "user_new L sk c = Ok usr" "schnorr_correct L" "taproot_keys L"
    and "generate_withdrawal_transaction_and_signature L N usr addr amount w = (Ok (utxo, out, sig), w')"
  shows "user_signed L utxo out sig \<and> out = \<lparr>txout_value = amount, txout_script = address_script_pubkey L addr\<rparr> \<and>
    txout_value (utxo_txout utxo) = 550"
proof -
  from assms(4) obtain outpoint m where
    u: "utxo = \<lparr>utxo_outpoint = outpoint, utxo_txout = \<lparr>txout_value = 550,
      txout_script = address_script_pubkey L (actor_address (user_signer usr))\<rparr>\<rparr>"
    and out: "out = \<lparr>txout_value = amount, txout_script = address_script_pubkey L addr\<rparr>"
    and m: "key_spend_signature_hash L (create_btc_tx (create_tx_ins [outpoint]) [out]) 0
      (One_Prevout 0 (utxo_txout utxo)) SinglePlusAnyoneCanPay = Some m"
    and sig: "\<exists>aux. sign_with_tweak L aux (user_signer usr) m None = Ok sig"
    by (auto simp: generate_withdrawal_transaction_and_signature_def Let_def ask_eq_Ok
        sign_taproot_pubkey_spend_tx_with_sighash_def prevouts_for_def sighash_type_or_default_def
        WITHDRAWAL_EMPTY_UTXO_SATS_def)
  obtain key where key: "slice_2_34 (address_script_pubkey L (actor_address (user_signer usr))) = Ok key"
    "xonly_from_slice L key = Some key" "verify_schnorr L sig m key"
    using sign_with_tweak_verifies [OF assms(2,3)] sig user_new_Ok [OF assms(1)] by metis
  with u out m show ?thesis
    by (auto simp: user_signed_def slice_2_34_def split: if_splits)
qed

text \<open>
  C19. A user's request for a withdrawal is one that an operator pays: his signature verifies for the
  input and the payment, so that an operator without a Citrea node, for whom the withdrawal is
  profitable and whose wallet funds, signs and sends the transaction, answers with its id.
\<close>

theorem user_withdrawal_accepted:
  assumes "user_new L sk c = Ok usr" "schnorr_correct L" "taproot_keys L"
    and "generate_withdrawal_transaction_and_signature L N usr addr amount w0 = (Ok (utxo, out, sig), w1)"
    and "is_profitable self 550 amount = Ok True" "\<not> operator_citrea_client self"
    and "fund_raw_transaction_op N (withdrawal_tx L self utxo out sig) (world_node w) = (Some funded_raw, n1)"
    and "sign_raw_transaction_op N funded_raw n1 = (Some signed_raw, n2)" "deserialize_tx L signed_raw = Some tx"
    and "send_raw_transaction_op N tx n2 = (Some txid, n3)"
  shows "user_signed L utxo out sig \<and>
    out = \<lparr>txout_value = amount, txout_script = address_script_pubkey L addr\<rparr> \<and>
    new_withdrawal_sig L N self i sig utxo out w = (Ok txid, w\<lparr>world_node := n3\<rparr>)"
proof -
  note s = withdrawal_request_signed [OF assms(1-4)]
  let ?bs = "take 32 (drop 2 (txout_script (utxo_txout utxo)))"
  from s obtain key m where k: "slice_2_34 (txout_script (utxo_txout utxo)) = Ok ?bs"
      "xonly_from_slice L ?bs = Some key"
    and m: "key_spend_signature_hash L (create_btc_tx (create_tx_ins [utxo_outpoint utxo]) [out]) 0
      (One_Prevout 0 (utxo_txout utxo)) SinglePlusAnyoneCanPay = Some m" "verify_schnorr L sig m key"
    unfolding user_signed_def slice_2_34_def by auto
  have "length (usize_to_var_len_bytes (operator_idx self)) \<le> 8"
    using var_len_range [of "operator_idx self"] by (simp add: usize_to_var_len_bytes_eq)
  then have p: "push_bytes (usize_to_var_len_bytes (operator_idx self)) =
      Ok (usize_to_var_len_bytes (operator_idx self))"
    by (simp add: push_bytes_def)
  let ?tx = "push_witness 0 [taproot_signature_serialize L sig SinglePlusAnyoneCanPay]
    (create_btc_tx (create_tx_ins [utxo_outpoint utxo]) [out])"
  have tx: "?tx\<lparr>btc_output := btc_output ?tx @ [op_return_txout L (usize_to_var_len_bytes (operator_idx self))]\<rparr> =
      withdrawal_tx L self utxo out sig"
    by (simp add: withdrawal_tx_def Let_def push_witness_def create_btc_tx_def)
  have "is_profitable self (txout_value (utxo_txout utxo)) (txout_value out) = Ok True"
    using s assms(5) by simp
  moreover have "fund_raw_transaction N (withdrawal_tx L self utxo out sig) w = (Ok funded_raw, w\<lparr>world_node := n1\<rparr>)"
    "sign_raw_transaction_with_wallet N funded_raw (w\<lparr>world_node := n1\<rparr>) = (Ok signed_raw, w\<lparr>world_node := n2\<rparr>)"
    "send_raw_transaction N tx (w\<lparr>world_node := n2\<rparr>) = (Ok txid, w\<lparr>world_node := n3\<rparr>)"
    using assms(7,8,10) by (simp_all add: fund_raw_transaction_def sign_raw_transaction_with_wallet_def
        send_raw_transaction_def request_eq_Ok_iff)
  ultimately have "new_withdrawal_sig L N self i sig utxo out w = (Ok txid, w\<lparr>world_node := n3\<rparr>)"
    using k m p assms(6,9) by (simp add: new_withdrawal_sig_def Let_def tx) (simp add: ask_def)
  with s show ?thesis
    by blast
qed

theorem user_withdrawal_accepted_witness:
  "\<exists>utxo out sig w1 txid w2. ask_withdrawal start_world = (Ok (utxo, out, sig), w1) \<and>
    user_signed example_lib utxo out sig \<and>
    new_withdrawal_sig example_lib example_node example_operator 0 sig utxo out w1 = (Ok txid, w2)"
proof (rule withdrawal_session)
  fix utxo out sig and w1 :: "(database, example_chain) world"
  assume 1: "ask_withdrawal start_world = (Ok (utxo, out, sig), w1)"
  let ?tx = "withdrawal_tx example_lib example_operator utxo out sig"
  have profit: "is_profitable example_operator 550 10000 = Ok True" "\<not> operator_citrea_client example_operator"
    by code_simp+
  have node: "fund_raw_transaction_op example_node ?tx (world_node w1) = (Some (enc_tx ?tx), world_node w1)"
    "sign_raw_transaction_op example_node (enc_tx ?tx) (world_node w1) = (Some (enc_tx ?tx), world_node w1)"
    "deserialize_tx example_lib (enc_tx ?tx) = Some ?tx"
    "send_raw_transaction_op example_node ?tx (world_node w1) =
      (Some (compute_txid example_lib ?tx), ?tx # fst (world_node w1), snd (world_node w1))"
    by (simp_all add: example_node_def node_fund_def node_sign_def node_send_def example_lib_def dec_enc_tx)
  from user_withdrawal_accepted [OF example_participants(1) example_lib_keys(1,2)
      1 [unfolded ask_withdrawal_def] profit node] 1 show ?thesis
    by blast
qed

section \<open>A reimbursement\<close>

text \<open>The run of the example, to the withdrawal and past it.\<close>

lemma started_funding: "funding_utxos (world_db started_world) = [started_funding]"
proof -
  have "length (funding_utxos (world_db started_world)) = 1"
    by code_simp
  then show ?thesis
    unfolding started_funding_def by (cases "funding_utxos (world_db started_world)") simp_all
qed

lemma deposit_session_run:
  obtains self v1 u raws w7 w8 where
    "funded_run example_lib example_node self v1 {started_funding} start_world w7"
    "shared_run example_lib example_node self v1 start_world w8"
    "withdrawal_proved_on_citrea example_lib example_node self 0 (deposit_at 0) w7 = (Ok raws, w8)"
    "length raws = 3" "session_end self u w8" "operator_config self = example_config (replicate 32 2)"
    "operator_idx self = 0" "world_db w8 = world_db w7"
proof (rule deposit_session_steps)
  fix self w1 v1 w2 u sig w3 nonces1 w4 agg_nonces slash1 w5 slash takes1 w6 takes move1 w7 raws w8
  let ?step = "funded_step example_lib example_node self v1 {started_funding}"
    and ?run = "funded_run example_lib example_node self v1 {started_funding}"
  assume 1: "operator_new example_lib example_node (example_config (replicate 32 2)) start_world = (Ok self, w1)"
    and 2: "verifier_new example_lib (example_config (replicate 32 1)) w1 = (Ok v1, w2)"
    and 3: "operator_new_deposit example_lib example_node self (deposit_at 0) example_recovery example_evm w2 =
      (Ok (u, sig), w3)"
    and 4: "verifier_new_deposit example_lib example_node v1 (deposit_at 0) example_recovery example_evm w3 =
      (Ok nonces1, w4)"
    and 5: "operator_kickoffs_generated example_lib v1 (deposit_at 0) [u] [sig] agg_nonces w4 = (Ok slash1, w5)"
    and 6: "burn_txs_signed example_lib v1 (deposit_at 0) [] slash w5 = (Ok takes1, w6)"
    and 7: "operator_take_txs_signed example_lib v1 (deposit_at 0) takes w6 = (Ok move1, w7)"
    and 8: "withdrawal_proved_on_citrea example_lib example_node self 0 (deposit_at 0) w7 = (Ok raws, w8)"
    and fin: "length raws = 3" "session_end self u w8"
  have config: "operator_config self = example_config (replicate 32 2)" "verifier_config v1 = example_config (replicate 32 1)"
    using operator_new_Ok [OF 1] verifier_new_Ok [OF 2] by simp_all
  have "w1 = started_world"
    using 1 by (simp add: started_world_def example_operator_def)
  then have s1: "?step start_world w1"
    using 1 config(1) started_funding by (intro funded_step.restart [of _ _ _ start_world "Ok self" w1]) simp_all
  have s2: "?step w1 w2"
    using verifier_step.restart [of example_lib v1 w1 "Ok v1" w2 example_node] 2 config(2)
    by (intro funded_step.by_verifier) simp
  note steps = s1 s2 funded_step.new_deposit [OF 3] funded_step.by_verifier [OF verifier_step.new_deposit [OF 4]]
    funded_step.by_verifier [OF verifier_step.kickoffs [OF 5]]
    funded_step.by_verifier [OF verifier_step.burn [OF 6]]
    funded_step.by_verifier [OF verifier_step.takes [OF 7]]
  have go: "?run x z" if "?run x y" "?step y z" for x y z
    using that by (rule rtranclp.rtrancl_into_rtrancl)
  have run: "?run start_world w7"
    by (rule go [OF go [OF go [OF go [OF go [OF go [OF go [OF rtranclp.rtrancl_refl]]]]]]];
      rule steps)
  have run': "shared_run example_lib example_node self v1 start_world w8"
    by (rule funded_run_shared [OF go [OF run funded_step.proved [OF 8]]])
  have "world_db w8 = world_db w7"
    using same_db.moves_ok [OF withdrawals_read(2) 8] by simp
  moreover have "operator_idx self = 0"
    using operator_new_Ok [OF 1] by (auto simp: example_config_def)
  ultimately show thesis
    using run run' 8 fin config(1) by (intro that)
qed

lemma example_kickoffs: "unat (cfg_operator_num_kickoff_utxos_per_tx (example_config sk)) < 2 ^ 31"
  by (simp add: example_config_def)

theorem reimbursement_publishable_witness:
  "\<exists>raws gens slash takes first (u :: utxo) n. raws = List.map (raw_hex example_lib) (gens @ [slash, takes]) \<and> length raws = 3 \<and>
    searched example_node (List.map (compute_txid example_lib) (rev gens)) (op_txid first) n \<and>
    spent_outputs slash = [utxo_outpoint u] \<and> publish example_lib {first} (gens @ [slash]) \<noteq> None"
proof (rule deposit_session_run)
  fix self v1 u raws w7 w8
  assume run: "funded_run example_lib example_node self v1 {started_funding} start_world w7"
    and 1: "withdrawal_proved_on_citrea example_lib example_node self 0 (deposit_at 0) w7 = (Ok raws, w8)"
    and fin: "length raws = 3" "session_end self u w8" "world_db w8 = world_db w7"
    and config: "operator_config self = example_config (replicate 32 2)"
  have small: "unat (cfg_operator_num_kickoff_utxos_per_tx (operator_config self)) < 2 ^ 31"
    unfolding config by (rule example_kickoffs)
  have "\<forall>f \<in> {started_funding}. op_txid (utxo_outpoint f) \<notin> gen_txid ` set (deposit_kickoff_generator_txs (world_db w7))"
    using fin(2,3) unfolding session_end_def Let_def by (auto simp del: split_paired_All)
  from reimbursement_publishable [OF run start_world_empty this example_lib_roundtrip example_lib_txid small 1]
  show ?thesis
  proof (elim exE conjE)
    fix gens slash takes first w1 move_tx slash_outpoint move_outpoint and u1 :: utxo
    assume r: "raws = List.map (raw_hex example_lib) (gens @ [slash, takes])"
      and s: "searched example_node (List.map (compute_txid example_lib) (rev gens)) (op_txid first) (world_node w1)"
      and spent: "spent_outputs slash = [utxo_outpoint u1]"
      and pub: "\<forall>unspent. first \<in> unspent \<longrightarrow> (\<exists>unspent'. publish example_lib unspent (gens @ [slash]) = Some unspent' \<and>
        slash_outpoint \<in> unspent' \<and> (move_outpoint \<in> unspent' - {slash_outpoint} \<longrightarrow>
          publish example_lib unspent (gens @ [slash, takes]) \<noteq> None))"
    have "publish example_lib {first} (gens @ [slash]) \<noteq> None"
      using spec [OF pub, of "{first}"] by auto
    with r s spent fin(1) show ?thesis
      by (intro exI conjI)
  qed
qed

text \<open>What the example gives \<open>reimbursement_progress\<close>.\<close>

lemma example_takes_possible:
  assumes "operator_config self = example_config sk" "operator_idx self = 0"
  shows "takes_possible example_lib self"
proof -
  have "dust example_lib = 330"
    by (simp add: dust_def anyone_can_spend_txout_def example_lib_def ex_defs Let_def)
  then show ?thesis
    by (simp add: takes_possible_def assms example_config_def example_lib_def ex_defs create_taproot_address_def
        create_musig2_address_def add_leaf_unwrap_def)
qed

lemma session_end_facts:
  assumes "session_end self u w"
  defines "known \<equiv> \<lambda>t. lookup_tx (fst (world_node w)) t \<noteq> None"
  obtains row where "kickoff_of (world_db w) (deposit_at 0) = Some u" "world_faults w = []"
    "\<not> operator_citrea_client self" "stored_sigs (world_db w) (deposit_at 0) u"
    "node_answers example_node known (world_node w)"
    "unsent_txs known (deposit_kickoff_generator_txs (world_db w)) (op_txid (utxo_outpoint u)) [row] True"
proof -
  have "node_answers example_node known (world_node w)"
    by (simp add: node_answers_def known_def example_node_def node_tx_def)
  moreover obtain row where "find (\<lambda>row. gen_txid row = op_txid (utxo_outpoint u))
      (deposit_kickoff_generator_txs (world_db w)) = Some row" "\<not> known (op_txid (utxo_outpoint u))"
      "known (gen_funding_txid row)"
    using assms by (auto simp: session_end_def Let_def split: option.splits)
  then have "unsent_txs known (deposit_kickoff_generator_txs (world_db w)) (op_txid (utxo_outpoint u)) [row] True"
    by (intro unsent_txs.intros)
  moreover have "stored_sigs (world_db w) (deposit_at 0) u"
    using assms(1) by (auto simp: session_end_def stored_sigs_def Let_def split: option.splits)
  ultimately show ?thesis
    using assms(1) by (intro that) (auto simp: session_end_def Let_def)
qed

theorem reimbursement_progress_witness:
  "\<exists>self w w' (row :: generator_row) slash takes. withdrawal_proved_on_citrea example_lib example_node self 0 (deposit_at 0) w =
    (Ok [gen_raw_signed_tx row, raw_hex example_lib slash, raw_hex example_lib takes], w')"
proof (rule deposit_session_run)
  fix self v1 u w8
  assume run: "shared_run example_lib example_node self v1 start_world w8" and fin: "session_end self u w8"
    and config: "operator_config self = example_config (replicate 32 2)" "operator_idx self = 0"
  have small: "unat (cfg_operator_num_kickoff_utxos_per_tx (operator_config self)) < 2 ^ 31"
    unfolding config by (rule example_kickoffs)
  from fin show ?thesis
  proof (rule session_end_facts)
    fix row
    let ?known = "\<lambda>t. lookup_tx (fst (world_node w8)) t \<noteq> None"
    assume 1: "kickoff_of (world_db w8) (deposit_at 0) = Some u" "world_faults w8 = []"
      and client: "\<not> operator_citrea_client self"
      and 2: "stored_sigs (world_db w8) (deposit_at 0) u" "node_answers example_node ?known (world_node w8)"
        "unsent_txs ?known (deposit_kickoff_generator_txs (world_db w8)) (op_txid (utxo_outpoint u)) [row] True"
    have "if operator_citrea_client self then check_citrea_filler example_lib example_node self 0 (deposit_at 0) w8 =
        (Ok (), w8) else w8 = w8"
      using client by simp
    from reimbursement_progress [OF run start_world_empty example_lib_roundtrip small
        example_takes_possible [OF config] example_lib_signs this 1(2) 2(2) 1(1) 2(1,3)]
    have "\<exists>w' slash takes. withdrawal_proved_on_citrea example_lib example_node self 0 (deposit_at 0) w8 =
        (Ok [gen_raw_signed_tx row, raw_hex example_lib slash, raw_hex example_lib takes], w')"
      by auto
    then show ?thesis
      by blast
  qed
qed

end
