(* ===== verification/Environment.thy ===== *)
theory Environment
  imports Prelude
begin

text \<open>
  The circuits' view of the outside: the trait \<open>Environment\<close> of \<open>circuits/src/env.rs\<close>, the two hash
  macros of \<open>circuits/src/hashes.rs\<close>, and the guest programs' implementation \<open>RealEnvironment\<close>.

  An implementation of the trait is a record of its eight functions. They are associated functions
  without a receiver, so what they read from and write to is a hidden state, passed explicitly; a
  function that does not return (a failed deserialisation, an unimplemented write) is \<^const>\<open>None\<close>.
  SHA-256 is not code of this repository: every definition that hashes takes the function \<open>H\<close>.
  A \<open>Sha256\<close> hasher is the list of the bytes it was updated with.

  The locale \<open>sized_reads\<close> is what the type \<open>[u8; 32]\<close> promises of a read, and \<open>host_tape\<close> extends
  it with the contract of the host: what was pushed first is read first, with its type.
\<close>

section \<open>The trait and the hash macros\<close>

type_synonym hash_fun = "bytes \<Rightarrow> bytes"
type_synonym hasher = bytes

record 's environment =
  read_32bytes :: "'s \<Rightarrow> (bytes \<times> 's) option"
  read_u32 :: "'s \<Rightarrow> (u32 \<times> 's) option"
  read_u64 :: "'s \<Rightarrow> (u64 \<times> 's) option"
  read_i32 :: "'s \<Rightarrow> (i32 \<times> 's) option"
  write_32bytes :: "bytes \<Rightarrow> 's \<Rightarrow> 's option"
  write_u32 :: "u32 \<Rightarrow> 's \<Rightarrow> 's option"
  write_u64 :: "u64 \<Rightarrow> 's \<Rightarrow> 's option"
  write_i32 :: "i32 \<Rightarrow> 's \<Rightarrow> 's option"

definition sha256_hash :: "hash_fun \<Rightarrow> bytes list \<Rightarrow> bytes" where
  "sha256_hash H parts = H (concat parts)"

definition double_sha256_hash :: "hash_fun \<Rightarrow> bytes list \<Rightarrow> bytes" where
  "double_sha256_hash H parts = (let first_hash_result = H (concat parts) in H first_hash_result)"

text \<open>The output size of SHA-256, which the macros check with \<open>expect\<close>.\<close>

definition hash32 :: "hash_fun \<Rightarrow> bool" where
  "hash32 H \<longleftrightarrow> (\<forall>x. length (H x) = 32)"

lemma hash32_lengths [simp]:
  assumes "hash32 H"
  shows "length (H x) = 32" "length (sha256_hash H xs) = 32" "length (double_sha256_hash H xs) = 32"
  using assms by (simp_all add: hash32_def sha256_hash_def double_sha256_hash_def)

section \<open>The guest environment\<close>

text \<open>
  \<open>RealEnvironment\<close> of the guest programs forwards every read to \<open>env::read\<close> of the zkVM, a
  parameter here, one instance per type; its writes are not implemented and panic.
\<close>

definition real_environment ::
  "('s \<Rightarrow> (bytes \<times> 's) option) \<Rightarrow> ('s \<Rightarrow> (u32 \<times> 's) option) \<Rightarrow> ('s \<Rightarrow> (u64 \<times> 's) option) \<Rightarrow>
   ('s \<Rightarrow> (i32 \<times> 's) option) \<Rightarrow> 's environment" where
  "real_environment env_read_32bytes env_read_u32 env_read_u64 env_read_i32 =
    \<lparr>read_32bytes = env_read_32bytes, read_u32 = env_read_u32, read_u64 = env_read_u64,
     read_i32 = env_read_i32,
     write_32bytes = (\<lambda>_ _. None), write_u32 = (\<lambda>_ _. None), write_u64 = (\<lambda>_ _. None),
     write_i32 = (\<lambda>_ _. None)\<rparr>"

text \<open>
  The host's side: the values it writes, in order and with their types. A read of another type
  than the one written does not deserialise.
\<close>

datatype tape_item = Item32 bytes | ItemU32 u32 | ItemU64 u64 | ItemI32 i32

type_synonym tape = "tape_item list"

fun tape_read_32bytes :: "tape \<Rightarrow> (bytes \<times> tape) option" where
  "tape_read_32bytes (Item32 b # t) = (if length b = 32 then Some (b, t) else None)"
| "tape_read_32bytes t = None"

fun tape_read_u32 :: "tape \<Rightarrow> (u32 \<times> tape) option" where
  "tape_read_u32 (ItemU32 w # t) = Some (w, t)"
| "tape_read_u32 t = None"

fun tape_read_u64 :: "tape \<Rightarrow> (u64 \<times> tape) option" where
  "tape_read_u64 (ItemU64 w # t) = Some (w, t)"
| "tape_read_u64 t = None"

fun tape_read_i32 :: "tape \<Rightarrow> (i32 \<times> tape) option" where
  "tape_read_i32 (ItemI32 w # t) = Some (w, t)"
| "tape_read_i32 t = None"

definition guest :: "tape environment" where
  "guest = real_environment tape_read_32bytes tape_read_u32 tape_read_u64 tape_read_i32"

fun_cases tape_read_32bytesE: "tape_read_32bytes t = Some r"

section \<open>Contracts of an environment\<close>

locale sized_reads =
  fixes E :: "'s environment"
  assumes read_32bytes_length: "read_32bytes E s = Some (b, s') \<Longrightarrow> length b = 32"

locale host_tape = sized_reads E
  for E :: "'s environment" +
  fixes push :: "tape_item \<Rightarrow> 's \<Rightarrow> 's"
  assumes pushed_32bytes: "length b = 32 \<Longrightarrow> read_32bytes E (push (Item32 b) s) = Some (b, s)"
    and pushed_u32: "read_u32 E (push (ItemU32 w) s) = Some (w, s)"
    and pushed_u64: "read_u64 E (push (ItemU64 v) s) = Some (v, s)"
    and pushed_i32: "read_i32 E (push (ItemI32 w) s) = Some (w, s)"
begin

lemmas pushed = pushed_32bytes pushed_u32 pushed_u64 pushed_i32

text \<open>A whole tape before a state.\<close>

definition load :: "tape_item list \<Rightarrow> 's \<Rightarrow> 's" where
  "load items s = foldr push items s"

lemma load_simps [simp]:
  "load [] s = s" "load (x # xs) s = push x (load xs s)" "load (xs @ ys) s = load xs (load ys s)"
  by (simp_all add: load_def)

end

interpretation guest: host_tape guest Cons
  by unfold_locales
    (auto simp: guest_def real_environment_def elim!: tape_read_32bytesE split: if_splits)

lemma guest_load [simp]: "guest.load items t = items @ t"
  by (induction items) auto

lemma sized_reads_guest [simp]: "sized_reads guest"
  by (rule guest.sized_reads_axioms)

end
