(* ===== verification/Merkle_Spec.thy ===== *)
theory Merkle_Spec
  imports Environment
begin

text \<open>
  What the Merkle trees of the program mean, independently of how they are built or read: the root
  of a list of leaves in a tree of fixed depth whose missing leaves hold an empty value, the path
  of a leaf, and the hash obtained by climbing a path. \<open>F\<close> is the hash of a node, SHA-256 for the
  bridge's own trees and double SHA-256 for the transactions of a block. Climbing the path of a
  leaf gives the root, and two paths with the same root start from the same leaf unless two of
  the strings hashed on the way collide.
\<close>

section \<open>Roots and paths\<close>

fun zero_root :: "hash_fun \<Rightarrow> bytes \<Rightarrow> nat \<Rightarrow> bytes" where
  "zero_root F e 0 = e"
| "zero_root F e (Suc d) = F (zero_root F e d @ zero_root F e d)"

fun mroot :: "hash_fun \<Rightarrow> bytes \<Rightarrow> nat \<Rightarrow> bytes list \<Rightarrow> bytes" where
  "mroot F e 0 xs = (case xs of [] \<Rightarrow> e | x # _ \<Rightarrow> x)"
| "mroot F e (Suc d) xs = F (mroot F e d (take (2 ^ d) xs) @ mroot F e d (drop (2 ^ d) xs))"

definition leaf_at :: "bytes \<Rightarrow> bytes list \<Rightarrow> nat \<Rightarrow> bytes" where
  "leaf_at e xs i = (if i < length xs then xs ! i else e)"

fun siblings :: "hash_fun \<Rightarrow> bytes \<Rightarrow> nat \<Rightarrow> bytes list \<Rightarrow> nat \<Rightarrow> bytes list" where
  "siblings F e 0 xs i = []"
| "siblings F e (Suc d) xs i =
    (if i < 2 ^ d then siblings F e d (take (2 ^ d) xs) i @ [mroot F e d (drop (2 ^ d) xs)]
     else siblings F e d (drop (2 ^ d) xs) (i - 2 ^ d) @ [mroot F e d (take (2 ^ d) xs)])"

definition node_input :: "nat \<Rightarrow> bytes \<Rightarrow> bytes \<Rightarrow> bytes" where
  "node_input i hash node = (if even i then hash @ node else node @ hash)"

fun climb :: "hash_fun \<Rightarrow> nat \<Rightarrow> bytes list \<Rightarrow> bytes \<Rightarrow> bytes" where
  "climb F i [] h = h"
| "climb F i (p # ps) h = climb F (i div 2) ps (F (node_input i h p))"

text \<open>The strings hashed on the way up.\<close>

fun climb_inputs :: "hash_fun \<Rightarrow> nat \<Rightarrow> bytes list \<Rightarrow> bytes \<Rightarrow> bytes list" where
  "climb_inputs F i [] h = []"
| "climb_inputs F i (p # ps) h = node_input i h p # climb_inputs F (i div 2) ps (F (node_input i h p))"

lemma mroot_Nil [simp]: "mroot F e d [] = zero_root F e d"
  by (induction d) auto

lemma length_siblings [simp]: "length (siblings F e d xs i) = d"
  by (induction d arbitrary: xs i) auto

lemma climb_snoc:
  "climb F i (ps @ [p]) h = F (node_input (i div 2 ^ length ps) (climb F i ps h) p)"
  by (induction ps arbitrary: i h) (simp_all add: div_mult2_eq)

lemma node_input_cong: "even i = even j \<Longrightarrow> node_input i = node_input j"
  by (intro ext) (auto simp: node_input_def)

text \<open>Only the low bits of the index matter.\<close>

lemma climb_mod: "climb F (i mod 2 ^ length ps) ps h = climb F i ps h"
proof (induction ps arbitrary: i h)
  case Nil
  show ?case by simp
next
  case (Cons p ps)
  have "i mod 2 ^ length (p # ps) div 2 = i div 2 mod 2 ^ length ps"
    by (simp add: mod_mult2_eq)
  moreover have "node_input (i mod 2 ^ length (p # ps)) = node_input i"
    by (rule node_input_cong) (metis dvd_mod_iff dvd_triv_left length_Cons power_Suc)
  ultimately show ?case
    using Cons.IH [of "i div 2"] by (simp del: power_Suc)
qed

text \<open>The path of a leaf leads to the root.\<close>

theorem climb_siblings:
  "i < 2 ^ d \<Longrightarrow> climb F i (siblings F e d xs i) (leaf_at e xs i) = mroot F e d xs"
proof (induction d arbitrary: xs i)
  case 0
  then show ?case by (cases xs) (auto simp: leaf_at_def)
next
  case (Suc d)
  show ?case
  proof (cases "i < 2 ^ d")
    case True
    moreover have "leaf_at e xs i = leaf_at e (take (2 ^ d) xs) i"
      using True by (auto simp: leaf_at_def)
    ultimately show ?thesis
      using Suc.IH [of i "take (2 ^ d) xs"] by (simp add: climb_snoc node_input_def)
  next
    case False
    then have i: "i - 2 ^ d < 2 ^ d" "i = 2 ^ d + (i - 2 ^ d)"
      using Suc.prems by auto
    have leaf: "leaf_at e xs i = leaf_at e (drop (2 ^ d) xs) (i - 2 ^ d)"
      using i by (auto simp: leaf_at_def)
    let ?ps = "siblings F e d (drop (2 ^ d) xs) (i - 2 ^ d)"
    have "climb F i ?ps (leaf_at e xs i) = climb F (i - 2 ^ d) ?ps (leaf_at e xs i)"
      using i climb_mod [of F i ?ps "leaf_at e xs i"] climb_mod [of F "i - 2 ^ d" ?ps "leaf_at e xs i"]
      by (metis length_siblings mod_add_self1)
    then have "climb F i ?ps (leaf_at e xs i) = mroot F e d (drop (2 ^ d) xs)"
      using Suc.IH [OF i(1), of "drop (2 ^ d) xs"] leaf by simp
    moreover have "i div 2 ^ d = 1"
      using i by (metis One_nat_def add.commute div_add_self1 div_less less_not_refl3
          plus_1_eq_Suc zero_less_power zero_less_numeral)
    ultimately show ?thesis
      using False by (simp add: climb_snoc node_input_def)
  qed
qed

lemma length_mroot:
  "(\<And>x. length (F x) = 32) \<Longrightarrow> length e = 32 \<Longrightarrow> \<forall>x \<in> set xs. length x = 32 \<Longrightarrow>
   length (mroot F e d xs) = 32"
  by (induction d arbitrary: xs) (auto split: list.splits)

lemma length_siblings_entries:
  assumes "\<And>x. length (F x) = 32" "length e = 32"
  shows "\<forall>x \<in> set xs. length x = 32 \<Longrightarrow> \<forall>p \<in> set (siblings F e d xs i). length p = 32"
proof (induction d arbitrary: xs i)
  case 0
  show ?case by simp
next
  case (Suc d)
  have len: "\<forall>x \<in> set (take n xs). length x = 32" "\<forall>x \<in> set (drop n xs). length x = 32" for n
    using Suc.prems by (auto dest: in_set_takeD in_set_dropD)
  then show ?case
    using Suc.IH [OF len(1)] Suc.IH [OF len(2)] assms by (auto simp: length_mroot)
qed

section \<open>Binding\<close>

lemma node_input_inj:
  "length x = length y \<Longrightarrow> length p = length q \<Longrightarrow> length x = length p \<Longrightarrow>
   node_input i x p = node_input i y q \<Longrightarrow> x = y \<and> p = q"
  by (auto simp: node_input_def split: if_splits)

lemma length_climb:
  "(\<And>x. length (F x) = 32) \<Longrightarrow> length h = 32 \<Longrightarrow> length (climb F i ps h) = 32"
  by (induction ps arbitrary: i h) auto

text \<open>
  Two paths of the same length and index that give the same root agree everywhere, if the hash
  does not collide on the strings hashed along them.
\<close>

theorem climb_binding:
  assumes "\<And>x. length (F x) = 32"
    and "length ps = length qs" "\<forall>p \<in> set ps. length p = 32" "\<forall>q \<in> set qs. length q = 32"
    and "length x = 32" "length y = 32"
    and "inj_on F (set (climb_inputs F i ps x) \<union> set (climb_inputs F i qs y))"
    and "climb F i ps x = climb F i qs y"
  shows "x = y \<and> ps = qs"
  using assms(2-8)
proof (induction ps qs arbitrary: i x y rule: list_induct2)
  case Nil
  then show ?case by simp
next
  case (Cons p ps q qs)
  let ?n = "node_input i x p" and ?m = "node_input i y q"
  have inj: "inj_on F (set (climb_inputs F i (p # ps) x) \<union> set (climb_inputs F i (q # qs) y))"
    by (rule Cons.prems)
  have "inj_on F (set (climb_inputs F (i div 2) ps (F ?n)) \<union> set (climb_inputs F (i div 2) qs (F ?m)))"
    by (rule inj_on_subset [OF inj]) auto
  then have "F ?n = F ?m \<and> ps = qs"
    using Cons.prems assms(1) by (intro Cons.IH) auto
  moreover from this have "?n = ?m"
    using inj_onD [OF inj, of ?n ?m] by simp
  ultimately show ?case
    using node_input_inj [of x y p q i] Cons.prems by simp
qed

end
