(* ===== verification/Bitcoin_Circuit.thy ===== *)
theory Bitcoin_Circuit
  imports Merkle_Spec
begin

text \<open>
  The Bitcoin part of the circuits, \<open>circuits/src/bitcoin.rs\<close>: compact targets, the check of a
  block hash against its target, the work of a block, the hash of a transaction read from the
  environment, the taproot output that commits to preimages, and the Merkle path of a block's
  transactions. A panic of the code is \<^const>\<open>None\<close>.
\<close>

section \<open>Targets and work\<close>

text \<open>The three mantissa bytes assembled into a \<open>u32\<close>, most significant first.\<close>

definition compact_value :: "u8 \<Rightarrow> u8 \<Rightarrow> u8 \<Rightarrow> u32" where
  "compact_value b1 b2 b3 = push_bit 16 (ucast b1) OR push_bit 8 (ucast b2) OR ucast b3"

definition decode_compact_target :: "bytes \<Rightarrow> bytes option" where
  "decode_compact_target bits_in =
    (let bits = rev bits_in;
         target = replicate 32 (0 :: u8);
         exponent = unat (bits ! 0);
         value = compact_value (bits ! 1) (bits ! 2) (bits ! 3)
     in if exponent \<le> 3 then
          let start_index = 4 - exponent in
          for_each [0..<exponent]
            (\<lambda>i target. array_set target (31 - i) (ucast (drop_bit (8 * (start_index + i)) value)))
            target
        else
          for_each [0..<3]
            (\<lambda>i target. array_set target (exponent - 3 + i) (ucast (drop_bit (8 * i) value)))
            target)"

fun check_bytes_from :: "nat list \<Rightarrow> bytes \<Rightarrow> bytes \<Rightarrow> unit option" where
  "check_bytes_from [] hash target = Some ()"
| "check_bytes_from (i # is) hash target =
    (if target ! i < hash ! i then None
     else if hash ! i < target ! i then Some ()
     else check_bytes_from is hash target)"

definition check_hash_valid :: "bytes \<Rightarrow> bytes \<Rightarrow> unit option" where
  "check_hash_valid hash target = check_bytes_from (rev [0..<32]) hash target"

definition u256_from_le_bytes :: "bytes \<Rightarrow> u256" where
  "u256_from_le_bytes bs = word_of_nat (from_le bs)"

definition saturating_add :: "u256 \<Rightarrow> u256 \<Rightarrow> u256" where
  "saturating_add a b = (if unat a + unat b < 2 ^ 256 then a + b else - 1)"

text \<open>\<open>U256::MAX\<close> is \<open>- 1\<close>; the divisor of \<open>wrapping_div\<close> is not 0, see \<open>work_divisor_pos\<close>.\<close>

definition calculate_work :: "bytes \<Rightarrow> u256" where
  "calculate_work target =
    (let target_plus_one = saturating_add (u256_from_le_bytes target) 1
     in (- 1) div target_plus_one)"

definition validate_threshold_and_add_work :: "bytes \<Rightarrow> bytes \<Rightarrow> u256 \<Rightarrow> u256 option" where
  "validate_threshold_and_add_work bits block_hash old_work = do {
     target \<leftarrow> decode_compact_target bits;
     _ \<leftarrow> check_hash_valid block_hash target;
     let work = calculate_work target;
     Some (old_work + work)
   }"

definition validate_threshold_and_subtract_work :: "bytes \<Rightarrow> bytes \<Rightarrow> u256 \<Rightarrow> u256 option" where
  "validate_threshold_and_subtract_work bits block_hash old_work = do {
     target \<leftarrow> decode_compact_target bits;
     _ \<leftarrow> check_hash_valid block_hash target;
     let work = calculate_work target;
     Some (old_work - work)
   }"

lemma length_4: "length bits = 4 \<Longrightarrow> \<exists>b0 b1 b2 b3. bits = [b0, b1, b2, b3]"
  by (auto simp: eval_nat_numeral length_Suc_conv)

lemma not_bit_byte: "8 \<le> n \<Longrightarrow> \<not> bit (w :: u8) n"
  by (auto dest: bit_imp_le_length)

text \<open>The bytes of the mantissa, cut out of the assembled word.\<close>

lemma mantissa_byte_0 [simp]: "ucast (compact_value a b c) = c"
  by (rule bit_word_eqI) (auto simp: compact_value_def bit_simps not_bit_byte)

lemma mantissa_byte_1 [simp]: "ucast (drop_bit 8 (compact_value a b c)) = b"
  by (rule bit_word_eqI) (auto simp: compact_value_def bit_simps not_bit_byte)

lemma mantissa_byte_2 [simp]: "ucast (drop_bit 16 (compact_value a b c)) = a"
  by (rule bit_word_eqI) (auto simp: compact_value_def bit_simps not_bit_byte)

lemma mantissa_byte_3 [simp]: "ucast (drop_bit 24 (compact_value a b c)) = (0 :: u8)"
  by (rule bit_word_eqI) (auto simp: compact_value_def bit_simps not_bit_byte)

lemma from_le_place:
  "n + length ms \<le> 32 \<Longrightarrow>
   from_le (replicate n 0 @ ms @ replicate (32 - (n + length ms)) 0) = from_le ms * 256 ^ n"
  by (simp add: from_le_append)

lemma replicate_update3:
  assumes "n + 3 \<le> m"
  shows "(replicate m x)[n := a, n + 1 := b, n + 2 := c]
    = replicate n x @ [a, b, c] @ replicate (m - (n + 3)) x"
proof -
  have "replicate m x = replicate n x @ [x, x, x] @ replicate (m - (n + 3)) x"
    using assms by (metis (no_types, opaque_lifting) append.assoc le_add_diff_inverse
        numeral_3_eq_3 replicate_0 replicate_Suc replicate_add)
  then show ?thesis
    by (simp add: list_update_append)
qed

lemma upt_0_3: "[0..<3] = [0, 1, 2 :: nat]"
  by (simp add: upt_rec)

lemma decode_large:
  assumes "length bits = 4" "3 < unat (bits ! 3)" "unat (bits ! 3) \<le> 32"
  shows "decode_compact_target bits =
    Some (replicate (unat (bits ! 3) - 3) 0 @ take 3 bits @ replicate (32 - unat (bits ! 3)) 0)"
proof -
  obtain b0 b1 b2 b3 where b: "bits = [b0, b1, b2, b3]"
    using length_4 [OF assms(1)] by blast
  have "3 < unat b3"
    using assms b by simp
  then obtain n where n: "unat b3 = n + 3"
    by (metis add.commute le_Suc_ex less_imp_le)
  then have "n + 3 \<le> 32" "n \<noteq> 0"
    using assms b by simp_all
  then show ?thesis
    using b n by (simp add: decode_compact_target_def Let_def upt_0_3 replicate_update3 [simplified])
qed

lemma decode_too_large:
  assumes "length bits = 4" "32 < unat (bits ! 3)"
  shows "decode_compact_target bits = None"
proof -
  obtain b0 b1 b2 b3 where b: "bits = [b0, b1, b2, b3]"
    using length_4 [OF assms(1)] by blast
  then show ?thesis
    using assms(2)
    by (auto simp: decode_compact_target_def Let_def upt_0_3 array_set_def)
qed

text \<open>
  Of an exponent of at most 3 the loop writes the bytes from the most significant end of the
  target down.
\<close>

lemma decode_small:
  assumes "bits = [b0, b1, b2, b3]" "unat b3 \<le> 3"
  shows "decode_compact_target bits = Some (replicate 30 0 @
    (if unat b3 = 3 then [b2, b1] else if unat b3 = 2 then [0, b2] else [0, 0]))"
proof -
  have pad: "(replicate 32 (0 :: u8)) = replicate 29 0 @ [0, 0, 0]"
    "replicate 30 (0 :: u8) = replicate 29 0 @ [0]"
    by (simp_all add: numeral_eq_Suc)
  consider "unat b3 = 0" | "unat b3 = 1" | "unat b3 = 2" | "unat b3 = 3"
    using assms(2) by linarith
  then show ?thesis
    by cases (simp_all add: assms(1) pad decode_compact_target_def Let_def upt_0_3
        list_update_append upt_rec)
qed

text \<open>The target that a compact representation stands for.\<close>

definition compact_target :: "bytes \<Rightarrow> nat" where
  "compact_target bits =
    (let mantissa = from_le (take 3 bits); exponent = unat (bits ! 3)
     in if exponent \<le> 3 then mantissa div 256 ^ (3 - exponent)
        else mantissa * 256 ^ (exponent - 3))"

lemma decode_compact_target_length:
  assumes "length bits = 4" "decode_compact_target bits = Some target"
  shows "length target = 32"
proof -
  obtain b0 b1 b2 b3 where b: "bits = [b0, b1, b2, b3]"
    using length_4 [OF assms(1)] by blast
  consider "unat b3 \<le> 3" | "3 < unat b3" "unat b3 \<le> 32" | "32 < unat b3"
    by linarith
  then show ?thesis
    using assms b decode_small [OF b] decode_large [OF assms(1)] decode_too_large [OF assms(1)]
    by cases (auto split: if_splits)
qed

text \<open>
  C27. A compact target with exponent 4 to 32 decodes to the 32 little-endian bytes of
  mantissa times 256 to the exponent minus 3; a larger exponent indexes the array out of range and
  panics.
\<close>

theorem decode_compact_target_value:
  assumes "length bits = 4" "3 < unat (bits ! 3)"
  shows "case decode_compact_target bits of
      None \<Rightarrow> 32 < unat (bits ! 3)
    | Some target \<Rightarrow> unat (bits ! 3) \<le> 32 \<and> length target = 32 \<and>
        from_le target = compact_target bits"
proof (cases "unat (bits ! 3) \<le> 32")
  case True
  moreover have "length (take 3 bits) = 3"
    using assms by simp
  moreover have "\<not> unat (bits ! 3) \<le> 3"
    using assms by simp
  ultimately show ?thesis
    using assms decode_large [of bits]
    by (simp add: compact_target_def from_le_append)
next
  case False
  with assms decode_too_large [of bits] show ?thesis by simp
qed

theorem decode_compact_target_value_witness:
  "case decode_compact_target [0xff, 0xff, 0x00, 0x1d] of
      None \<Rightarrow> False | Some target \<Rightarrow> from_le target = 0xffff * 256 ^ 26"
  using decode_compact_target_value [of "[0xff, 0xff, 0x00, 0x1d]"]
  by (simp add: compact_target_def split: option.splits)

text \<open>
  For exponent 3 the decoder is wrong: where the compact format stands for the mantissa
  itself, a number below 2 to the 24, the decoder writes two mantissa bytes at the most significant
  end of the little-endian target.
\<close>

lemma decode_compact_target_exponent_3:
  assumes "length bits = 4" "unat (bits ! 3) = 3"
  shows "\<exists>target. decode_compact_target bits = Some target \<and>
    from_le target = unat (bits ! 2) * 256 ^ 30 + unat (bits ! 1) * 256 ^ 31 \<and>
    compact_target bits = from_le (take 3 bits)"
proof -
  obtain b0 b1 b2 b3 where b: "bits = [b0, b1, b2, b3]"
    using length_4 [OF assms(1)] by blast
  then show ?thesis
    using decode_small [OF b] assms
    by (simp add: compact_target_def from_le_append)
qed

lemma decode_compact_target_exponent_3_example:
  "compact_target [0x01, 0x01, 0x00, 0x03] = 0x101 \<and>
   map_option from_le (decode_compact_target [0x01, 0x01, 0x00, 0x03]) = Some (256 ^ 31)"
  using decode_compact_target_exponent_3 [of "[0x01, 0x01, 0x00, 0x03]"]
  by auto

text \<open>The comparison from the most significant byte is the comparison of the numbers.\<close>

lemma check_bytes_prefix:
  assumes "n \<le> length hash" "n \<le> length target"
  shows "check_bytes_from (rev [0..<n]) hash target = Some () \<longleftrightarrow>
    from_le (take n hash) \<le> from_le (take n target)"
  using assms
proof (induction n)
  case 0
  then show ?case by simp
next
  case (Suc n)
  have split: "from_le (take (Suc n) bs) = from_le (take n bs) + 256 ^ n * unat (bs ! n)"
    if "Suc n \<le> length bs" for bs
    using that by (simp add: take_Suc_conv_app_nth from_le_append)
  have bound: "from_le (take n bs) < 256 ^ n" if "Suc n \<le> length bs" for bs
    using that from_le_bound [of "take n bs"] by (simp add: min_def split: if_splits)
  have less: "x + 256 ^ n * a < y + 256 ^ n * b" if "a < b" "x < 256 ^ n" for x y a b :: nat
  proof -
    have "x + 256 ^ n * a < 256 ^ n * (a + 1)"
      using that by simp
    also have "\<dots> \<le> 256 ^ n * b"
      using that by (intro mult_left_mono) simp_all
    finally show ?thesis by simp
  qed
  consider "hash ! n < target ! n" | "target ! n < hash ! n" | "hash ! n = target ! n"
    using less_linear by blast
  then show ?case
  proof cases
    case 1
    then have "from_le (take (Suc n) hash) < from_le (take (Suc n) target)"
      using Suc.prems bound [of hash] less by (simp add: split word_less_nat_alt)
    with 1 show ?thesis by simp
  next
    case 2
    then have "from_le (take (Suc n) target) < from_le (take (Suc n) hash)"
      using Suc.prems bound [of target] less by (simp add: split word_less_nat_alt)
    with 2 show ?thesis by simp
  next
    case 3
    with Suc show ?thesis by (simp add: split)
  qed
qed

text \<open>
  C28. A hash is accepted exactly when, read as a little-endian number, it does not exceed the
  target.
\<close>

theorem check_hash_valid_iff:
  assumes "length hash = 32" "length target = 32"
  shows "check_hash_valid hash target = Some () \<longleftrightarrow> from_le hash \<le> from_le target"
  using check_bytes_prefix [of 32 hash target] assms by (simp add: check_hash_valid_def)

theorem check_hash_valid_iff_witness:
  "check_hash_valid (replicate 31 0xff @ [1]) (replicate 31 0 @ [2]) = Some ()"
  using check_hash_valid_iff [of "replicate 31 0xff @ [1]" "replicate 31 0 @ [2]"]
    from_le_bound [of "replicate 31 0xff"]
  by (simp add: from_le_append)

text \<open>The divisor: one more than the target, or the largest word.\<close>

lemma work_divisor:
  assumes "length target = 32"
  shows "unat (saturating_add (u256_from_le_bytes target) 1) = min (from_le target + 1) (2 ^ 256 - 1)"
proof -
  have bound: "from_le target < 2 ^ 256"
    using from_le_bound [of target] assms by simp
  then have t: "unat (u256_from_le_bytes target) = from_le target"
    by (simp add: u256_from_le_bytes_def unat_of_nat)
  show ?thesis
  proof (cases "from_le target + 1 < 2 ^ 256")
    case True
    then have "unat (u256_from_le_bytes target + 1) = from_le target + 1"
      using t by (simp add: unat_word_ariths)
    with True t show ?thesis by (simp add: saturating_add_def)
  next
    case False
    moreover have "unat (- 1 :: u256) = 2 ^ 256 - 1"
      by (simp add: unsigned_minus_1_eq_mask mask_eq_exp_minus_1)
    ultimately show ?thesis
      using t bound by (simp add: saturating_add_def)
  qed
qed

lemma work_divisor_pos:
  "length target = 32 \<Longrightarrow> saturating_add (u256_from_le_bytes target) 1 \<noteq> 0"
  using work_divisor [of target] by auto

lemma calculate_work_nat:
  assumes "length target = 32"
  shows "unat (calculate_work target) = (2 ^ 256 - 1) div min (from_le target + 1) (2 ^ 256 - 1)"
  using work_divisor [OF assms]
  by (simp add: calculate_work_def Let_def unat_div unsigned_minus_1_eq_mask mask_eq_exp_minus_1)

lemma div_pred:
  fixes n d :: nat
  assumes "0 < d" "0 < n"
  shows "(n - 1) div d = (if d dvd n then n div d - 1 else n div d)"
proof (cases "d dvd n")
  case True
  then obtain k where k: "n = d * k" by blast
  with assms have "n - 1 = d - 1 + d * (k - 1)" "n div d = k"
    by (cases k; simp)+
  moreover have "(d - 1 + d * (k - 1)) div d = (k - 1) + (d - 1) div d"
    using assms by (intro div_mult_self2) simp
  ultimately show ?thesis
    using True assms by simp
next
  case False
  then have "n mod d \<noteq> 0"
    by (simp add: mod_eq_0_iff_dvd)
  then have "n - 1 = n div d * d + (n mod d - 1)" "n mod d - 1 < d"
    using assms div_mult_mod_eq [of n d] by (auto simp: less_imp_diff_less)
  then have "(n - 1) div d = n div d"
    by (metis add.commute div_mult_self3 div_less add_0 assms(1) less_not_refl)
  with False show ?thesis by simp
qed

text \<open>
  C29. The work of a target below the maximum is the number of hashes Bitcoin expects for it,
  2 to the 256 divided by target plus one, less one exactly when the division has no remainder. It
  is never zero, and a lower target never has less work.
\<close>

theorem calculate_work_expected_hashes:
  assumes "length target = 32" "from_le target + 1 < 2 ^ 256"
  shows "unat (calculate_work target) = 2 ^ 256 div (from_le target + 1) -
      (if (from_le target + 1) dvd 2 ^ 256 then 1 else 0) \<and>
    0 < unat (calculate_work target) \<and>
    (\<forall>lower. length lower = 32 \<longrightarrow> from_le lower \<le> from_le target \<longrightarrow>
      calculate_work target \<le> calculate_work lower)"
proof (intro conjI allI impI)
  have div: "unat (calculate_work target) = (2 ^ 256 - 1) div (from_le target + 1)"
    using assms by (simp add: calculate_work_nat min_def)
  then show "unat (calculate_work target) = 2 ^ 256 div (from_le target + 1) -
      (if (from_le target + 1) dvd 2 ^ 256 then 1 else 0)"
    using div_pred [of "from_le target + 1" "2 ^ 256"] by simp
  show "0 < unat (calculate_work target)"
    using assms(2) by (simp add: div div_greater_zero_iff)
  fix lower
  assume "length lower = 32" "from_le lower \<le> from_le target"
  then have "unat (calculate_work target) \<le> unat (calculate_work lower)"
    using assms unfolding calculate_work_nat [OF assms(1)] calculate_work_nat [OF \<open>length lower = 32\<close>]
    by (intro div_le_mono2) auto
  then show "calculate_work target \<le> calculate_work lower"
    by (simp add: word_le_nat_alt)
qed

theorem calculate_work_expected_hashes_witness:
  "unat (calculate_work (replicate 31 0xff @ [0])) = 255"
proof -
  have "from_le (replicate 31 0xff @ [0]) = 256 ^ 31 - 1"
    using from_le_replicate_max [of 31] by (simp add: from_le_append)
  with calculate_work_expected_hashes [of "replicate 31 0xff @ [0]"] show ?thesis
    by simp
qed

text \<open>
  C26. A block header is validated exactly when its target decodes and its hash does not exceed
  the target; then its work is added, modulo 2 to the 256. The subtracting variant accepts the same
  headers and undoes the addition.
\<close>

theorem validate_threshold_work:
  assumes "length bits = 4" "length block_hash = 32"
  shows "case decode_compact_target bits of
      None \<Rightarrow> validate_threshold_and_add_work bits block_hash w = None \<and>
        validate_threshold_and_subtract_work bits block_hash w = None
    | Some target \<Rightarrow>
        (if from_le block_hash \<le> from_le target then
          validate_threshold_and_add_work bits block_hash w = Some (w + calculate_work target) \<and>
          validate_threshold_and_subtract_work bits block_hash (w + calculate_work target) = Some w
        else validate_threshold_and_add_work bits block_hash w = None \<and>
          validate_threshold_and_subtract_work bits block_hash w = None)"
proof (cases "decode_compact_target bits")
  case None
  then show ?thesis
    by (simp add: validate_threshold_and_add_work_def validate_threshold_and_subtract_work_def)
next
  case (Some target)
  then have "length target = 32"
    using assms(1) by (rule decode_compact_target_length [rotated])
  then have "check_hash_valid block_hash target =
      (if from_le block_hash \<le> from_le target then Some () else None)"
    using check_bytes_prefix [of 32 block_hash target] assms(2)
    by (cases "check_hash_valid block_hash target") (auto simp: check_hash_valid_def)
  with Some show ?thesis
    by (simp add: validate_threshold_and_add_work_def validate_threshold_and_subtract_work_def)
qed

theorem validate_threshold_work_witness:
  "validate_threshold_and_subtract_work [0, 0, 1, 4] (replicate 32 0)
    (5 + calculate_work (0 # 0 # 0 # 1 # replicate 28 0)) = Some 5"
proof -
  have "decode_compact_target [0, 0, 1, 4] = Some (0 # 0 # 0 # 1 # replicate 28 0)"
    by (subst decode_large) simp_all
  with validate_threshold_work [of "[0, 0, 1, 4]" "replicate 32 0" 5] show ?thesis
    by simp
qed

section \<open>Hashing with lengths\<close>

definition update_hasher_with_varint :: "hasher \<Rightarrow> u32 \<Rightarrow> hasher" where
  "update_hasher_with_varint hasher integer =
    (if integer < 0xfd then hasher @ u8_le (ucast integer)
     else if integer \<le> 0xffff then hasher @ u8_le 0xfd @ u16_le (ucast integer)
     else hasher @ u8_le 0xfe @ u32_le integer)"

definition read_chunks_and_update_hasher ::
  "'s environment \<Rightarrow> hasher \<Rightarrow> u32 \<Rightarrow> 's \<Rightarrow> (hasher \<times> 's) option" where
  "read_chunks_and_update_hasher E hasher byte_len s = do {
     let chunks = byte_len div 32;
     (hasher, s) \<leftarrow> for_each [0..<unat chunks] (\<lambda>_ (hasher, s). do {
        (chunk, s) \<leftarrow> read_32bytes E s;
        Some (hasher @ chunk, s)
      }) (hasher, s);
     let remaining_bytes = byte_len mod 32;
     if 0 < remaining_bytes then do {
       (chunk, s) \<leftarrow> read_32bytes E s;
       Some (hasher @ take (unat remaining_bytes) chunk, s)
     } else Some (hasher, s)
   }"

text \<open>Bitcoin's compact size of a length, and a parser for it.\<close>

definition compact_size :: "nat \<Rightarrow> bytes" where
  "compact_size n = update_hasher_with_varint [] (word_of_nat n)"

definition parse_compact_size :: "bytes \<Rightarrow> (nat \<times> bytes) option" where
  "parse_compact_size bs = (case bs of
      [] \<Rightarrow> None
    | b # bs \<Rightarrow>
        let n = (if b < 0xfd then 0 else if b = 0xfd then 2 else if b = 0xfe then 4 else 8) in
        if n = 0 then Some (unat b, bs)
        else if length bs < n then None
        else Some (from_le (take n bs), drop n bs))"

lemma update_hasher_with_varint_eq:
  "update_hasher_with_varint h n = h @ compact_size (unat n)"
  by (simp add: compact_size_def update_hasher_with_varint_def)

text \<open>
  C35. The varint fed to a hasher is the shortest of the three forms and a parser of compact sizes
  reads the number back whatever follows, so no encoding is a prefix of another.
\<close>

theorem varint_roundtrip:
  "parse_compact_size (update_hasher_with_varint [] n @ rest) = Some (unat n, rest) \<and>
   length (update_hasher_with_varint [] n) =
     (if unat n < 253 then 1 else if unat n < 65536 then 3 else 5)"
proof -
  have "unat (ucast n :: u8) = unat n" if "n < 0xfd"
    using that by (simp add: unsigned_ucast_eq take_bit_eq_mod word_less_nat_alt)
  moreover have "unat (ucast n :: u16) = unat n" if "n \<le> 0xffff"
    using that by (simp add: unsigned_ucast_eq take_bit_eq_mod word_le_nat_alt)
  moreover have "unat n < 2 ^ 32"
    using unat_less_pow [of n] by simp
  ultimately show ?thesis
    by (auto simp: parse_compact_size_def update_hasher_with_varint_def u8_le_def u16_le_def
        u32_le_def from_le_le_bytes Let_def word_less_nat_alt word_le_nat_alt)
qed

end
