(* ===== verification/Transaction_Circuit.thy ===== *)
theory Transaction_Circuit
  imports Bitcoin_Circuit
begin

text \<open>
  \<open>read_tx_and_calculate_txid\<close> of \<open>circuits/src/bitcoin.rs\<close>: a transaction is read field by field
  from the environment while its serialisation is hashed, and one input and one taproot output may
  be demanded of it. The specification is a transaction as a value with its serialisation
  \<open>tx_bytes\<close> and the tape a host writes for it. Whatever is read, an accepted reading is a
  transaction that meets the demands and the result is its txid; and of a host tape exactly the
  transactions that meet the demands are accepted.
\<close>

section \<open>The reader\<close>

definition read_input ::
  "'s environment \<Rightarrow> (bytes \<times> u32) option \<Rightarrow> hasher \<times> bool \<times> 's \<Rightarrow> (hasher \<times> bool \<times> 's) option" where
  "read_input E require_input = (\<lambda>(hasher, input_satisfied, s). do {
     (prev_tx_hash, s) \<leftarrow> read_32bytes E s;
     (output_index, s) \<leftarrow> read_u32 E s;
     (sequence, s) \<leftarrow> read_u32 E s;
     let hasher = hasher @ prev_tx_hash;
     let hasher = hasher @ u32_le output_index;
     (script_sig_size, s) \<leftarrow> read_u32 E s;
     let hasher = update_hasher_with_varint hasher script_sig_size;
     (hasher, s) \<leftarrow> read_chunks_and_update_hasher E hasher script_sig_size s;
     let hasher = hasher @ u32_le sequence;
     let input_satisfied =
       (if require_input \<noteq> None \<and> \<not> input_satisfied \<and> prev_tx_hash = fst (the require_input) \<and>
           output_index = snd (the require_input)
        then True else input_satisfied);
     Some (hasher, input_satisfied, s)
   })"

definition read_output ::
  "'s environment \<Rightarrow> (u64 option \<times> bytes) option \<Rightarrow> hasher \<times> bool \<times> 's \<Rightarrow> (hasher \<times> bool \<times> 's) option"
  where
  "read_output E require_output = (\<lambda>(hasher, output_satisfied, s). do {
     (value, s) \<leftarrow> read_u64 E s;
     (output_flag, s) \<leftarrow> read_u32 E s;
     if output_flag = 0 then do {
       (taproot_address, s) \<leftarrow> read_32bytes E s;
       let hasher = hasher @ u64_le value;
       let hasher = hasher @ u8_le 34;
       let hasher = hasher @ u8_le 81;
       let hasher = hasher @ u8_le 32;
       let hasher = hasher @ taproot_address;
       let output_satisfied = (case require_output of
           Some (value_option, taproot_address_condition) \<Rightarrow>
             if taproot_address = taproot_address_condition \<and>
                (case value_option of None \<Rightarrow> True | Some v \<Rightarrow> v = value)
             then True else output_satisfied
         | None \<Rightarrow> output_satisfied);
       Some (hasher, output_satisfied, s)
     } else do {
       let hasher = hasher @ u64_le value;
       let hasher = update_hasher_with_varint hasher output_flag;
       (hasher, s) \<leftarrow> read_chunks_and_update_hasher E hasher output_flag s;
       Some (hasher, output_satisfied, s)
     }
   })"

definition read_tx_and_calculate_txid ::
  "hash_fun \<Rightarrow> 's environment \<Rightarrow> (bytes \<times> u32) option \<Rightarrow> (u64 option \<times> bytes) option \<Rightarrow> 's \<Rightarrow>
   (bytes \<times> 's) option" where
  "read_tx_and_calculate_txid H E require_input require_output s = do {
     let input_satisfied = (require_input = None);
     let output_satisfied = (require_output = None);
     (version, s) \<leftarrow> read_i32 E s;
     (input_count, s) \<leftarrow> read_u32 E s;
     (output_count, s) \<leftarrow> read_u32 E s;
     (lock_time, s) \<leftarrow> read_u32 E s;
     let hasher = u32_le version;
     let hasher = update_hasher_with_varint hasher input_count;
     (hasher, input_satisfied, s) \<leftarrow>
       for_each [0..<unat input_count] (\<lambda>_. read_input E require_input) (hasher, input_satisfied, s);
     let hasher = update_hasher_with_varint hasher output_count;
     (hasher, output_satisfied, s) \<leftarrow>
       for_each [0..<unat output_count] (\<lambda>_. read_output E require_output)
         (hasher, output_satisfied, s);
     if \<not> input_satisfied then None
     else if \<not> output_satisfied then None
     else do {
       let hasher = hasher @ u32_le lock_time;
       let result = H hasher;
       Some (H result, s)
     }
   }"

section \<open>Transactions as values\<close>

record tx_input =
  in_prev_txid :: bytes
  in_vout :: u32
  in_script_sig :: bytes
  in_sequence :: u32

datatype tx_output = Taproot_Output u64 bytes | Script_Output u64 bytes

record transaction =
  tx_version :: i32
  tx_inputs :: "tx_input list"
  tx_outputs :: "tx_output list"
  tx_lock_time :: u32

definition input_bytes :: "tx_input \<Rightarrow> bytes" where
  "input_bytes i = in_prev_txid i @ u32_le (in_vout i) @ compact_size (length (in_script_sig i)) @
     in_script_sig i @ u32_le (in_sequence i)"

fun output_bytes :: "tx_output \<Rightarrow> bytes" where
  "output_bytes (Taproot_Output v address) = u64_le v @ [34, 81, 32] @ address"
| "output_bytes (Script_Output v script) = u64_le v @ compact_size (length script) @ script"

definition tx_bytes :: "transaction \<Rightarrow> bytes" where
  "tx_bytes tx = u32_le (tx_version tx) @ compact_size (length (tx_inputs tx)) @
     concat (List.map input_bytes (tx_inputs tx)) @ compact_size (length (tx_outputs tx)) @
     concat (List.map output_bytes (tx_outputs tx)) @ u32_le (tx_lock_time tx)"

definition wf_input :: "tx_input \<Rightarrow> bool" where
  "wf_input i \<longleftrightarrow> length (in_prev_txid i) = 32 \<and> length (in_script_sig i) < 2 ^ 32"

fun wf_output :: "tx_output \<Rightarrow> bool" where
  "wf_output (Taproot_Output v address) \<longleftrightarrow> length address = 32"
| "wf_output (Script_Output v script) \<longleftrightarrow> 0 < length script \<and> length script < 2 ^ 32"

definition wf_tx :: "transaction \<Rightarrow> bool" where
  "wf_tx tx \<longleftrightarrow> list_all wf_input (tx_inputs tx) \<and> list_all wf_output (tx_outputs tx) \<and>
     length (tx_inputs tx) < 2 ^ 32 \<and> length (tx_outputs tx) < 2 ^ 32"

fun spends :: "(bytes \<times> u32) option \<Rightarrow> tx_input list \<Rightarrow> bool" where
  "spends None ins = True"
| "spends (Some (txid, vout)) ins = list_ex (\<lambda>i. in_prev_txid i = txid \<and> in_vout i = vout) ins"

fun pays_output :: "u64 option \<Rightarrow> bytes \<Rightarrow> tx_output \<Rightarrow> bool" where
  "pays_output amount address (Taproot_Output v a) \<longleftrightarrow> a = address \<and> (amount = None \<or> amount = Some v)"
| "pays_output amount address (Script_Output v script) \<longleftrightarrow> False"

fun pays :: "(u64 option \<times> bytes) option \<Rightarrow> tx_output list \<Rightarrow> bool" where
  "pays None outs = True"
| "pays (Some (amount, address)) outs = list_ex (pays_output amount address) outs"

text \<open>What a host writes: scripts in chunks of 32 bytes, the last one padded.\<close>

definition pad32 :: "bytes \<Rightarrow> bytes" where
  "pad32 bs = bs @ replicate (32 - length bs) 0"

fun chunk_items :: "bytes \<Rightarrow> tape" where
  "chunk_items [] = []"
| "chunk_items (b # bs) = Item32 (pad32 (take 32 (b # bs))) # chunk_items (drop 32 (b # bs))"

definition input_items :: "tx_input \<Rightarrow> tape" where
  "input_items i = [Item32 (in_prev_txid i), ItemU32 (in_vout i), ItemU32 (in_sequence i),
     ItemU32 (word_of_nat (length (in_script_sig i)))] @ chunk_items (in_script_sig i)"

fun output_items :: "tx_output \<Rightarrow> tape" where
  "output_items (Taproot_Output v address) = [ItemU64 v, ItemU32 0, Item32 address]"
| "output_items (Script_Output v script) =
    [ItemU64 v, ItemU32 (word_of_nat (length script))] @ chunk_items script"

definition tx_items :: "transaction \<Rightarrow> tape" where
  "tx_items tx = [ItemI32 (tx_version tx), ItemU32 (word_of_nat (length (tx_inputs tx))),
     ItemU32 (word_of_nat (length (tx_outputs tx))), ItemU32 (tx_lock_time tx)] @
     concat (List.map input_items (tx_inputs tx)) @ concat (List.map output_items (tx_outputs tx))"

section \<open>Soundness of the reader\<close>

lemma unat_of_length [simp]:
  "n < 2 ^ 32 \<Longrightarrow> unat (word_of_nat n :: u32) = n"
  by (simp add: unat_of_nat)

lemma spends_snoc: "spends r (ins @ [i]) \<longleftrightarrow>
  spends r ins \<or> (case r of None \<Rightarrow> True | Some (txid, vout) \<Rightarrow> in_prev_txid i = txid \<and> in_vout i = vout)"
  by (cases "(r, ins)" rule: spends.cases) auto

lemma pays_snoc: "pays r (outs @ [out]) \<longleftrightarrow>
  pays r outs \<or> (case r of None \<Rightarrow> True | Some (amount, address) \<Rightarrow> pays_output amount address out)"
  by (cases "(r, outs)" rule: pays.cases) auto

lemma taproot_match:
  "(case r of None \<Rightarrow> sat
    | Some (value_option, condition) \<Rightarrow>
        if address = condition \<and> (case value_option of None \<Rightarrow> True | Some v \<Rightarrow> v = value)
        then True else sat) \<longleftrightarrow>
   sat \<or> (\<exists>amount condition. r = Some (amount, condition) \<and>
     pays_output amount condition (Taproot_Output value address))"
  by (auto split: option.splits)

context sized_reads
begin

lemma read_chunks_sound:
  assumes "read_chunks_and_update_hasher E h n s = Some (h', s')"
  shows "\<exists>bs. length bs = unat n \<and> h' = h @ bs"
proof -
  let ?step = "\<lambda>_ (hasher, s). do { (chunk, s) \<leftarrow> read_32bytes E s; Some (hasher @ chunk, s) }"
  obtain h1 s1 where run: "for_each [0..<unat (n div 32)] ?step (h, s) = Some (h1, s1)"
    and rest: "if 0 < n mod 32
      then \<exists>chunk. read_32bytes E s1 = Some (chunk, s') \<and> h' = h1 @ take (unat (n mod 32)) chunk
      else h' = h1"
    using assms
    by (auto simp: read_chunks_and_update_hasher_def bind_eq_Some_conv Let_def split: if_splits)
  define I where "I = (\<lambda>i (st :: bytes \<times> 's). \<exists>bs. length bs = 32 * i \<and> fst st = h @ bs)"
  have "I (unat (n div 32)) (h1, s1)"
    using run
  proof (rule for_each_invariant)
    show "I 0 (h, s)" by (simp add: I_def)
  next
    fix i x y
    assume "I i x" "?step i x = Some y"
    then show "I (Suc i) y"
      using read_32bytes_length
      by (fastforce simp: I_def split: Option.bind_splits prod.splits)
  qed
  then obtain bs where bs: "length bs = 32 * (unat n div 32)" "h1 = h @ bs"
    by (auto simp: I_def unat_div)
  show ?thesis
  proof (cases "0 < n mod 32")
    case True
    with rest obtain chunk where "length chunk = 32" "h' = h1 @ take (unat (n mod 32)) chunk"
      using read_32bytes_length by auto
    moreover have "unat (n mod 32) < 32"
      by (simp add: unat_mod)
    ultimately have "length (bs @ take (unat (n mod 32)) chunk) = unat n"
      "h' = h @ bs @ take (unat (n mod 32)) chunk"
      using bs by (simp_all add: unat_mod)
    then show ?thesis by blast
  next
    case False
    then have "unat (n mod 32) = 0"
      by (simp add: word_less_nat_alt)
    then have "unat n mod 32 = 0"
      by (simp add: unat_mod)
    then have "length bs = unat n"
      using bs(1) by (simp add: dvd_eq_mod_eq_0)
    moreover have "h' = h1"
      using rest by (simp only: False if_False)
    ultimately show ?thesis
      using bs(2) by blast
  qed
qed

text \<open>One input: what the hasher got is the serialisation of some input that was read.\<close>

lemma read_input_sound:
  assumes "read_input E r (h, sat, s) = Some (h', sat', s')"
  shows "\<exists>i. wf_input i \<and> h' = h @ input_bytes i \<and>
    (sat' \<longleftrightarrow> sat \<or> (\<exists>txid vout. r = Some (txid, vout) \<and> in_prev_txid i = txid \<and> in_vout i = vout))"
proof -
  obtain txid s1 where txid: "read_32bytes E s = Some (txid, s1)"
    using assms by (auto simp: read_input_def bind_eq_Some_conv)
  obtain vout s2 where vout: "read_u32 E s1 = Some (vout, s2)"
    using assms txid by (auto simp: read_input_def bind_eq_Some_conv)
  obtain seq s3 where seq: "read_u32 E s2 = Some (seq, s3)"
    using assms txid vout by (auto simp: read_input_def bind_eq_Some_conv)
  obtain size s4 where size: "read_u32 E s3 = Some (size, s4)"
    using assms txid vout seq by (auto simp: read_input_def bind_eq_Some_conv Let_def)
  obtain h1 where chunks: "read_chunks_and_update_hasher E
      (update_hasher_with_varint (h @ txid @ u32_le vout) size) size s4 = Some (h1, s')"
    and h': "h' = h1 @ u32_le seq"
    and sat': "sat' = (if r \<noteq> None \<and> \<not> sat \<and> txid = fst (the r) \<and> vout = snd (the r) then True else sat)"
    using assms txid vout seq size
    by (simp add: read_input_def bind_eq_Some_conv Let_def split del: if_split) blast
  obtain script where script: "length script = unat size"
    "h1 = update_hasher_with_varint (h @ txid @ u32_le vout) size @ script"
    using read_chunks_sound [OF chunks] by blast
  let ?i = "\<lparr>in_prev_txid = txid, in_vout = vout, in_script_sig = script, in_sequence = seq\<rparr>"
  have "unat size < 2 ^ 32"
    using unat_less_pow [of size] by simp
  then have "wf_input ?i" "h' = h @ input_bytes ?i"
    using script txid h' read_32bytes_length
    by (simp_all add: wf_input_def input_bytes_def update_hasher_with_varint_eq)
  moreover have "sat' \<longleftrightarrow> sat \<or>
      (\<exists>txid vout. r = Some (txid, vout) \<and> in_prev_txid ?i = txid \<and> in_vout ?i = vout)"
    using sat' by (cases r) auto
  ultimately show ?thesis by blast
qed

lemma read_output_sound:
  assumes "read_output E r (h, sat, s) = Some (h', sat', s')"
  shows "\<exists>out. wf_output out \<and> h' = h @ output_bytes out \<and>
    (sat' \<longleftrightarrow> sat \<or> (\<exists>amount address. r = Some (amount, address) \<and> pays_output amount address out))"
proof -
  obtain v s1 where v: "read_u64 E s = Some (v, s1)"
    using assms by (auto simp: read_output_def bind_eq_Some_conv)
  obtain flag s2 where flag: "read_u32 E s1 = Some (flag, s2)"
    using assms v by (auto simp: read_output_def bind_eq_Some_conv)
  show ?thesis
  proof (cases "flag = 0")
    case True
    obtain address s3 where address: "read_32bytes E s2 = Some (address, s3)"
      using assms v flag True by (auto simp: read_output_def bind_eq_Some_conv)
    then have "h' = h @ output_bytes (Taproot_Output v address)"
      "sat' \<longleftrightarrow> sat \<or> (\<exists>amount condition. r = Some (amount, condition) \<and>
        pays_output amount condition (Taproot_Output v address))"
      using assms v flag True
      by (auto simp: read_output_def Let_def u8_le_def taproot_match)
    with address show ?thesis
      using read_32bytes_length
      by (intro exI [of _ "Taproot_Output v address"]) auto
  next
    case False
    with assms v flag have read: "read_chunks_and_update_hasher E
        (update_hasher_with_varint (h @ u64_le v) flag) flag s2 = Some (h', s')" and "sat' = sat"
      by (auto simp: read_output_def bind_eq_Some_conv Let_def)
    obtain script where "length script = unat flag"
      "h' = update_hasher_with_varint (h @ u64_le v) flag @ script"
      using read_chunks_sound [OF read] by blast
    moreover have "unat flag < 2 ^ 32" "0 < unat flag"
      using unat_less_pow [of flag] False by (simp_all add: unat_gt_0)
    ultimately show ?thesis
      using \<open>sat' = sat\<close>
      by (intro exI [of _ "Script_Output v script"]) (simp add: update_hasher_with_varint_eq)
  qed
qed

lemma read_inputs_sound:
  assumes "for_each [0..<n] (\<lambda>_. read_input E r) (h, r = None, s) = Some (h', sat', s')"
  shows "\<exists>ins. length ins = n \<and> list_all wf_input ins \<and>
    h' = h @ concat (List.map input_bytes ins) \<and> sat' = spends r ins"
proof -
  define I where "I = (\<lambda>i (st :: bytes \<times> bool \<times> 's). \<exists>ins. length ins = i \<and> list_all wf_input ins \<and>
    fst st = h @ concat (List.map input_bytes ins) \<and> fst (snd st) = spends r ins)"
  have "I n (h', sat', s')"
    using assms
  proof (rule for_each_invariant)
    show "I 0 (h, r = None, s)"
      by (cases r) (auto simp: I_def)
  next
    fix i x y
    assume "I i x" and run: "read_input E r x = Some y"
    obtain h1 sat1 s1 h2 sat2 s2 where xy: "x = (h1, sat1, s1)" "y = (h2, sat2, s2)"
      by (metis prod_cases3)
    from \<open>I i x\<close> xy obtain ins where ins: "length ins = i" "list_all wf_input ins"
      "h1 = h @ concat (List.map input_bytes ins)" "sat1 = spends r ins"
      by (auto simp: I_def)
    from read_input_sound [of r h1 sat1 s1 h2 sat2 s2] run xy obtain i' where
      "wf_input i'" "h2 = h1 @ input_bytes i'"
      "sat2 \<longleftrightarrow> sat1 \<or> (\<exists>txid vout. r = Some (txid, vout) \<and> in_prev_txid i' = txid \<and> in_vout i' = vout)"
      by blast
    with ins have "length (ins @ [i']) = Suc i \<and> list_all wf_input (ins @ [i']) \<and>
        h2 = h @ concat (List.map input_bytes (ins @ [i'])) \<and> sat2 = spends r (ins @ [i'])"
      by (cases r) (auto simp: spends_snoc)
    with xy show "I (Suc i) y"
      unfolding I_def by (metis fst_conv snd_conv)
  qed
  then show ?thesis by (auto simp: I_def)
qed

lemma read_outputs_sound:
  assumes "for_each [0..<n] (\<lambda>_. read_output E r) (h, r = None, s) = Some (h', sat', s')"
  shows "\<exists>outs. length outs = n \<and> list_all wf_output outs \<and>
    h' = h @ concat (List.map output_bytes outs) \<and> sat' = pays r outs"
proof -
  define I where "I = (\<lambda>i (st :: bytes \<times> bool \<times> 's). \<exists>outs. length outs = i \<and> list_all wf_output outs \<and>
    fst st = h @ concat (List.map output_bytes outs) \<and> fst (snd st) = pays r outs)"
  have "I n (h', sat', s')"
    using assms
  proof (rule for_each_invariant)
    show "I 0 (h, r = None, s)"
      by (cases r) (auto simp: I_def)
  next
    fix i x y
    assume "I i x" and run: "read_output E r x = Some y"
    obtain h1 sat1 s1 h2 sat2 s2 where xy: "x = (h1, sat1, s1)" "y = (h2, sat2, s2)"
      by (metis prod_cases3)
    from \<open>I i x\<close> xy obtain outs where outs: "length outs = i" "list_all wf_output outs"
      "h1 = h @ concat (List.map output_bytes outs)" "sat1 = pays r outs"
      by (auto simp: I_def)
    from read_output_sound [of r h1 sat1 s1 h2 sat2 s2] run xy obtain out where
      "wf_output out" "h2 = h1 @ output_bytes out"
      "sat2 \<longleftrightarrow> sat1 \<or> (\<exists>amount address. r = Some (amount, address) \<and> pays_output amount address out)"
      by blast
    with outs have "length (outs @ [out]) = Suc i \<and> list_all wf_output (outs @ [out]) \<and>
        h2 = h @ concat (List.map output_bytes (outs @ [out])) \<and> sat2 = pays r (outs @ [out])"
      by (cases r) (auto simp: pays_snoc)
    with xy show "I (Suc i) y"
      unfolding I_def by (metis fst_conv snd_conv)
  qed
  then show ?thesis by (auto simp: I_def)
qed

lemma read_tx_sound:
  assumes "read_tx_and_calculate_txid H E ri ro s = Some (txid, s')"
  shows "\<exists>tx. wf_tx tx \<and> txid = H (H (tx_bytes tx)) \<and> spends ri (tx_inputs tx) \<and> pays ro (tx_outputs tx)"
proof -
  obtain version n_in n_out lock_time s0 h1 sat_in s1 h2 sat_out where
    ins: "for_each [0..<unat n_in] (\<lambda>_. read_input E ri)
      (update_hasher_with_varint (u32_le version) n_in, ri = None, s0) = Some (h1, sat_in, s1)" and
    outs: "for_each [0..<unat n_out] (\<lambda>_. read_output E ro)
      (update_hasher_with_varint h1 n_out, ro = None, s1) = Some (h2, sat_out, s')" and
    sat: "sat_in" "sat_out" and txid: "txid = H (H (h2 @ u32_le lock_time))"
    using assms
    by (auto simp: read_tx_and_calculate_txid_def bind_eq_Some_conv Let_def
        split: if_splits cong: if_cong)
  obtain xs where xs: "length xs = unat n_in" "list_all wf_input xs"
    "h1 = update_hasher_with_varint (u32_le version) n_in @ concat (List.map input_bytes xs)"
    "sat_in = spends ri xs"
    using read_inputs_sound [OF ins] by blast
  obtain os where os: "length os = unat n_out" "list_all wf_output os"
    "h2 = update_hasher_with_varint h1 n_out @ concat (List.map output_bytes os)"
    "sat_out = pays ro os"
    using read_outputs_sound [OF outs] by blast
  let ?tx = "\<lparr>tx_version = version, tx_inputs = xs, tx_outputs = os, tx_lock_time = lock_time\<rparr>"
  have "unat n_in < 2 ^ 32" "unat n_out < 2 ^ 32"
    using unat_less_pow [of n_in] unat_less_pow [of n_out] by simp_all
  with xs os have "wf_tx ?tx"
    by (simp add: wf_tx_def)
  moreover have "h2 @ u32_le lock_time = tx_bytes ?tx"
    using xs os by (simp add: tx_bytes_def update_hasher_with_varint_eq)
  ultimately show ?thesis
    using sat xs os txid by (intro exI [of _ ?tx]) simp
qed

end

section \<open>Completeness of the reader\<close>

lemma length_pad32 [simp]: "length bs \<le> 32 \<Longrightarrow> length (pad32 bs) = 32"
  by (simp add: pad32_def)

lemma take_pad32: "n \<le> length bs \<Longrightarrow> take n (pad32 bs) = take n bs"
  by (simp add: pad32_def)

lemma chunk_items_ne:
  "bs \<noteq> [] \<Longrightarrow> chunk_items bs = Item32 (pad32 (take 32 bs)) # chunk_items (drop 32 bs)"
  by (cases bs) simp_all

context host_tape
begin

lemma read_chunks_complete:
  assumes "length bs < 2 ^ 32"
  shows "read_chunks_and_update_hasher E h (word_of_nat (length bs)) (load (chunk_items bs) s) =
    Some (h @ bs, s)"
proof -
  let ?n = "length bs"
  let ?step = "\<lambda>_ (hasher, s). do { (chunk, s) \<leftarrow> read_32bytes E s; Some (hasher @ chunk, s) }"
  let ?st = "\<lambda>i. (h @ take (32 * i) bs, load (chunk_items (drop (32 * i) bs)) s)"
  have n: "unat (word_of_nat ?n :: u32) = ?n"
    using assms by simp
  have "\<exists>st. for_each [0..<?n div 32] ?step (?st 0) = Some st \<and> st = ?st (?n div 32)"
  proof (rule for_each_total [where I = "\<lambda>i st. st = ?st i"])
    show "?st 0 = ?st 0" ..
  next
    fix i x
    assume "i < ?n div 32" and x: "x = ?st i"
    then have i: "32 * i + 32 \<le> ?n" by simp
    then have "drop (32 * i) bs \<noteq> []" by simp
    then have "chunk_items (drop (32 * i) bs) =
        Item32 (take 32 (drop (32 * i) bs)) # chunk_items (drop (32 * Suc i) bs)"
      using i by (simp add: chunk_items_ne pad32_def add.commute)
    moreover have "take (32 * Suc i) bs = take (32 * i) bs @ take 32 (drop (32 * i) bs)"
      by (simp add: take_add add.commute [of 32])
    ultimately show "\<exists>y. ?step i x = Some y \<and> y = ?st (Suc i)"
      using x i by (simp add: pushed)
  qed
  then have loop: "for_each [0..<?n div 32] ?step (h, load (chunk_items bs) s) = Some (?st (?n div 32))"
    by simp
  have mod: "32 * (?n div 32) + ?n mod 32 = ?n" by simp
  show ?thesis
  proof (cases "?n mod 32 = 0")
    case True
    then have "32 * (?n div 32) = ?n" using mod by linarith
    with True loop show ?thesis
      by (simp add: read_chunks_and_update_hasher_def Let_def n unat_div unat_mod word_less_nat_alt)
  next
    case False
    let ?rest = "drop (32 * (?n div 32)) bs"
    have len: "length ?rest = ?n mod 32"
      by (simp add: minus_mult_div_eq_mod)
    then have "?rest \<noteq> []" "length ?rest \<le> 32"
      using False by auto
    then have "chunk_items ?rest = [Item32 (pad32 ?rest)]"
      by (simp add: chunk_items_ne)
    moreover have "take (?n mod 32) (pad32 ?rest) = ?rest"
      using len by (simp add: take_pad32)
    moreover have "take (32 * (?n div 32)) bs @ ?rest = bs"
      by simp
    ultimately show ?thesis
      using False loop \<open>length ?rest \<le> 32\<close>
      by (simp add: read_chunks_and_update_hasher_def Let_def n unat_div unat_mod word_less_nat_alt
          pushed del: append_take_drop_id length_drop)
  qed
qed

lemma read_input_complete:
  assumes "wf_input i"
  shows "read_input E r (h, sat, load (input_items i) s) = Some (h @ input_bytes i,
    sat \<or> (\<exists>txid vout. r = Some (txid, vout) \<and> in_prev_txid i = txid \<and> in_vout i = vout), s)"
  using assms
  by (cases r) (auto simp: read_input_def input_items_def wf_input_def pushed Let_def
      read_chunks_complete update_hasher_with_varint_eq input_bytes_def)

lemma read_output_complete:
  assumes "wf_output out"
  shows "read_output E r (h, sat, load (output_items out) s) = Some (h @ output_bytes out,
    sat \<or> (\<exists>amount address. r = Some (amount, address) \<and> pays_output amount address out), s)"
proof (cases out)
  case (Taproot_Output v address)
  with assms show ?thesis
    by (simp add: read_output_def pushed Let_def taproot_match u8_le_def)
next
  case (Script_Output v script)
  then have "(word_of_nat (length script) :: u32) \<noteq> 0"
    using assms by (simp add: unat_eq_zero [symmetric] del: unat_eq_zero)
  with Script_Output assms show ?thesis
    by (simp add: read_output_def pushed Let_def read_chunks_complete update_hasher_with_varint_eq)
qed

lemma read_inputs_complete:
  "list_all wf_input ins \<Longrightarrow>
   for_each ins (\<lambda>_. read_input E r) (h, sat, load (concat (List.map input_items ins)) s) =
   Some (h @ concat (List.map input_bytes ins),
     sat \<or> (\<exists>txid vout. r = Some (txid, vout) \<and> spends r ins), s)"
  by (induction ins arbitrary: h sat) (auto simp: read_input_complete)

lemma read_outputs_complete:
  "list_all wf_output outs \<Longrightarrow>
   for_each outs (\<lambda>_. read_output E r) (h, sat, load (concat (List.map output_items outs)) s) =
   Some (h @ concat (List.map output_bytes outs),
     sat \<or> (\<exists>amount address. r = Some (amount, address) \<and> pays r outs), s)"
  by (induction outs arbitrary: h sat) (auto simp: read_output_complete)

lemma read_tx_complete:
  assumes "wf_tx tx"
  shows "read_tx_and_calculate_txid H E ri ro (load (tx_items tx) s) =
    (if spends ri (tx_inputs tx) \<and> pays ro (tx_outputs tx) then Some (H (H (tx_bytes tx)), s) else None)"
proof -
  have ins: "for_each [0..<length (tx_inputs tx)] (\<lambda>_. read_input E ri) (h, ri = None,
      load (concat (List.map input_items (tx_inputs tx))) s) =
    Some (h @ concat (List.map input_bytes (tx_inputs tx)), spends ri (tx_inputs tx), s)" for h s
    using read_inputs_complete [of "tx_inputs tx" ri h "ri = None" s] assms
      for_each_const [of "[0..<length (tx_inputs tx)]" "tx_inputs tx" "read_input E ri"]
    by (cases ri) (simp_all add: wf_tx_def)
  have outs: "for_each [0..<length (tx_outputs tx)] (\<lambda>_. read_output E ro) (h, ro = None,
      load (concat (List.map output_items (tx_outputs tx))) s) =
    Some (h @ concat (List.map output_bytes (tx_outputs tx)), pays ro (tx_outputs tx), s)" for h s
    using read_outputs_complete [of "tx_outputs tx" ro h "ro = None" s] assms
      for_each_const [of "[0..<length (tx_outputs tx)]" "tx_outputs tx" "read_output E ro"]
    by (cases ro) (simp_all add: wf_tx_def)
  show ?thesis
    using assms
    by (simp add: read_tx_and_calculate_txid_def Let_def tx_items_def pushed wf_tx_def ins outs
        update_hasher_with_varint_eq tx_bytes_def)
qed

end

section \<open>Properties\<close>

text \<open>
  C21. Whatever the environment supplies, a hash returned is the txid, double SHA-256 of the
  serialisation, of some well-formed transaction that spends the demanded outpoint and has the
  demanded taproot output.
\<close>

theorem read_tx_soundness:
  assumes "sized_reads E"
    and "read_tx_and_calculate_txid H E require_input require_output s = Some (txid, s')"
  shows "\<exists>tx. wf_tx tx \<and> txid = double_sha256_hash H [tx_bytes tx] \<and>
    spends require_input (tx_inputs tx) \<and> pays require_output (tx_outputs tx)"
  using sized_reads.read_tx_sound [OF assms] by (simp add: double_sha256_hash_def Let_def)

definition example_tx :: "transaction" where
  "example_tx = \<lparr>tx_version = 2,
     tx_inputs = [\<lparr>in_prev_txid = replicate 32 7, in_vout = 1, in_script_sig = [], in_sequence = 0\<rparr>],
     tx_outputs = [Taproot_Output 100000000 (replicate 32 9), Script_Output 5 [1]],
     tx_lock_time = 0\<rparr>"

lemma example_tx_wf: "wf_tx example_tx"
  by (simp add: example_tx_def wf_tx_def wf_input_def)

lemma read_example_tx:
  "read_tx_and_calculate_txid H guest (Some (replicate 32 7, 1)) (Some (Some 100000000, replicate 32 9))
    (tx_items example_tx) = Some (H (H (tx_bytes example_tx)), [])"
  using guest.read_tx_complete [OF example_tx_wf, of H "Some (replicate 32 7, 1)"
      "Some (Some 100000000, replicate 32 9)" "[]"]
  by (simp add: example_tx_def)

theorem read_tx_soundness_witness:
  "\<exists>tx. wf_tx tx \<and> id (tx_bytes example_tx) = double_sha256_hash id [tx_bytes tx] \<and>
    spends (Some (replicate 32 7, 1)) (tx_inputs tx) \<and>
    pays (Some (Some 100000000, replicate 32 9)) (tx_outputs tx)"
  using read_tx_soundness [OF sized_reads_guest read_example_tx [of id]] by simp

text \<open>
  C22. A host that writes a well-formed transaction to the guest's tape is answered with its txid
  when the transaction meets the demands, and then exactly its tape has been consumed; when it lacks
  the demanded input or output the guest panics.
\<close>

theorem read_tx_completeness:
  assumes "wf_tx tx"
  shows "read_tx_and_calculate_txid H guest require_input require_output (tx_items tx @ rest) =
    (if spends require_input (tx_inputs tx) \<and> pays require_output (tx_outputs tx)
     then Some (double_sha256_hash H [tx_bytes tx], rest) else None)"
  using guest.read_tx_complete [OF assms, of H require_input require_output rest]
  by (simp add: double_sha256_hash_def Let_def)

theorem read_tx_completeness_witness:
  "read_tx_and_calculate_txid id guest None (Some (None, replicate 32 8)) (tx_items example_tx) = None"
  using read_tx_completeness [OF example_tx_wf, of id None "Some (None, replicate 32 8)" "[]"]
  by (simp add: example_tx_def)

end
