(* ===== verification/Commitment_Circuit.thy ===== *)
theory Commitment_Circuit
  imports Transaction_Circuit
begin

text \<open>
  The remaining readers of \<open>circuits/src/bitcoin.rs\<close> and the Merkle proof reader of
  \<open>circuits/src/bridge.rs\<close>: the taproot output committing to a list of preimages, and the two
  loops that climb a Merkle path read from the environment. Elliptic-curve arithmetic is the crate
  \<open>k256\<close>, a record of functions here. The lemmas relate the loops to \<^const>\<open>climb\<close> and the hashed
  leaf script to its bytes.
\<close>

section \<open>Merkle paths from the environment\<close>

definition read_and_verify_bitcoin_merkle_path ::
  "hash_fun \<Rightarrow> 's environment \<Rightarrow> bytes \<Rightarrow> 's \<Rightarrow> (bytes \<times> 's) option" where
  "read_and_verify_bitcoin_merkle_path H E txid s = do {
     let hash = txid;
     (idx, s) \<leftarrow> read_u32 E s;
     (levels, s) \<leftarrow> read_u32 E s;
     (hash, idx, s) \<leftarrow> for_each [0..<unat levels] (\<lambda>_ (hash, idx, s). do {
        (node, s) \<leftarrow> read_32bytes E s;
        let hash = (if idx AND 1 = 0 then double_sha256_hash H [hash, node]
                    else double_sha256_hash H [node, hash]);
        let idx = idx div 2;
        Some (hash, idx, s)
      }) (hash, idx, s);
     Some (hash, s)
   }"

text \<open>The constant generic \<open>D\<close> is the first argument.\<close>

definition read_merkle_tree_proof ::
  "nat \<Rightarrow> hash_fun \<Rightarrow> 's environment \<Rightarrow> bytes \<Rightarrow> u32 option \<Rightarrow> 's \<Rightarrow> (bytes \<times> 's) option" where
  "read_merkle_tree_proof D H E leaf idx s = do {
     (level_idx, s) \<leftarrow> (case idx of Some i \<Rightarrow> Some (i, s) | None \<Rightarrow> read_u32 E s);
     let hash = leaf;
     (hash, level_idx, s) \<leftarrow> for_each [0..<D] (\<lambda>_ (hash, level_idx, s). do {
        (sibling, s) \<leftarrow> read_32bytes E s;
        let hash = (if level_idx mod 2 = 0 then sha256_hash H [hash, sibling]
                    else sha256_hash H [sibling, hash]);
        let level_idx = level_idx div 2;
        Some (hash, level_idx, s)
      }) (hash, level_idx, s);
     Some (hash, s)
   }"

text \<open>Both loops, with the hash of a node as a function of the concatenation.\<close>

definition climb_step ::
  "hash_fun \<Rightarrow> 's environment \<Rightarrow> bytes \<times> u32 \<times> 's \<Rightarrow> (bytes \<times> u32 \<times> 's) option" where
  "climb_step F E = (\<lambda>(hash, idx, s). do {
     (node, s) \<leftarrow> read_32bytes E s;
     Some (F (node_input (unat idx) hash node), idx div 2, s)
   })"

lemma word_even:
  fixes w :: u32
  shows "w AND 1 = 0 \<longleftrightarrow> even (unat w)" "w mod 2 = 0 \<longleftrightarrow> even (unat w)"
  by (simp_all add: even_iff_mod_2_eq_zero and_one_eq word_unat_eq_iff unat_mod)

lemma hash_node:
  "(if even i then double_sha256_hash H [h, n] else double_sha256_hash H [n, h]) =
     H (H (node_input i h n))"
  "(if even i then sha256_hash H [h, n] else sha256_hash H [n, h]) = H (node_input i h n)"
  by (simp_all add: double_sha256_hash_def sha256_hash_def node_input_def Let_def)

lemma read_and_verify_bitcoin_merkle_path_eq:
  "read_and_verify_bitcoin_merkle_path H E txid s = do {
     (idx, s) \<leftarrow> read_u32 E s;
     (levels, s) \<leftarrow> read_u32 E s;
     (hash, idx, s) \<leftarrow> for_each [0..<unat levels] (\<lambda>_. climb_step (\<lambda>x. H (H x)) E) (txid, idx, s);
     Some (hash, s)
   }"
  by (simp add: read_and_verify_bitcoin_merkle_path_def climb_step_def Let_def word_even hash_node)

lemma read_merkle_tree_proof_eq:
  "read_merkle_tree_proof D H E leaf idx s = do {
     (level_idx, s) \<leftarrow> (case idx of Some i \<Rightarrow> Some (i, s) | None \<Rightarrow> read_u32 E s);
     (hash, level_idx, s) \<leftarrow> for_each [0..<D] (\<lambda>_. climb_step H E) (leaf, level_idx, s);
     Some (hash, s)
   }"
  by (simp add: read_merkle_tree_proof_def climb_step_def Let_def word_even hash_node)

context sized_reads
begin

lemma climb_steps_sound:
  assumes "for_each [0..<n] (\<lambda>_. climb_step F E) (h, i, s) = Some (h', i', s')"
  shows "\<exists>path. length path = n \<and> (\<forall>p \<in> set path. length p = 32) \<and> h' = climb F (unat i) path h"
proof -
  define I where "I = (\<lambda>m (st :: bytes \<times> u32 \<times> 's). \<exists>path. length path = m \<and>
    (\<forall>p \<in> set path. length p = 32) \<and> fst st = climb F (unat i) path h \<and>
    unat (fst (snd st)) = unat i div 2 ^ m)"
  have "I n (h', i', s')"
    using assms
  proof (rule for_each_invariant)
    show "I 0 (h, i, s)" by (simp add: I_def)
  next
    fix m x y
    assume "I m x" and run: "climb_step F E x = Some y"
    obtain h1 i1 s1 h2 i2 s2 where xy: "x = (h1, i1, s1)" "y = (h2, i2, s2)"
      by (metis prod_cases3)
    from \<open>I m x\<close> xy obtain path where path: "length path = m" "\<forall>p \<in> set path. length p = 32"
      "h1 = climb F (unat i) path h" "unat i1 = unat i div 2 ^ m"
      by (auto simp: I_def)
    from run xy obtain node where node: "length node = 32"
      "h2 = F (node_input (unat i1) h1 node)" "i2 = i1 div 2"
      by (auto simp: climb_step_def bind_eq_Some_conv dest: read_32bytes_length)
    with path have "length (path @ [node]) = Suc m \<and> (\<forall>p \<in> set (path @ [node]). length p = 32) \<and>
        h2 = climb F (unat i) (path @ [node]) h \<and> unat i2 = unat i div 2 ^ Suc m"
      by (auto simp: climb_snoc unat_div div_mult2_eq [symmetric] mult.commute)
    with xy show "I (Suc m) y"
      unfolding I_def by (metis fst_conv snd_conv)
  qed
  then show ?thesis by (auto simp: I_def)
qed

lemma bitcoin_merkle_path_sound:
  assumes "read_and_verify_bitcoin_merkle_path H E txid s = Some (root, s')"
  shows "\<exists>(idx :: u32) path. length path < 2 ^ 32 \<and> (\<forall>p \<in> set path. length p = 32) \<and>
    root = climb (\<lambda>x. H (H x)) (unat idx) path txid"
proof -
  obtain idx levels idx' s1 where
    "for_each [0..<unat (levels :: u32)] (\<lambda>_. climb_step (\<lambda>x. H (H x)) E) (txid, idx, s1) =
      Some (root, idx', s')"
    using assms by (auto simp: read_and_verify_bitcoin_merkle_path_eq bind_eq_Some_conv)
  from climb_steps_sound [OF this] obtain path where
    "length path = unat levels" "\<forall>p \<in> set path. length p = 32"
    "root = climb (\<lambda>x. H (H x)) (unat idx) path txid"
    by blast
  moreover have "unat levels < 2 ^ 32"
    using unat_less_pow [of levels] by simp
  ultimately show ?thesis by metis
qed

lemma merkle_tree_proof_sound:
  assumes "read_merkle_tree_proof D H E leaf idx s = Some (root, s')"
  shows "\<exists>(i :: u32) path. (\<forall>j. idx = Some j \<longrightarrow> i = j) \<and> length path = D \<and>
    (\<forall>p \<in> set path. length p = 32) \<and> root = climb H (unat i) path leaf"
proof -
  obtain i i' s1 where i: "\<forall>j. idx = Some j \<longrightarrow> i = j" and
    "for_each [0..<D] (\<lambda>_. climb_step H E) (leaf, i, s1) = Some (root, i', s')"
    using assms by (auto simp: read_merkle_tree_proof_eq bind_eq_Some_conv split: option.splits)
  from climb_steps_sound [OF this(2)] i show ?thesis by blast
qed

end

context host_tape
begin

lemma climb_step_pushed:
  "length p = 32 \<Longrightarrow> climb_step F E (h, i, push (Item32 p) s) =
     Some (F (node_input (unat i) h p), i div 2, s)"
  by (simp add: climb_step_def pushed)

lemma climb_steps_complete:
  "\<forall>p \<in> set path. length p = 32 \<Longrightarrow>
   \<exists>i'. for_each path (\<lambda>_. climb_step F E) (h, i, load (List.map Item32 path) s) =
     Some (climb F (unat i) path h, i', s)"
proof (induction path arbitrary: h i)
  case Nil
  show ?case by simp
next
  case (Cons p path)
  moreover have "unat (i div 2) = unat i div 2"
    by (simp add: unat_div)
  ultimately show ?case
    using Cons.IH [of "F (node_input (unat i) h p)" "i div 2"]
    by (simp add: climb_step_pushed)
qed

lemma bitcoin_merkle_path_complete:
  assumes "\<forall>p \<in> set path. length p = 32" "length path < 2 ^ 32"
  shows "read_and_verify_bitcoin_merkle_path H E txid
      (load ([ItemU32 idx, ItemU32 (word_of_nat (length path))] @ List.map Item32 path) s) =
    Some (climb (\<lambda>x. H (H x)) (unat idx) path txid, s)"
  using climb_steps_complete [OF assms(1), of "\<lambda>x. H (H x)" txid idx s] assms(2)
    for_each_const [of "[0..<length path]" path "climb_step (\<lambda>x. H (H x)) E"]
  by (auto simp: read_and_verify_bitcoin_merkle_path_eq pushed)

lemma merkle_tree_proof_complete:
  assumes "\<forall>p \<in> set path. length p = 32" "length path = D"
  shows "read_merkle_tree_proof D H E leaf None
      (load (ItemU32 idx # List.map Item32 path) s) = Some (climb H (unat idx) path leaf, s)"
    "read_merkle_tree_proof D H E leaf (Some idx)
      (load (List.map Item32 path) s) = Some (climb H (unat idx) path leaf, s)"
  using climb_steps_complete [OF assms(1), of H leaf idx s] assms(2)
    for_each_const [of "[0..<D]" path "climb_step H E"]
  by (auto simp: read_merkle_tree_proof_eq pushed)

end

section \<open>Taproot commitments to preimages\<close>

text \<open>The functions of \<open>k256\<close> that the code calls.\<close>

record ('p, 'k) curve =
  public_key_from_sec1 :: "bytes \<Rightarrow> 'p option"
  scalar_from_slice :: "bytes \<Rightarrow> 'k option"
  generator_times :: "'k \<Rightarrow> 'p"
  point_add :: "'p \<Rightarrow> 'p \<Rightarrow> 'p"
  point_to_bytes :: "'p \<Rightarrow> bytes"

definition internal_key_x_only_bytes :: bytes where
  "internal_key_x_only_bytes =
    [147, 199, 55, 141, 150, 81, 138, 117, 68, 136, 33, 196, 247, 200, 244, 186, 231, 206, 96,
     248, 4, 208, 61, 31, 6, 40, 221, 93, 208, 245, 222, 81]"

definition internal_key_y_only_bytes :: bytes where
  "internal_key_y_only_bytes =
    [183, 230, 72, 141, 245, 65, 139, 76, 55, 246, 18, 113, 172, 165, 3, 144, 103, 1, 56, 183,
     220, 79, 77, 28, 43, 146, 127, 196, 59, 144, 15, 40]"

text \<open>\<open>"TapLeaf".as_bytes()\<close> and \<open>"TapTweak".as_bytes()\<close>.\<close>

definition tap_leaf_str :: bytes where
  "tap_leaf_str = [84, 97, 112, 76, 101, 97, 102]"

definition tap_tweak_str :: bytes where
  "tap_tweak_str = [84, 97, 112, 84, 119, 101, 97, 107]"

definition calculate_taproot_from_single_script ::
  "hash_fun \<Rightarrow> ('p, 'k) curve \<Rightarrow> bytes \<Rightarrow> bytes option" where
  "calculate_taproot_from_single_script H C tap_leaf_hash = do {
     let internal_key_bytes = [4] @ internal_key_x_only_bytes @ internal_key_y_only_bytes;
     internal_key \<leftarrow> public_key_from_sec1 C internal_key_bytes;
     let tap_tweak_tag_hash = sha256_hash H [tap_tweak_str];
     let tweak_hash = sha256_hash H
       [tap_tweak_tag_hash, tap_tweak_tag_hash, internal_key_x_only_bytes, tap_leaf_hash];
     scalar \<leftarrow> scalar_from_slice C tweak_hash;
     let scalar_point = generator_times C scalar;
     let tweaked_output = point_add C internal_key scalar_point;
     let address_bytes = point_to_bytes C tweaked_output;
     if length address_bytes < 33 then None
     else Some (drop 1 (take 33 address_bytes))
   }"

definition read_preimages_and_calculate_commit_taproot ::
  "hash_fun \<Rightarrow> ('p, 'k) curve \<Rightarrow> 's environment \<Rightarrow> 's \<Rightarrow> ((bytes \<times> bytes) \<times> 's) option" where
  "read_preimages_and_calculate_commit_taproot H C E s = do {
     (num_preimages, s) \<leftarrow> read_u32 E s;
     (actor_pk_bytes, s) \<leftarrow> read_32bytes E s;
     let tap_leaf_tag_hash = sha256_hash H [tap_leaf_str];
     let hasher_commit_taproot = tap_leaf_tag_hash @ tap_leaf_tag_hash @ [192];
     let script_length = 37 + 33 * num_preimages;
     let hasher_commit_taproot = update_hasher_with_varint hasher_commit_taproot script_length;
     let hasher_commit_taproot = hasher_commit_taproot @ [32] @ actor_pk_bytes @ [172, 0, 99];
     (hasher_commit_taproot, hasher_claim_proof_leaf, s) \<leftarrow>
       for_each [0..<unat num_preimages] (\<lambda>_ (hasher_commit_taproot, hasher_claim_proof_leaf, s). do {
         let hasher_commit_taproot = hasher_commit_taproot @ [32];
         (preimage, s) \<leftarrow> read_32bytes E s;
         Some (hasher_commit_taproot @ preimage,
           hasher_claim_proof_leaf @ sha256_hash H [preimage], s)
       }) (hasher_commit_taproot, [], s);
     let hasher_commit_taproot = hasher_commit_taproot @ [104];
     let script_hash = H hasher_commit_taproot;
     let claim_proof_leaf = H hasher_claim_proof_leaf;
     taproot_address \<leftarrow> calculate_taproot_from_single_script H C script_hash;
     Some ((taproot_address, claim_proof_leaf), s)
   }"

text \<open>
  The committed script: a signature check by the actor, then an envelope of pushes that is never
  executed. Opcodes: 32 pushes 32 bytes, 172 is \<open>OP_CHECKSIG\<close>, 0 is \<open>OP_FALSE\<close>, 99 \<open>OP_IF\<close> and
  104 \<open>OP_ENDIF\<close>.
\<close>

definition commit_script :: "bytes \<Rightarrow> bytes list \<Rightarrow> bytes" where
  "commit_script pk preimages =
    32 # pk @ [172, 0, 99] @ concat (List.map (\<lambda>p. 32 # p) preimages) @ [104]"

definition tap_leaf_hash :: "hash_fun \<Rightarrow> bytes \<Rightarrow> bytes" where
  "tap_leaf_hash H script =
    H (H tap_leaf_str @ H tap_leaf_str @ [192] @ compact_size (length script) @ script)"

lemma length_commit_script:
  "length pk = 32 \<Longrightarrow> \<forall>p \<in> set ps. length p = 32 \<Longrightarrow> length (commit_script pk ps) = 37 + 33 * length ps"
proof -
  assume "length pk = 32" "\<forall>p \<in> set ps. length p = 32"
  moreover from this(2) have "length (concat (List.map (\<lambda>p. 32 # p) ps)) = 33 * length ps"
    by (induction ps) auto
  ultimately show ?thesis
    by (simp add: commit_script_def)
qed

context sized_reads
begin

lemma read_preimages_sound:
  assumes "read_preimages_and_calculate_commit_taproot H C E s = Some ((address, leaf), s')"
  shows "\<exists>pk ps. length pk = 32 \<and> (\<forall>p \<in> set ps. length p = 32) \<and> length ps < 2 ^ 32 \<and>
    (37 + 33 * length ps < 2 ^ 32 \<longrightarrow>
      calculate_taproot_from_single_script H C (tap_leaf_hash H (commit_script pk ps)) = Some address) \<and>
    leaf = H (concat (List.map H ps))"
proof -
  obtain n s1 where n: "read_u32 E s = Some (n, s1)"
    using assms by (auto simp: read_preimages_and_calculate_commit_taproot_def bind_eq_Some_conv)
  obtain pk s2 where pk: "read_32bytes E s1 = Some (pk, s2)"
    using assms n by (auto simp: read_preimages_and_calculate_commit_taproot_def bind_eq_Some_conv)
  let ?step = "\<lambda>_ (h, l, s). do {
         let h = h @ [32];
         (preimage, s) \<leftarrow> read_32bytes E s;
         Some (h @ preimage, l @ sha256_hash H [preimage], s) }"
  let ?h0 = "update_hasher_with_varint (H tap_leaf_str @ H tap_leaf_str @ [192]) (37 + 33 * n) @
    [32] @ pk @ [172, 0, 99]"
  obtain h l where
    run: "for_each [0..<unat n] ?step (?h0, [], s2) = Some (h, l, s')" and
    address: "calculate_taproot_from_single_script H C (H (h @ [104])) = Some address" and
    leaf: "leaf = H l"
    using assms n pk
    by (auto simp: read_preimages_and_calculate_commit_taproot_def bind_eq_Some_conv Let_def
        sha256_hash_def)
  define I where "I = (\<lambda>m (st :: bytes \<times> bytes \<times> 's). \<exists>ps. length ps = m \<and>
    (\<forall>p \<in> set ps. length p = 32) \<and> fst st = ?h0 @ concat (List.map (\<lambda>p. 32 # p) ps) \<and>
    fst (snd st) = concat (List.map H ps))"
  have "I (unat n) (h, l, s')"
    using run
  proof (rule for_each_invariant)
    show "I 0 (?h0, [], s2)" by (simp add: I_def)
  next
    fix m x y
    assume "I m x" and run: "?step m x = Some y"
    obtain h1 l1 s1 h2 l2 s2 where xy: "x = (h1, l1, s1)" "y = (h2, l2, s2)"
      by (metis prod_cases3)
    from \<open>I m x\<close> xy obtain ps where ps: "length ps = m" "\<forall>p \<in> set ps. length p = 32"
      "h1 = ?h0 @ concat (List.map (\<lambda>p. 32 # p) ps)" "l1 = concat (List.map H ps)"
      by (auto simp: I_def)
    from run xy obtain p where "length p = 32" "h2 = h1 @ 32 # p" "l2 = l1 @ H p"
      by (auto simp: bind_eq_Some_conv sha256_hash_def dest: read_32bytes_length)
    with ps have "length (ps @ [p]) = Suc m \<and> (\<forall>p \<in> set (ps @ [p]). length p = 32) \<and>
        h2 = ?h0 @ concat (List.map (\<lambda>p. 32 # p) (ps @ [p])) \<and> l2 = concat (List.map H (ps @ [p]))"
      by auto
    with xy show "I (Suc m) y"
      unfolding I_def by (metis fst_conv snd_conv)
  qed
  then obtain ps where ps: "length ps = unat n" "\<forall>p \<in> set ps. length p = 32"
    "h = ?h0 @ concat (List.map (\<lambda>p. 32 # p) ps)" "l = concat (List.map H ps)"
    by (auto simp: I_def)
  have len: "length pk = 32"
    using pk by (rule read_32bytes_length)
  have "H (h @ [104]) = tap_leaf_hash H (commit_script pk ps)" if "37 + 33 * length ps < 2 ^ 32"
  proof -
    have "unat (37 + 33 * n) = length (commit_script pk ps)"
      using that ps len by (simp add: length_commit_script unat_word_ariths)
    then show ?thesis
      using ps(3) by (simp add: tap_leaf_hash_def commit_script_def update_hasher_with_varint_eq)
  qed
  moreover have "length ps < 2 ^ 32"
    using ps(1) unat_less_pow [of n] by simp
  ultimately show ?thesis
    using address leaf ps len by (intro exI [of _ pk] exI [of _ ps]) auto
qed

end

end
