(* ===== verification/Incremental_Merkle.thy ===== *)
theory Incremental_Merkle
  imports Merkle_Spec
begin

text \<open>
  The incremental Merkle tree of \<open>circuits/src/incremental_merkle.rs\<close> with the constants \<open>EMPTYDATA\<close>
  and \<open>ZEROES\<close> of \<open>circuits/src/constants.rs\<close>. The tree keeps, per level, the root of the last
  complete left subtree; \<open>represents\<close> relates it to the list of leaves added so far, and the locale
  \<open>append_tree\<close> is the contract its clients use: the root is that of the padded list of leaves.
\<close>

section \<open>Constants\<close>

definition EMPTYDATA :: bytes where
  "EMPTYDATA =
    [0xcb, 0x0c, 0x9f, 0x42, 0x64, 0x54, 0x6b, 0x15, 0xbe, 0x98, 0x01, 0xec, 0xb1, 0x1d, 0xf7, 0xe4,
     0x3b, 0xfc, 0x68, 0x41, 0x60, 0x9f, 0xc1, 0xe4, 0xe9, 0xde, 0x5b, 0x3a, 0x59, 0x73, 0xaf, 0x38]"

definition BLOCKHASH_MERKLE_TREE_DEPTH :: nat where
  "BLOCKHASH_MERKLE_TREE_DEPTH = 32"

definition WITHDRAWAL_MERKLE_TREE_DEPTH :: nat where
  "WITHDRAWAL_MERKLE_TREE_DEPTH = 32"

text \<open>The lazily initialised array; its loop stays in range, see \<open>ZEROES_run\<close>.\<close>

definition ZEROES_init :: "hash_fun \<Rightarrow> bytes list option" where
  "ZEROES_init H =
    for_each [0..<WITHDRAWAL_MERKLE_TREE_DEPTH]
      (\<lambda>i a. do { x \<leftarrow> array_get a i; array_set a (i + 1) (sha256_hash H [x, x]) })
      (replicate (WITHDRAWAL_MERKLE_TREE_DEPTH + 1) EMPTYDATA)"

definition ZEROES :: "hash_fun \<Rightarrow> bytes list" where
  "ZEROES H = (case ZEROES_init H of Some a \<Rightarrow> a | None \<Rightarrow> [])"

abbreviation zero_subtree :: "hash_fun \<Rightarrow> nat \<Rightarrow> bytes" where
  "zero_subtree H \<equiv> zero_root H EMPTYDATA"

abbreviation tree_root :: "hash_fun \<Rightarrow> nat \<Rightarrow> bytes list \<Rightarrow> bytes" where
  "tree_root H \<equiv> mroot H EMPTYDATA"

lemma length_EMPTYDATA [simp]: "length EMPTYDATA = 32"
  by (simp add: EMPTYDATA_def)

lemma ZEROES_run:
  "\<exists>a. ZEROES_init H = Some a \<and> length a = 33 \<and> (\<forall>j \<le> 32. a ! j = zero_subtree H j)"
proof -
  let ?I = "\<lambda>i a. length a = 33 \<and> (\<forall>j \<le> i. a ! j = zero_subtree H j)"
  have "\<exists>a. ZEROES_init H = Some a \<and> ?I WITHDRAWAL_MERKLE_TREE_DEPTH a"
    unfolding ZEROES_init_def
    by (rule for_each_total)
      (auto simp: WITHDRAWAL_MERKLE_TREE_DEPTH_def sha256_hash_def nth_list_update le_Suc_eq)
  then show ?thesis by (simp add: WITHDRAWAL_MERKLE_TREE_DEPTH_def)
qed

lemma ZEROES_nth [simp]:
  "length (ZEROES H) = 33" "j \<le> 32 \<Longrightarrow> ZEROES H ! j = zero_subtree H j"
  using ZEROES_run [of H] by (auto simp: ZEROES_def)

section \<open>The tree\<close>

record incremental_merkle_tree =
  filled_subtrees :: "bytes list"
  root :: bytes
  index :: u32

definition imt_new :: "nat \<Rightarrow> hash_fun \<Rightarrow> incremental_merkle_tree option" where
  "imt_new DEPTH H = do {
     zero \<leftarrow> array_get (ZEROES H) DEPTH;
     Some \<lparr>filled_subtrees = replicate DEPTH EMPTYDATA, root = zero, index = 0\<rparr>
   }"

definition imt_level ::
  "hash_fun \<Rightarrow> nat \<Rightarrow> bytes list \<times> u32 \<times> bytes \<Rightarrow> (bytes list \<times> u32 \<times> bytes) option" where
  "imt_level H i = (\<lambda>(filled, current_index, current_level_hash). do {
     (filled, left, right) \<leftarrow>
       (if current_index mod 2 = 0 then do {
          filled \<leftarrow> array_set filled i current_level_hash;
          zero \<leftarrow> array_get (ZEROES H) i;
          Some (filled, current_level_hash, zero)
        } else do {
          left \<leftarrow> array_get filled i;
          Some (filled, left, current_level_hash)
        });
     Some (filled, current_index div 2, sha256_hash H [left, right])
   })"

definition imt_add ::
  "nat \<Rightarrow> hash_fun \<Rightarrow> bytes \<Rightarrow> incremental_merkle_tree \<Rightarrow> incremental_merkle_tree option" where
  "imt_add DEPTH H a self = do {
     let current_index = index self;
     let current_level_hash = a;
     (filled, current_index, current_level_hash) \<leftarrow>
       for_each [0..<DEPTH] (imt_level H) (filled_subtrees self, current_index, current_level_hash);
     Some \<lparr>filled_subtrees = filled, root = current_level_hash, index = index self + 1\<rparr>
   }"

text \<open>
  Level \<open>i\<close> of the tree holds the root of the complete block of \<open>2 ^ i\<close> leaves that ends where the
  incomplete one begins, whenever bit \<open>i\<close> of the number of leaves is set.
\<close>

definition block :: "nat \<Rightarrow> nat \<Rightarrow> bytes list \<Rightarrow> bytes list" where
  "block i k ls = take (2 ^ i) (drop (k * 2 ^ i) ls)"

definition represents ::
  "nat \<Rightarrow> hash_fun \<Rightarrow> incremental_merkle_tree \<Rightarrow> bytes list \<Rightarrow> bool" where
  "represents DEPTH H t ls \<longleftrightarrow>
     length (filled_subtrees t) = DEPTH \<and> index t = word_of_nat (length ls) \<and>
     root t = tree_root H DEPTH ls \<and>
     (\<forall>i < DEPTH. odd (length ls div 2 ^ i) \<longrightarrow>
        filled_subtrees t ! i = tree_root H i (block i (length ls div 2 ^ i - 1) ls))"

lemma represents_new:
  assumes "DEPTH \<le> 32"
  shows "\<exists>t. imt_new DEPTH H = Some t \<and> represents DEPTH H t []"
  using assms by (simp add: imt_new_def represents_def)

lemma mroot_Suc_short:
  "length xs \<le> 2 ^ d \<Longrightarrow> mroot F e (Suc d) xs = F (mroot F e d xs @ zero_root F e d)"
  by simp

text \<open>The running hash after \<open>i\<close> levels: the root of the incomplete block with the new leaf.\<close>

definition partial_block :: "nat \<Rightarrow> bytes list \<Rightarrow> bytes \<Rightarrow> bytes list" where
  "partial_block i ls a = drop (length ls div 2 ^ i * 2 ^ i) (ls @ [a])"

lemma length_partial_block: "length (partial_block i ls a) = length ls mod 2 ^ i + 1"
  by (simp add: partial_block_def modulo_nat_def Suc_diff_le mult.commute)

lemma length_partial_block_le: "length (partial_block i ls a) \<le> 2 ^ i"
  by (simp add: length_partial_block Suc_leI)

lemma partial_block_even:
  assumes "even (length ls div 2 ^ i)"
  shows "tree_root H (Suc i) (partial_block (Suc i) ls a) =
    H (tree_root H i (partial_block i ls a) @ zero_subtree H i)"
proof -
  obtain q where "length ls div 2 ^ i = 2 * q"
    using assms by (rule evenE)
  then have "length ls div 2 ^ Suc i * 2 ^ Suc i = length ls div 2 ^ i * 2 ^ i"
    unfolding div_pow_Suc by simp
  then have "partial_block (Suc i) ls a = partial_block i ls a"
    by (simp only: partial_block_def)
  then show ?thesis
    using mroot_Suc_short [OF length_partial_block_le] by simp
qed

lemma partial_block_odd:
  assumes "odd (length ls div 2 ^ i)"
  shows "tree_root H (Suc i) (partial_block (Suc i) ls a) =
    H (tree_root H i (block i (length ls div 2 ^ i - 1) ls) @ tree_root H i (partial_block i ls a))"
proof -
  obtain q where q: "length ls div 2 ^ i = 2 * q + 1"
    using assms by (rule oddE)
  have start: "length ls div 2 ^ Suc i * 2 ^ Suc i = 2 * q * 2 ^ i"
    unfolding div_pow_Suc q by simp
  have "(2 * q + 1) * 2 ^ i \<le> length ls"
    using div_times_less_eq_dividend [of "length ls" "2 ^ i"] q by simp
  then have "take (2 ^ i) (partial_block (Suc i) ls a) = block i (2 * q) ls"
    unfolding partial_block_def block_def start by simp
  moreover have "drop (2 ^ i) (partial_block (Suc i) ls a) = partial_block i ls a"
    unfolding partial_block_def start q by (simp add: add.commute del: drop_append)
  ultimately show ?thesis
    using q by simp
qed

text \<open>One level of the loop.\<close>

definition level_inv ::
  "nat \<Rightarrow> hash_fun \<Rightarrow> bytes list \<Rightarrow> bytes list \<Rightarrow> bytes \<Rightarrow> nat \<Rightarrow> bytes list \<times> u32 \<times> bytes \<Rightarrow> bool" where
  "level_inv DEPTH H filled0 ls a i = (\<lambda>(filled, current_index, hash).
     length filled = DEPTH \<and> unat current_index = length ls div 2 ^ i \<and>
     hash = tree_root H i (partial_block i ls a) \<and>
     (\<forall>j < DEPTH. filled ! j =
       (if j < i \<and> even (length ls div 2 ^ j) then tree_root H j (partial_block j ls a)
        else filled0 ! j)))"

lemma imt_level_inv:
  assumes "i < DEPTH" "DEPTH \<le> 32" "level_inv DEPTH H filled0 ls a i st"
    and filled0: "odd (length ls div 2 ^ i) \<Longrightarrow>
      filled0 ! i = tree_root H i (block i (length ls div 2 ^ i - 1) ls)"
  shows "\<exists>st'. imt_level H i st = Some st' \<and> level_inv DEPTH H filled0 ls a (Suc i) st'"
proof -
  obtain filled ci hash where st: "st = (filled, ci, hash)"
    by (metis prod_cases3)
  have inv: "length filled = DEPTH" "unat ci = length ls div 2 ^ i"
    "hash = tree_root H i (partial_block i ls a)"
    "\<And>j. j < DEPTH \<Longrightarrow> filled ! j =
       (if j < i \<and> even (length ls div 2 ^ j) then tree_root H j (partial_block j ls a)
        else filled0 ! j)"
    using assms(3) by (simp_all add: level_inv_def st)
  have ci: "ci mod 2 = 0 \<longleftrightarrow> even (length ls div 2 ^ i)"
    by (simp add: word_unat_eq_iff unat_mod inv(2) even_iff_mod_2_eq_zero)
  have next_ci: "unat (ci div 2) = length ls div 2 ^ Suc i"
    unfolding div_pow_Suc inv(2) [symmetric] by (simp add: unat_div)
  show ?thesis
  proof (cases "even (length ls div 2 ^ i)")
    case True
    then have "imt_level H i st = Some (filled[i := hash], ci div 2,
        H (tree_root H i (partial_block i ls a) @ zero_subtree H i))"
      using assms(1,2) inv(1,3) by (simp add: imt_level_def st ci sha256_hash_def)
    moreover have "level_inv DEPTH H filled0 ls a (Suc i) (filled[i := hash], ci div 2,
        H (tree_root H i (partial_block i ls a) @ zero_subtree H i))"
      using True inv assms(1) next_ci
      by (auto simp: level_inv_def partial_block_even nth_list_update less_Suc_eq
          simp del: mroot.simps power_Suc)
    ultimately show ?thesis by blast
  next
    case False
    then have "filled ! i = tree_root H i (block i (length ls div 2 ^ i - 1) ls)"
      using inv(4) [OF assms(1)] filled0 by simp
    then have "imt_level H i st = Some (filled, ci div 2, tree_root H (Suc i) (partial_block (Suc i) ls a))"
      using False assms(1,2) inv(1,3)
      by (simp add: imt_level_def st ci sha256_hash_def partial_block_odd del: mroot.simps)
    moreover have "level_inv DEPTH H filled0 ls a (Suc i)
        (filled, ci div 2, tree_root H (Suc i) (partial_block (Suc i) ls a))"
      using False inv assms(1) next_ci
      by (auto simp: level_inv_def less_Suc_eq simp del: mroot.simps power_Suc)
    ultimately show ?thesis by blast
  qed
qed

text \<open>What the carry of the leaf count does to the blocks.\<close>

lemma block_after_add:
  assumes "odd (Suc (length ls) div 2 ^ i)"
  shows "block i (Suc (length ls) div 2 ^ i - 1) (ls @ [a]) =
    (if even (length ls div 2 ^ i) then partial_block i ls a
     else block i (length ls div 2 ^ i - 1) ls)"
proof -
  let ?n = "length ls" and ?p = "2 ^ i :: nat"
  have suc: "Suc ?n div ?p = (if ?p dvd Suc ?n then Suc (?n div ?p) else ?n div ?p)"
    by (simp add: div_Suc dvd_eq_mod_eq_0)
  show ?thesis
  proof (cases "even (?n div ?p)")
    case True
    then have "Suc ?n div ?p - 1 = ?n div ?p"
      using assms suc by (auto split: if_splits)
    then show ?thesis
      using True length_partial_block_le [of i ls a]
      by (simp add: block_def partial_block_def)
  next
    case False
    then have eq: "Suc ?n div ?p = ?n div ?p"
      using assms suc by (auto split: if_splits)
    have "0 < ?n div ?p"
      using False by (rule odd_pos)
    then obtain k where k: "?n div ?p = Suc k"
      using gr0_conv_Suc by blast
    then have "Suc k * ?p \<le> ?n"
      using div_times_less_eq_dividend [of ?n ?p] by simp
    then show ?thesis
      using False by (simp add: eq k block_def)
  qed
qed

lemma represents_add:
  assumes "DEPTH \<le> 32" "represents DEPTH H t ls" "length ls < 2 ^ DEPTH"
  shows "\<exists>t'. imt_add DEPTH H a t = Some t' \<and> represents DEPTH H t' (ls @ [a])"
proof -
  have rep: "length (filled_subtrees t) = DEPTH" "index t = word_of_nat (length ls)"
    "\<And>i. i < DEPTH \<Longrightarrow> odd (length ls div 2 ^ i) \<Longrightarrow>
      filled_subtrees t ! i = tree_root H i (block i (length ls div 2 ^ i - 1) ls)"
    using assms(2) by (simp_all add: represents_def)
  have "(2::nat) ^ DEPTH \<le> 2 ^ 32"
    using assms(1) by (intro power_increasing) simp_all
  then have idx: "unat (index t) = length ls"
    using assms(3) rep(2) by (simp add: unat_of_nat)
  let ?I = "level_inv DEPTH H (filled_subtrees t) ls a"
  have "\<exists>st. for_each [0..<DEPTH] (imt_level H) (filled_subtrees t, index t, a) = Some st \<and> ?I DEPTH st"
  proof (rule for_each_total [where I = ?I])
    show "?I 0 (filled_subtrees t, index t, a)"
      using rep(1) idx by (simp add: level_inv_def partial_block_def)
  next
    fix i x
    assume "i < DEPTH" "?I i x"
    then show "\<exists>y. imt_level H i x = Some y \<and> ?I (Suc i) y"
      using assms(1) rep(3) by (intro imt_level_inv) auto
  qed
  then obtain filled ci hash where
    run: "for_each [0..<DEPTH] (imt_level H) (filled_subtrees t, index t, a) = Some (filled, ci, hash)"
    and inv: "length filled = DEPTH" "hash = tree_root H DEPTH (partial_block DEPTH ls a)"
    "\<And>j. j < DEPTH \<Longrightarrow> filled ! j =
       (if even (length ls div 2 ^ j) then tree_root H j (partial_block j ls a)
        else filled_subtrees t ! j)"
    by (auto simp: level_inv_def)
  let ?t = "\<lparr>filled_subtrees = filled, root = hash, index = index t + 1\<rparr>"
  have "hash = tree_root H DEPTH (ls @ [a])"
    using inv(2) assms(3) by (simp add: partial_block_def)
  moreover have "filled ! i = tree_root H i (block i (length (ls @ [a]) div 2 ^ i - 1) (ls @ [a]))"
    if "i < DEPTH" "odd (length (ls @ [a]) div 2 ^ i)" for i
    using that inv(3) rep(3) block_after_add [of ls i a] by simp
  ultimately have "represents DEPTH H ?t (ls @ [a])"
    using inv(1) rep(2) by (simp add: represents_def)
  moreover have "imt_add DEPTH H a t = Some ?t"
    using run by (simp add: imt_add_def)
  ultimately show ?thesis by blast
qed

section \<open>The contract of an append-only tree\<close>

locale append_tree =
  fixes new :: "'t option"
    and add :: "bytes \<Rightarrow> 't \<Rightarrow> 't option"
    and root_of :: "'t \<Rightarrow> bytes"
    and holds :: "'t \<Rightarrow> bytes list \<Rightarrow> bool"
    and depth :: nat
    and F :: hash_fun
    and e :: bytes
  assumes new_holds: "\<exists>t. new = Some t \<and> holds t []"
    and add_holds: "holds t ls \<Longrightarrow> length ls < 2 ^ depth \<Longrightarrow>
      \<exists>t'. add a t = Some t' \<and> holds t' (ls @ [a])"
    and root_holds: "holds t ls \<Longrightarrow> root_of t = mroot F e depth ls"
begin

lemma add_holds_Some:
  "holds t ls \<Longrightarrow> length ls < 2 ^ depth \<Longrightarrow> add a t = Some t' \<Longrightarrow> holds t' (ls @ [a])"
  using add_holds [of t ls a] by auto

text \<open>Adding leaves one after the other.\<close>

lemma adds_hold:
  "holds t ls \<Longrightarrow> length ls + length xs \<le> 2 ^ depth \<Longrightarrow>
   \<exists>t'. for_each xs add t = Some t' \<and> holds t' (ls @ xs)"
proof (induction xs arbitrary: t ls)
  case Nil
  then show ?case by simp
next
  case (Cons x xs)
  then obtain t1 where t1: "add x t = Some t1" "holds t1 (ls @ [x])"
    using add_holds [of t ls x] by auto
  with Cons.IH [of t1 "ls @ [x]"] Cons.prems show ?case by auto
qed

lemma new_adds_root:
  assumes "length xs \<le> 2 ^ depth"
  shows "\<exists>t. do { t \<leftarrow> new; for_each xs add t } = Some t \<and> holds t xs \<and> root_of t = mroot F e depth xs"
proof -
  obtain t where t: "new = Some t" "holds t []"
    using new_holds by blast
  with adds_hold [OF t(2), of xs] assms root_holds show ?thesis by auto
qed

text \<open>A path that climbs to the root of the tree starts at one of its leaves, the padding included.\<close>

lemma member_of_root:
  assumes "holds t ls" "\<And>x. length (F x) = 32" "length e = 32" "\<forall>l \<in> set ls. length l = 32"
    and "length path = depth" "\<forall>p \<in> set path. length p = 32" "length leaf = 32"
    and "climb F i path leaf = root_of t"
    and "inj_on F (set (climb_inputs F i path leaf) \<union>
      set (climb_inputs F i (siblings F e depth ls (i mod 2 ^ depth)) (leaf_at e ls (i mod 2 ^ depth))))"
  shows "leaf = leaf_at e ls (i mod 2 ^ depth)"
proof -
  let ?j = "i mod 2 ^ depth"
  let ?ps = "siblings F e depth ls ?j" and ?l = "leaf_at e ls ?j"
  have "climb F i ?ps ?l = climb F ?j ?ps ?l"
    using climb_mod [of F i ?ps ?l] by simp
  also have "\<dots> = mroot F e depth ls"
    by (rule climb_siblings) simp
  finally have "climb F i path leaf = climb F i ?ps ?l"
    using assms(1,8) root_holds by simp
  then have "leaf = ?l \<and> path = ?ps"
    using assms length_siblings_entries [of F e ls]
    by (intro climb_binding [where F = F]) (auto simp: leaf_at_def)
  then show ?thesis ..
qed

end

interpretation imt: append_tree "imt_new 32 H" "imt_add 32 H" root "represents 32 H" 32 H EMPTYDATA
  for H
proof unfold_locales
  show "\<exists>t. imt_new 32 H = Some t \<and> represents 32 H t []"
    by (rule represents_new) simp
next
  fix t ls a
  assume "represents 32 H t ls" "length ls < 2 ^ 32"
  then show "\<exists>t'. imt_add 32 H a t = Some t' \<and> represents 32 H t' (ls @ [a])"
    by (intro represents_add) simp_all
next
  fix t ls
  assume "represents 32 H t ls"
  then show "root t = mroot H EMPTYDATA 32 ls"
    by (simp add: represents_def)
qed

section \<open>Properties\<close>

text \<open>
  Entry \<open>i\<close> of \<open>ZEROES\<close> is the root of an empty tree of depth \<open>i\<close>: the initialiser stays in
  range and every entry up to the depth of the withdrawal tree is set.
\<close>

lemma ZEROES_empty_roots:
  "\<exists>a. ZEROES_init H = Some a \<and> a = List.map (\<lambda>i. tree_root H i []) [0..<WITHDRAWAL_MERKLE_TREE_DEPTH + 1]"
proof -
  obtain a where a: "ZEROES_init H = Some a" "length a = 33" "\<forall>j \<le> 32. a ! j = zero_subtree H j"
    using ZEROES_run by blast
  then have "a = List.map (\<lambda>i. tree_root H i []) [0..<WITHDRAWAL_MERKLE_TREE_DEPTH + 1]"
    by (intro nth_equalityI) (auto simp: WITHDRAWAL_MERKLE_TREE_DEPTH_def simp del: upt_Suc)
  with a show ?thesis by blast
qed

text \<open>
  C13. Adding leaves to a fresh incremental tree, up to its capacity, never panics, and its root is
  the Merkle root of exactly the leaves added, in order, padded with the empty leaf.
\<close>

theorem imt_root_of_added_leaves:
  assumes "length leaves \<le> 2 ^ 32"
  shows "\<exists>t. do { t \<leftarrow> imt_new 32 H; for_each leaves (imt_add 32 H) t } = Some t \<and>
    root t = tree_root H 32 leaves \<and> index t = word_of_nat (length leaves)"
  using imt.new_adds_root [OF assms, of H] by (auto simp: represents_def)

theorem imt_root_of_added_leaves_witness:
  "\<exists>t. do { t \<leftarrow> imt_new 32 id; for_each [[1], [2], [3]] (imt_add 32 id) t } = Some t \<and>
    root t = tree_root id 32 [[1], [2], [3]] \<and> index t = 3"
  using imt_root_of_added_leaves [of "[[1], [2], [3]]" id] by simp

end
