(* ===== verification/Bridge_Circuit.thy ===== *)
theory Bridge_Circuit
  imports Commitment_Circuit Incremental_Merkle
begin

text \<open>
  The bridge circuit, \<open>circuits/src/bridge.rs\<close>: the readers of block headers, withdrawal proofs and
  the verifier's challenge, and \<open>bridge_proof\<close> itself. The constants are those of
  \<open>circuits/src/constants.rs\<close>. A run that returns is related to an abstract machine, whose
  state is the lists of block hashes and withdrawals accumulated so far and whose step is one
  period: \<open>rounds_refine\<close> is the simulation.
\<close>

section \<open>Constants\<close>

definition CLAIM_MERKLE_TREE_DEPTH :: nat where
  "CLAIM_MERKLE_TREE_DEPTH = 4"

definition MAX_BLOCK_HANDLE_OPS :: u32 where
  "MAX_BLOCK_HANDLE_OPS = 3"

definition NUM_ROUNDS :: nat where
  "NUM_ROUNDS = 4"

definition BRIDGE_AMOUNT_SATS :: u64 where
  "BRIDGE_AMOUNT_SATS = 100000000"

definition PERIOD_CLAIM_MT_ROOTS :: "bytes list" where
  "PERIOD_CLAIM_MT_ROOTS = [
    [240, 46, 113, 222, 220, 199, 72, 92, 215, 201, 134, 161, 55, 159, 164, 12, 204, 45, 18,
     104, 6, 128, 245, 179, 50, 80, 93, 74, 246, 165, 14, 118],
    [239, 220, 20, 230, 23, 32, 160, 104, 119, 219, 5, 97, 146, 59, 85, 167, 94, 55, 204, 28,
     162, 62, 188, 18, 36, 214, 20, 142, 51, 46, 207, 114],
    [141, 123, 155, 230, 74, 20, 62, 246, 233, 108, 174, 133, 94, 36, 36, 183, 144, 213, 183,
     90, 207, 74, 237, 237, 202, 99, 231, 11, 94, 42, 133, 54],
    [84, 157, 96, 85, 221, 69, 198, 190, 169, 228, 62, 218, 157, 72, 19, 242, 96, 134, 182, 183,
     233, 25, 150, 14, 104, 65, 96, 98, 85, 89, 114, 191]]"

section \<open>Block headers\<close>

text \<open>Version, Merkle root, time, bits and nonce.\<close>

type_synonym header_without_prev = "i32 \<times> bytes \<times> u32 \<times> u32 \<times> u32"

definition header_bits :: "header_without_prev \<Rightarrow> u32" where
  "header_bits = (\<lambda>(version, merkle_root, time, bits, nonce). bits)"

definition read_header_except_prev_blockhash ::
  "'s environment \<Rightarrow> 's \<Rightarrow> (header_without_prev \<times> 's) option" where
  "read_header_except_prev_blockhash E s = do {
     (version, s) \<leftarrow> read_i32 E s;
     (merkle_root, s) \<leftarrow> read_32bytes E s;
     (time, s) \<leftarrow> read_u32 E s;
     (bits, s) \<leftarrow> read_u32 E s;
     (nonce, s) \<leftarrow> read_u32 E s;
     Some ((version, merkle_root, time, bits, nonce), s)
   }"

definition read_header_except_root_and_calculate_blockhash ::
  "hash_fun \<Rightarrow> 's environment \<Rightarrow> bytes \<Rightarrow> 's \<Rightarrow> (bytes \<times> 's) option" where
  "read_header_except_root_and_calculate_blockhash H E mt_root s = do {
     (version, s) \<leftarrow> read_i32 E s;
     (prev_blockhash, s) \<leftarrow> read_32bytes E s;
     (time, s) \<leftarrow> read_u32 E s;
     (bits, s) \<leftarrow> read_u32 E s;
     (nonce, s) \<leftarrow> read_u32 E s;
     Some (double_sha256_hash H [u32_le version, prev_blockhash, mt_root, u32_le time,
       u32_le bits, u32_le nonce], s)
   }"

definition calculate_next_block_hash :: "hash_fun \<Rightarrow> bytes \<Rightarrow> header_without_prev \<Rightarrow> bytes" where
  "calculate_next_block_hash H prev_block_hash = (\<lambda>(version, merkle_root, time, bits, nonce).
     double_sha256_hash H [u32_le version, prev_block_hash, merkle_root, u32_le time,
       u32_le bits, u32_le nonce])"

text \<open>
  The subtraction \<open>n - max_block_handle_ops\<close> wraps in the guest, which is built without overflow
  checks.
\<close>

definition add_block ::
  "hash_fun \<Rightarrow> 's environment \<Rightarrow> u32 \<Rightarrow> u32 \<Rightarrow> nat \<Rightarrow>
   u256 \<times> bytes \<times> bytes \<times> incremental_merkle_tree \<times> 's \<Rightarrow>
   (u256 \<times> bytes \<times> bytes \<times> incremental_merkle_tree \<times> 's) option" where
  "add_block H E n max_block_handle_ops i =
    (\<lambda>(total_work, lc_block_hash, curr_prev_block_hash, imt, s). do {
       (header, s) \<leftarrow> read_header_except_prev_blockhash E s;
       let lc_block_hash =
         (if word_of_nat i = n - max_block_handle_ops then curr_prev_block_hash else lc_block_hash);
       let curr_prev_block_hash = calculate_next_block_hash H curr_prev_block_hash header;
       imt \<leftarrow> imt_add BLOCKHASH_MERKLE_TREE_DEPTH H curr_prev_block_hash imt;
       total_work \<leftarrow> validate_threshold_and_add_work (u32_le (header_bits header))
         curr_prev_block_hash total_work;
       Some (total_work, lc_block_hash, curr_prev_block_hash, imt, s)
     })"

definition read_blocks_and_add_to_merkle_tree ::
  "hash_fun \<Rightarrow> 's environment \<Rightarrow> bytes \<Rightarrow> incremental_merkle_tree \<Rightarrow> u32 \<Rightarrow> 's \<Rightarrow>
   ((u256 \<times> bytes \<times> bytes) \<times> incremental_merkle_tree \<times> 's) option" where
  "read_blocks_and_add_to_merkle_tree H E start_prev_block_hash imt max_block_handle_ops s = do {
     (n, s) \<leftarrow> read_u32 E s;
     let total_work = 0;
     let curr_prev_block_hash = start_prev_block_hash;
     let lc_block_hash = replicate 32 0;
     (total_work, lc_block_hash, curr_prev_block_hash, imt, s) \<leftarrow>
       for_each [0..<unat n] (add_block H E n max_block_handle_ops)
         (total_work, lc_block_hash, curr_prev_block_hash, imt, s);
     Some ((total_work, lc_block_hash, curr_prev_block_hash), imt, s)
   }"

definition read_blocks_and_calculate_work ::
  "hash_fun \<Rightarrow> 's environment \<Rightarrow> bytes \<Rightarrow> 's \<Rightarrow> (u256 \<times> 's) option" where
  "read_blocks_and_calculate_work H E start_prev_block_hash s = do {
     (num_blocks, s) \<leftarrow> read_u32 E s;
     (total_work, curr_prev_block_hash, s) \<leftarrow>
       for_each [0..<unat num_blocks] (\<lambda>_ (total_work, curr_prev_block_hash, s). do {
         (header, s) \<leftarrow> read_header_except_prev_blockhash E s;
         let curr_prev_block_hash = calculate_next_block_hash H curr_prev_block_hash header;
         total_work \<leftarrow> validate_threshold_and_add_work (u32_le (header_bits header))
           curr_prev_block_hash total_work;
         Some (total_work, curr_prev_block_hash, s)
       }) (0, start_prev_block_hash, s);
     Some (total_work, s)
   }"

section \<open>Withdrawals, light client and challenge\<close>

definition read_withdrawal_proof ::
  "hash_fun \<Rightarrow> 's environment \<Rightarrow> bytes \<Rightarrow> incremental_merkle_tree \<times> 's \<Rightarrow>
   (incremental_merkle_tree \<times> 's) option" where
  "read_withdrawal_proof H E block_mt_root = (\<lambda>(imt, s). do {
     (output_address, s) \<leftarrow> read_32bytes E s;
     (txid, s) \<leftarrow> read_tx_and_calculate_txid H E None
       (Some (Some BRIDGE_AMOUNT_SATS, output_address)) s;
     (block_tx_mt_root, s) \<leftarrow> read_and_verify_bitcoin_merkle_path H E txid s;
     (calculated_blockhash, s) \<leftarrow>
       read_header_except_root_and_calculate_blockhash H E block_tx_mt_root s;
     (proof_root, s) \<leftarrow>
       read_merkle_tree_proof BLOCKHASH_MERKLE_TREE_DEPTH H E calculated_blockhash None s;
     if block_mt_root \<noteq> proof_root then None
     else do {
       imt \<leftarrow> imt_add WITHDRAWAL_MERKLE_TREE_DEPTH H output_address imt;
       Some (imt, s)
     }
   })"

definition read_and_verify_lc_proof :: "'s environment \<Rightarrow> bytes \<Rightarrow> bytes \<Rightarrow> 's \<Rightarrow> 's option" where
  "read_and_verify_lc_proof E lc_blockhash withdrawal_mt_root s = do {
     (read_lc_blockhash, s) \<leftarrow> read_32bytes E s;
     if read_lc_blockhash \<noteq> lc_blockhash then None
     else do {
       (read_withdrawal_mt_root, s) \<leftarrow> read_32bytes E s;
       if read_withdrawal_mt_root \<noteq> withdrawal_mt_root then None else Some s
     }
   }"

definition verify_challenge_proof :: "bytes list \<Rightarrow> bool" where
  "verify_challenge_proof proof = True"

definition read_and_verify_verifiers_challenge_proof ::
  "'s environment \<Rightarrow> 's \<Rightarrow> ((u256 \<times> bytes \<times> u8) \<times> 's) option" where
  "read_and_verify_verifiers_challenge_proof E s = do {
     (p0, s) \<leftarrow> read_32bytes E s;
     (p1, s) \<leftarrow> read_32bytes E s;
     (p2, s) \<leftarrow> read_32bytes E s;
     (p3, s) \<leftarrow> read_32bytes E s;
     let mock_proof = [p0, p1, p2, p3];
     (lc_cutoff_blockhash, s) \<leftarrow> read_32bytes E s;
     (max_pow_bytes, s) \<leftarrow> read_32bytes E s;
     (period_num, s) \<leftarrow> read_u32 E s;
     let max_pow_u256 = u256_from_le_bytes max_pow_bytes;
     if \<not> verify_challenge_proof mock_proof then None
     else Some ((max_pow_u256, lc_cutoff_blockhash, ucast period_num), s)
   }"

section \<open>The circuit\<close>

record bridge_state =
  blockhashes_mt :: incremental_merkle_tree
  withdrawal_mt :: incremental_merkle_tree
  total_pow :: u256
  cur_block_hash :: bytes
  lc_blockhash :: bytes
  total_num_withdrawals :: u32
  last_period :: nat

text \<open>The loop over the periods, whose \<open>break\<close> keeps the number of the period.\<close>

fun bridge_rounds ::
  "hash_fun \<Rightarrow> 's environment \<Rightarrow> nat list \<Rightarrow> bridge_state \<times> 's \<Rightarrow> (bridge_state \<times> 's) option" where
  "bridge_rounds H E [] (st, s) = Some (st, s)"
| "bridge_rounds H E (period_count # periods) (st, s) = do {
     ((work, lc, cur), bmt, s) \<leftarrow> read_blocks_and_add_to_merkle_tree H E (cur_block_hash st)
       (blockhashes_mt st) MAX_BLOCK_HANDLE_OPS s;
     (num_withdrawals, s) \<leftarrow> read_u32 E s;
     (wmt, s) \<leftarrow> for_each [0..<unat num_withdrawals] (\<lambda>_. read_withdrawal_proof H E (root bmt))
       (withdrawal_mt st, s);
     let st = st\<lparr>blockhashes_mt := bmt, withdrawal_mt := wmt, total_pow := total_pow st + work,
       cur_block_hash := cur, lc_blockhash := lc,
       total_num_withdrawals := total_num_withdrawals st + num_withdrawals\<rparr>;
     (do_you_want_to_end_proving, s) \<leftarrow> read_u32 E s;
     if do_you_want_to_end_proving = 1 then Some (st\<lparr>last_period := period_count\<rparr>, s)
     else bridge_rounds H E periods (st, s)
   }"

text \<open>The local function \<open>win\<close> has an empty body.\<close>

definition win :: unit where
  "win = ()"

definition bridge_proof ::
  "hash_fun \<Rightarrow> ('p, 'k) curve \<Rightarrow> 's environment \<Rightarrow> 's \<Rightarrow> ((u256 \<times> bytes \<times> u8) \<times> 's) option" where
  "bridge_proof H C E s = do {
     bmt \<leftarrow> imt_new BLOCKHASH_MERKLE_TREE_DEPTH H;
     wmt \<leftarrow> imt_new WITHDRAWAL_MERKLE_TREE_DEPTH H;
     (cur, s) \<leftarrow> read_32bytes E s;
     (st, s) \<leftarrow> bridge_rounds H E [0..<NUM_ROUNDS]
       (\<lparr>blockhashes_mt = bmt, withdrawal_mt = wmt, total_pow = 0, cur_block_hash = cur,
         lc_blockhash = replicate 32 0, total_num_withdrawals = 0, last_period = 0\<rparr>, s);
     ((verifiers_pow, verifiers_last_finalized_blockhash, verifiers_challenge_period), s) \<leftarrow>
       read_and_verify_verifiers_challenge_proof E s;
     (k_deep_work, s) \<leftarrow> read_blocks_and_calculate_work H E (cur_block_hash st) s;
     let total_pow = total_pow st + k_deep_work;
     _ \<leftarrow> (if verifiers_challenge_period \<noteq> word_of_nat (last_period st) then
            (if verifiers_pow < total_pow then Some win else None)
          else Some ());
     _ \<leftarrow> (if verifiers_last_finalized_blockhash \<noteq> cur_block_hash st then
            (if verifiers_pow < total_pow then Some win else None)
          else Some ());
     s \<leftarrow> read_and_verify_lc_proof E (lc_blockhash st) (root (withdrawal_mt st)) s;
     ((commit_taproot_addr, claim_proof_tree_leaf), s) \<leftarrow>
       read_preimages_and_calculate_commit_taproot H C E s;
     (commit_taproot_txid, s) \<leftarrow>
       read_tx_and_calculate_txid H E None (Some (None, commit_taproot_addr)) s;
     (vout, s) \<leftarrow> read_u32 E s;
     (reveal_txid, s) \<leftarrow>
       read_tx_and_calculate_txid H E (Some (commit_taproot_txid, vout)) None s;
     (calculated_merkle_root, s) \<leftarrow> read_and_verify_bitcoin_merkle_path H E reveal_txid s;
     (calculated_blockhash, s) \<leftarrow>
       read_header_except_root_and_calculate_blockhash H E calculated_merkle_root s;
     (proof_root, s) \<leftarrow>
       read_merkle_tree_proof BLOCKHASH_MERKLE_TREE_DEPTH H E calculated_blockhash None s;
     if root (blockhashes_mt st) \<noteq> proof_root then None
     else do {
       claim_root \<leftarrow> array_get PERIOD_CLAIM_MT_ROOTS (unat verifiers_challenge_period);
       (claim_proof_root, s) \<leftarrow> read_merkle_tree_proof CLAIM_MERKLE_TREE_DEPTH H E
         claim_proof_tree_leaf (Some (total_num_withdrawals st)) s;
       if claim_root \<noteq> claim_proof_root then None
       else Some ((verifiers_pow, verifiers_last_finalized_blockhash, verifiers_challenge_period), s)
     }
   }"

section \<open>What a run has checked\<close>

text \<open>A chain of headers on top of a block, its hashes and its work.\<close>

fun chain_hashes :: "hash_fun \<Rightarrow> bytes \<Rightarrow> header_without_prev list \<Rightarrow> bytes list" where
  "chain_hashes H prev [] = []"
| "chain_hashes H prev (h # hs) =
    (let b = calculate_next_block_hash H prev h in b # chain_hashes H b hs)"

definition header_valid :: "bytes \<Rightarrow> header_without_prev \<Rightarrow> bool" where
  "header_valid hash h \<longleftrightarrow> (case decode_compact_target (u32_le (header_bits h)) of
     None \<Rightarrow> False | Some target \<Rightarrow> from_le hash \<le> from_le target)"

definition header_work :: "header_without_prev \<Rightarrow> u256" where
  "header_work h = (case decode_compact_target (u32_le (header_bits h)) of
     None \<Rightarrow> 0 | Some target \<Rightarrow> calculate_work target)"

definition chain_valid :: "hash_fun \<Rightarrow> bytes \<Rightarrow> header_without_prev list \<Rightarrow> bool" where
  "chain_valid H prev hs \<longleftrightarrow> list_all2 header_valid (chain_hashes H prev hs) hs"

definition chain_work :: "header_without_prev list \<Rightarrow> u256" where
  "chain_work hs = sum_list (List.map header_work hs)"

definition chain_tip :: "hash_fun \<Rightarrow> bytes \<Rightarrow> header_without_prev list \<Rightarrow> bytes" where
  "chain_tip H prev hs = last (prev # chain_hashes H prev hs)"

text \<open>The block \<open>m\<close> before the tip, or zeros when the chain is shorter than that.\<close>

definition chain_before_tip :: "hash_fun \<Rightarrow> nat \<Rightarrow> bytes \<Rightarrow> header_without_prev list \<Rightarrow> bytes" where
  "chain_before_tip H m prev hs =
    (if 0 < m \<and> m \<le> length hs then (prev # chain_hashes H prev hs) ! (length hs - m)
     else replicate 32 0)"

lemma length_chain_hashes [simp]: "length (chain_hashes H prev hs) = length hs"
  by (induction hs arbitrary: prev) (simp_all add: Let_def)

lemma chain_hashes_snoc:
  "chain_hashes H prev (hs @ [h]) =
   chain_hashes H prev hs @ [calculate_next_block_hash H (chain_tip H prev hs) h]"
  by (induction hs arbitrary: prev) (auto simp: chain_tip_def Let_def)

lemma chain_snoc:
  "chain_tip H prev (hs @ [h]) = calculate_next_block_hash H (chain_tip H prev hs) h"
  "chain_work (hs @ [h]) = chain_work hs + header_work h"
  "chain_valid H prev (hs @ [h]) \<longleftrightarrow> chain_valid H prev hs \<and>
     header_valid (calculate_next_block_hash H (chain_tip H prev hs) h) h"
  by (simp_all add: chain_tip_def [of H prev "hs @ [h]"] chain_work_def chain_valid_def
      chain_hashes_snoc list_all2_append)

lemma chain_Nil [simp]:
  "chain_tip H prev [] = prev" "chain_work [] = 0" "chain_valid H prev []"
  by (simp_all add: chain_tip_def chain_work_def chain_valid_def)

lemma validate_threshold_and_add_work_sound:
  assumes "validate_threshold_and_add_work (u32_le (header_bits h)) hash w = Some w'"
    and "length hash = 32"
  shows "header_valid hash h \<and> w' = w + header_work h"
proof -
  obtain target where target: "decode_compact_target (u32_le (header_bits h)) = Some target"
    "check_hash_valid hash target = Some ()" "w' = w + calculate_work target"
    using assms(1) by (auto simp: validate_threshold_and_add_work_def bind_eq_Some_conv Let_def)
  have "length target = 32"
    using target(1) by (rule decode_compact_target_length [rotated]) simp
  with target(2) assms(2) have "from_le hash \<le> from_le target"
    using check_bytes_prefix [of 32 hash target] by (simp add: check_hash_valid_def)
  with target show ?thesis
    by (simp add: header_valid_def header_work_def)
qed

lemma length_next_block_hash [simp]:
  "hash32 H \<Longrightarrow> length (calculate_next_block_hash H prev h) = 32"
  by (simp add: calculate_next_block_hash_def split: prod.splits)

text \<open>One block, and the loop over them.\<close>

lemma add_block_sound:
  assumes "hash32 H"
    and "add_block H E n m i (w, lc, cur, t, s) = Some (w', lc', cur', t', s')"
  shows "\<exists>h. cur' = calculate_next_block_hash H cur h \<and> header_valid cur' h \<and>
    w' = w + header_work h \<and> imt_add 32 H cur' t = Some t' \<and>
    lc' = (if word_of_nat i = n - m then cur else lc)"
proof -
  obtain h s1 where "read_header_except_prev_blockhash E s = Some (h, s1)"
    and cur: "cur' = calculate_next_block_hash H cur h"
    and t: "imt_add 32 H cur' t = Some t'"
    and w: "validate_threshold_and_add_work (u32_le (header_bits h)) cur' w = Some w'"
    and lc: "lc' = (if word_of_nat i = n - m then cur else lc)"
    using assms(2)
    by (auto simp: add_block_def bind_eq_Some_conv Let_def BLOCKHASH_MERKLE_TREE_DEPTH_def)
  from validate_threshold_and_add_work_sound [OF w] assms(1) cur t lc show ?thesis
    by (intro exI [of _ h]) simp
qed

lemma word_sub_index:
  fixes n m :: u32
  shows "unat (n - m) < unat n \<longleftrightarrow> m \<noteq> 0 \<and> unat m \<le> unat n"
    and "unat m \<le> unat n \<Longrightarrow> unat (n - m) = unat n - unat m"
proof -
  have lt: "unat m < 2 ^ 32" "unat n < 2 ^ 32"
    using unat_less_pow [of m] unat_less_pow [of n] by simp_all
  have sub: "unat (n - m) = (if unat m \<le> unat n then unat n - unat m else unat n + 2 ^ 32 - unat m)"
    using lt unat_sub_if_size [of n m] by (simp add: word_size)
  then show "unat m \<le> unat n \<Longrightarrow> unat (n - m) = unat n - unat m"
    by simp
  have "m \<noteq> 0 \<longleftrightarrow> 0 < unat m"
    by (simp add: unat_gt_0)
  then show "unat (n - m) < unat n \<longleftrightarrow> m \<noteq> 0 \<and> unat m \<le> unat n"
    using lt sub by auto
qed

lemma add_blocks_sound:
  fixes E :: "'s environment"
  assumes "hash32 H"
    and "for_each [0..<unat n] (add_block H E n m) (0, replicate 32 0, start, t, s) =
      Some (w, lc, tip, t', s')"
  shows "\<exists>hs. length hs = unat n \<and> chain_valid H start hs \<and> w = chain_work hs \<and>
    tip = chain_tip H start hs \<and> lc = chain_before_tip H (unat m) start hs \<and>
    for_each (chain_hashes H start hs) (imt_add 32 H) t = Some t'"
proof -
  define I where "I = (\<lambda>i (st :: u256 \<times> bytes \<times> bytes \<times> incremental_merkle_tree \<times> 's).
    case st of (w, lc, cur, t1, s1) \<Rightarrow> \<exists>hs. length hs = i \<and> chain_valid H start hs \<and>
      w = chain_work hs \<and> cur = chain_tip H start hs \<and>
      lc = (if unat (n - m) < i then (start # chain_hashes H start hs) ! unat (n - m)
            else replicate 32 0) \<and>
      for_each (chain_hashes H start hs) (imt_add 32 H) t = Some t1)"
  have "I (unat n) (w, lc, tip, t', s')"
    using assms(2)
  proof (rule for_each_invariant)
    show "I 0 (0, replicate 32 0, start, t, s)" by (simp add: I_def)
  next
    fix i x y
    assume i: "i < unat n" and "I i x" and run: "add_block H E n m i x = Some y"
    obtain w1 lc1 cur1 t1 s1 where x: "x = (w1, lc1, cur1, t1, s1)" by (metis prod_cases5)
    obtain w2 lc2 cur2 t2 s2 where y: "y = (w2, lc2, cur2, t2, s2)" by (metis prod_cases5)
    from \<open>I i x\<close> x obtain hs where hs: "length hs = i" "chain_valid H start hs" "w1 = chain_work hs"
      "cur1 = chain_tip H start hs"
      "lc1 = (if unat (n - m) < i then (start # chain_hashes H start hs) ! unat (n - m)
            else replicate 32 0)"
      "for_each (chain_hashes H start hs) (imt_add 32 H) t = Some t1"
      by (auto simp: I_def)
    obtain h where h: "cur2 = calculate_next_block_hash H cur1 h" "header_valid cur2 h"
      "w2 = w1 + header_work h" "imt_add 32 H cur2 t1 = Some t2"
      "lc2 = (if word_of_nat i = n - m then cur1 else lc1)"
      using add_block_sound [OF assms(1) run [unfolded x y]] by blast
    have "(word_of_nat i = n - m) = (i = unat (n - m))"
      using i unat_less_pow [of n] by (auto simp: word_unat_eq_iff unat_of_nat)
    moreover have "chain_tip H start hs = (start # chain_hashes H start hs) ! i"
      using hs(1) by (metis chain_tip_def diff_Suc_1 last_conv_nth length_Cons length_chain_hashes
          list.distinct(1))
    ultimately have "lc2 = (if unat (n - m) < Suc i
        then (start # chain_hashes H start (hs @ [h])) ! unat (n - m) else replicate 32 0)"
      using h(5) hs(1,4,5) by (auto simp: chain_hashes_snoc nth_append nth_Cons' less_Suc_eq)
    then show "I (Suc i) y"
      using hs h unfolding I_def y
      by (auto intro!: exI [of _ "hs @ [h]"] simp: chain_snoc chain_hashes_snoc for_each_append)
  qed
  then obtain hs where hs: "length hs = unat n" "chain_valid H start hs" "w = chain_work hs"
    "tip = chain_tip H start hs"
    "lc = (if unat (n - m) < unat n then (start # chain_hashes H start hs) ! unat (n - m)
            else replicate 32 0)"
    "for_each (chain_hashes H start hs) (imt_add 32 H) t = Some t'"
    by (auto simp: I_def)
  moreover have "lc = chain_before_tip H (unat m) start hs"
  proof (cases "unat (n - m) < unat n")
    case True
    then have "m \<noteq> 0" "unat m \<le> unat n"
      using word_sub_index(1) [of n m] by simp_all
    with True hs(1,5) show ?thesis
      by (simp add: chain_before_tip_def unat_gt_0 word_sub_index(2))
  next
    case False
    then have "\<not> (0 < unat m \<and> unat m \<le> unat n)"
      using word_sub_index(1) [of n m] by (auto simp: unat_gt_0)
    with False hs(1,5) show ?thesis
      by (auto simp: chain_before_tip_def)
  qed
  ultimately show ?thesis by blast
qed

lemma read_blocks_and_calculate_work_sound:
  fixes E :: "'s environment"
  assumes "hash32 H" "read_blocks_and_calculate_work H E start s = Some (w, s')"
  shows "\<exists>hs. chain_valid H start hs \<and> w = chain_work hs"
proof -
  define I where "I = (\<lambda>i (st :: u256 \<times> bytes \<times> 's). \<exists>hs. length hs = i \<and> chain_valid H start hs \<and>
    fst st = chain_work hs \<and> fst (snd st) = chain_tip H start hs)"
  let ?step = "\<lambda>_ (total_work, curr, s). do {
         (header, s) \<leftarrow> read_header_except_prev_blockhash E s;
         let curr = calculate_next_block_hash H curr header;
         total_work \<leftarrow> validate_threshold_and_add_work (u32_le (header_bits header)) curr total_work;
         Some (total_work, curr, s) }"
  obtain n s0 tip where "for_each [0..<unat (n :: u32)] ?step (0, start, s0) = Some (w, tip, s')"
    using assms(2) by (auto simp: read_blocks_and_calculate_work_def bind_eq_Some_conv)
  then have "I (unat n) (w, tip, s')"
  proof (rule for_each_invariant)
    show "I 0 (0, start, s0)" by (simp add: I_def)
  next
    fix i x y
    assume "I i x" and run: "?step i x = Some y"
    obtain w1 c1 s1 w2 c2 s2 where xy: "x = (w1, c1, s1)" "y = (w2, c2, s2)"
      by (metis prod_cases3)
    from \<open>I i x\<close> xy obtain hs where hs: "length hs = i" "chain_valid H start hs"
      "w1 = chain_work hs" "c1 = chain_tip H start hs"
      by (auto simp: I_def)
    from run xy obtain h where h: "c2 = calculate_next_block_hash H c1 h"
      and "validate_threshold_and_add_work (u32_le (header_bits h)) c2 w1 = Some w2"
      by (auto simp: bind_eq_Some_conv Let_def)
    then have "header_valid c2 h" "w2 = w1 + header_work h"
      using validate_threshold_and_add_work_sound assms(1) by auto
    with h hs xy show "I (Suc i) y"
      by (auto simp: I_def chain_snoc intro!: exI [of _ "hs @ [h]"])
  qed
  then show ?thesis by (auto simp: I_def)
qed

text \<open>
  A transaction is included under the root of a tree of block hashes: a path of transactions
  leads to the Merkle root of some header, whose hash a path of block hashes leads to that root.
\<close>

definition tx_included :: "hash_fun \<Rightarrow> bytes \<Rightarrow> transaction \<Rightarrow> bool" where
  "tx_included H block_root tx \<longleftrightarrow>
     (\<exists>tx_idx tx_path (version :: i32) prev (time :: u32) (bits :: u32) (nonce :: u32)
        block_idx block_path.
        (\<forall>p \<in> set tx_path. length p = 32) \<and> length prev = 32 \<and>
        length block_path = 32 \<and> (\<forall>p \<in> set block_path. length p = 32) \<and>
        climb H block_idx block_path
          (calculate_next_block_hash H prev
            (version, climb (\<lambda>x. H (H x)) tx_idx tx_path (H (H (tx_bytes tx))), time, bits, nonce))
        = block_root)"

definition withdrawal_proved :: "hash_fun \<Rightarrow> bytes \<Rightarrow> bytes \<Rightarrow> bool" where
  "withdrawal_proved H block_root address \<longleftrightarrow>
     (\<exists>tx. wf_tx tx \<and> pays (Some (Some BRIDGE_AMOUNT_SATS, address)) (tx_outputs tx) \<and>
        tx_included H block_root tx)"

context sized_reads
begin

lemma header_with_root_sound:
  assumes "read_header_except_root_and_calculate_blockhash H E mt_root s = Some (hash, s')"
  shows "\<exists>version prev time bits nonce. length prev = 32 \<and>
    hash = calculate_next_block_hash H prev (version, mt_root, time, bits, nonce)"
  using assms
  by (auto simp: read_header_except_root_and_calculate_blockhash_def calculate_next_block_hash_def
      bind_eq_Some_conv dest!: read_32bytes_length; blast)

text \<open>The three reads that show a transaction in a block below a root.\<close>

lemma inclusion_sound:
  assumes txid: "txid = H (H (tx_bytes tx))"
    and "read_and_verify_bitcoin_merkle_path H E txid s1 = Some (mt_root, s2)"
    and "read_header_except_root_and_calculate_blockhash H E mt_root s2 = Some (hash, s3)"
    and "read_merkle_tree_proof 32 H E hash None s3 = Some (block_root, s4)"
  shows "tx_included H block_root tx"
proof -
  obtain tx_idx :: u32 and tx_path where 1: "\<forall>p \<in> set tx_path. length p = 32"
    "mt_root = climb (\<lambda>x. H (H x)) (unat tx_idx) tx_path txid"
    using bitcoin_merkle_path_sound [OF assms(2)] by blast
  obtain version prev time bits nonce where 2: "length prev = 32"
    "hash = calculate_next_block_hash H prev (version, mt_root, time, bits, nonce)"
    using header_with_root_sound [OF assms(3)] by blast
  obtain i :: u32 and path where 3: "length path = 32" "\<forall>p \<in> set path. length p = 32"
    "block_root = climb H (unat i) path hash"
    using merkle_tree_proof_sound [OF assms(4)] by blast
  show ?thesis
    unfolding tx_included_def using 1 2 3 txid by blast
qed

lemma withdrawal_proof_sound:
  assumes "read_withdrawal_proof H E block_root (t, s) = Some (t', s')"
  shows "\<exists>address. length address = 32 \<and> withdrawal_proved H block_root address \<and>
    imt_add 32 H address t = Some t'"
proof -
  obtain address s1 where address: "read_32bytes E s = Some (address, s1)"
    using assms by (auto simp: read_withdrawal_proof_def bind_eq_Some_conv)
  obtain txid s2 mt_root s3 hash s4 proof_root s5 where
    tx: "read_tx_and_calculate_txid H E None (Some (Some BRIDGE_AMOUNT_SATS, address)) s1 =
      Some (txid, s2)" and
    incl: "read_and_verify_bitcoin_merkle_path H E txid s2 = Some (mt_root, s3)"
    "read_header_except_root_and_calculate_blockhash H E mt_root s3 = Some (hash, s4)"
    "read_merkle_tree_proof 32 H E hash None s4 = Some (proof_root, s5)" and
    "block_root = proof_root" "imt_add 32 H address t = Some t'"
    using assms address
    by (auto simp: read_withdrawal_proof_def bind_eq_Some_conv BLOCKHASH_MERKLE_TREE_DEPTH_def
        WITHDRAWAL_MERKLE_TREE_DEPTH_def split: if_splits)
  moreover obtain tx where "wf_tx tx" "txid = H (H (tx_bytes tx))"
    "pays (Some (Some BRIDGE_AMOUNT_SATS, address)) (tx_outputs tx)"
    using read_tx_sound [OF tx] by blast
  ultimately show ?thesis
    using read_32bytes_length [OF address] inclusion_sound [OF _ incl]
    unfolding withdrawal_proved_def by blast
qed

lemma withdrawal_proofs_sound:
  assumes "for_each [0..<n] (\<lambda>_. read_withdrawal_proof H E block_root) (t, s) = Some (t', s')"
  shows "\<exists>ws. length ws = n \<and> (\<forall>w \<in> set ws. length w = 32 \<and> withdrawal_proved H block_root w) \<and>
    for_each ws (imt_add 32 H) t = Some t'"
proof -
  define I where "I = (\<lambda>i (st :: incremental_merkle_tree \<times> 's). \<exists>ws. length ws = i \<and>
    (\<forall>w \<in> set ws. length w = 32 \<and> withdrawal_proved H block_root w) \<and>
    for_each ws (imt_add 32 H) t = Some (fst st))"
  have "I n (t', s')"
    using assms
  proof (rule for_each_invariant)
    show "I 0 (t, s)" by (simp add: I_def)
  next
    fix i x y
    assume "I i x" and run: "read_withdrawal_proof H E block_root x = Some y"
    obtain ws where ws: "length ws = i" "\<forall>w \<in> set ws. length w = 32 \<and> withdrawal_proved H block_root w"
      "for_each ws (imt_add 32 H) t = Some (fst x)"
      using \<open>I i x\<close> by (auto simp: I_def)
    obtain address where "length address = 32" "withdrawal_proved H block_root address"
      "imt_add 32 H address (fst x) = Some (fst y)"
      using withdrawal_proof_sound [of H block_root "fst x" "snd x" "fst y" "snd y"] run by auto
    with ws show "I (Suc i) y"
      by (auto simp: I_def for_each_append intro!: exI [of _ "ws @ [address]"])
  qed
  then show ?thesis by (auto simp: I_def)
qed

end

section \<open>The abstract machine\<close>

text \<open>
  The claim a run builds up: the block hashes and the withdrawals, with the work, the tip and the
  light-client block that follow from them. A step is one period: headers on top of the tip, then
  withdrawals that are proved under the root of all block hashes so far. The trees hold at most
  \<open>2 ^ 32\<close> leaves; what a step says of their roots is for claims of that size.
\<close>

record claim_state =
  claim_blocks :: "bytes list"
  claim_withdrawals :: "bytes list"
  claim_work :: u256
  claim_tip :: bytes
  claim_lc :: bytes

definition initial_claim :: "bytes \<Rightarrow> claim_state" where
  "initial_claim start = \<lparr>claim_blocks = [], claim_withdrawals = [], claim_work = 0,
     claim_tip = start, claim_lc = replicate 32 0\<rparr>"

inductive period_step :: "hash_fun \<Rightarrow> claim_state \<Rightarrow> claim_state \<Rightarrow> bool" for H where
  period: "chain_valid H (claim_tip a) hs \<Longrightarrow> length hs < 2 ^ 32 \<Longrightarrow> length ws < 2 ^ 32 \<Longrightarrow>
    blocks = claim_blocks a @ chain_hashes H (claim_tip a) hs \<Longrightarrow>
    (length blocks \<le> 2 ^ 32 \<longrightarrow>
      (\<forall>w \<in> set ws. length w = 32 \<and> withdrawal_proved H (tree_root H 32 blocks) w)) \<Longrightarrow>
    period_step H a
      \<lparr>claim_blocks = blocks, claim_withdrawals = claim_withdrawals a @ ws,
       claim_work = claim_work a + chain_work hs, claim_tip = chain_tip H (claim_tip a) hs,
       claim_lc = chain_before_tip H 3 (claim_tip a) hs\<rparr>"

inductive_cases period_stepE: "period_step H a b"

definition refines :: "hash_fun \<Rightarrow> bridge_state \<Rightarrow> claim_state \<Rightarrow> bool" where
  "refines H c a \<longleftrightarrow>
     (length (claim_blocks a) \<le> 2 ^ 32 \<longrightarrow> represents 32 H (blockhashes_mt c) (claim_blocks a)) \<and>
     (length (claim_withdrawals a) \<le> 2 ^ 32 \<longrightarrow>
       represents 32 H (withdrawal_mt c) (claim_withdrawals a)) \<and>
     total_pow c = claim_work a \<and> cur_block_hash c = claim_tip a \<and> lc_blockhash c = claim_lc a \<and>
     total_num_withdrawals c = word_of_nat (length (claim_withdrawals a))"

lemma adds_refine:
  assumes "length ls \<le> 2 ^ 32 \<longrightarrow> represents 32 H t ls" "for_each xs (imt_add 32 H) t = Some t'"
  shows "length (ls @ xs) \<le> 2 ^ 32 \<longrightarrow> represents 32 H t' (ls @ xs)"
proof
  assume cap: "length (ls @ xs) \<le> 2 ^ 32"
  then have "represents 32 H t ls"
    using assms(1) by simp
  from imt.adds_hold [OF this, of xs] cap assms(2) show "represents 32 H t' (ls @ xs)"
    by simp
qed

context sized_reads
begin

lemma read_blocks_sound:
  assumes "hash32 H"
    and "read_blocks_and_add_to_merkle_tree H E start t m s = Some ((w, lc, tip), t', s')"
  shows "\<exists>hs. length hs < 2 ^ 32 \<and> chain_valid H start hs \<and> w = chain_work hs \<and>
    tip = chain_tip H start hs \<and> lc = chain_before_tip H (unat m) start hs \<and>
    for_each (chain_hashes H start hs) (imt_add 32 H) t = Some t'"
proof -
  obtain n s0 where "for_each [0..<unat n] (add_block H E n m) (0, replicate 32 0, start, t, s0) =
      Some (w, lc, tip, t', s')"
    using assms(2)
    by (auto simp: read_blocks_and_add_to_merkle_tree_def bind_eq_Some_conv Let_def)
  moreover have "unat n < 2 ^ 32"
    using unat_less_pow [of n] by simp
  ultimately show ?thesis
    using add_blocks_sound [OF assms(1)] by metis
qed

text \<open>One period of the loop is one step of the machine.\<close>

lemma period_refines:
  assumes "hash32 H" "refines H c a"
    and blocks: "read_blocks_and_add_to_merkle_tree H E (cur_block_hash c) (blockhashes_mt c)
      MAX_BLOCK_HANDLE_OPS s = Some ((work, lc, cur), bmt, s1)"
    and withdrawals: "for_each [0..<unat n] (\<lambda>_. read_withdrawal_proof H E (root bmt))
      (withdrawal_mt c, s2) = Some (wmt, s3)"
  shows "\<exists>b. period_step H a b \<and> refines H (c\<lparr>blockhashes_mt := bmt, withdrawal_mt := wmt,
    total_pow := total_pow c + work, cur_block_hash := cur, lc_blockhash := lc,
    total_num_withdrawals := total_num_withdrawals c + n\<rparr>) b"
proof -
  obtain hs where hs: "length hs < 2 ^ 32" "chain_valid H (claim_tip a) hs" "work = chain_work hs"
    "cur = chain_tip H (claim_tip a) hs" "lc = chain_before_tip H 3 (claim_tip a) hs"
    "for_each (chain_hashes H (claim_tip a) hs) (imt_add 32 H) (blockhashes_mt c) = Some bmt"
    using read_blocks_sound [OF assms(1) blocks] assms(2)
    by (auto simp: refines_def MAX_BLOCK_HANDLE_OPS_def)
  obtain ws where ws: "length ws = unat n"
    "\<forall>w \<in> set ws. length w = 32 \<and> withdrawal_proved H (root bmt) w"
    "for_each ws (imt_add 32 H) (withdrawal_mt c) = Some wmt"
    using withdrawal_proofs_sound [OF withdrawals] by blast
  let ?blocks = "claim_blocks a @ chain_hashes H (claim_tip a) hs"
  have rb: "length ?blocks \<le> 2 ^ 32 \<longrightarrow> represents 32 H bmt ?blocks"
    using assms(2) hs(6) by (intro adds_refine) (auto simp: refines_def)
  have rw: "length (claim_withdrawals a @ ws) \<le> 2 ^ 32 \<longrightarrow>
      represents 32 H wmt (claim_withdrawals a @ ws)"
    using assms(2) ws(3) by (intro adds_refine) (auto simp: refines_def)
  let ?b = "\<lparr>claim_blocks = ?blocks, claim_withdrawals = claim_withdrawals a @ ws,
    claim_work = claim_work a + chain_work hs, claim_tip = chain_tip H (claim_tip a) hs,
    claim_lc = chain_before_tip H 3 (claim_tip a) hs\<rparr>"
  have "period_step H a ?b"
  proof (rule period_step.period)
    show "length ?blocks \<le> 2 ^ 32 \<longrightarrow>
        (\<forall>w \<in> set ws. length w = 32 \<and> withdrawal_proved H (tree_root H 32 ?blocks) w)"
      using rb ws(2) imt.root_holds by metis
    show "length ws < 2 ^ 32"
      using ws(1) unat_less_pow [of n] by simp
  qed (use hs in simp_all)
  moreover have "total_num_withdrawals c + n = word_of_nat (length (claim_withdrawals a @ ws))"
    using assms(2) ws(1) by (simp add: refines_def)
  ultimately show ?thesis
    using assms(2) hs rb rw by (intro exI [of _ ?b]) (simp add: refines_def)
qed

lemma rounds_refine:
  assumes "hash32 H" "refines H c a" "bridge_rounds H E ps (c, s) = Some (c', s')"
  shows "\<exists>b k. (period_step H ^^ k) a b \<and> refines H c' b \<and> k \<le> length ps \<and> (ps \<noteq> [] \<longrightarrow> 0 < k) \<and>
    (last_period c' = last_period c \<and> k = length ps \<or> 0 < k \<and> last_period c' = ps ! (k - 1))"
  using assms(2,3)
proof (induction ps arbitrary: c a s)
  case Nil
  then show ?case by (auto intro!: exI [of _ a] exI [of _ 0])
next
  case (Cons p ps)
  obtain work lc cur bmt s1 n s2 wmt s3 stop s4 where
    run: "read_blocks_and_add_to_merkle_tree H E (cur_block_hash c) (blockhashes_mt c)
      MAX_BLOCK_HANDLE_OPS s = Some ((work, lc, cur), bmt, s1)"
    "for_each [0..<unat n] (\<lambda>_. read_withdrawal_proof H E (root bmt)) (withdrawal_mt c, s2) =
      Some (wmt, s3)"
    and rest: "(if stop = (1 :: u32) then Some (c\<lparr>blockhashes_mt := bmt, withdrawal_mt := wmt,
        total_pow := total_pow c + work, cur_block_hash := cur, lc_blockhash := lc,
        total_num_withdrawals := total_num_withdrawals c + n, last_period := p\<rparr>, s4)
      else bridge_rounds H E ps (c\<lparr>blockhashes_mt := bmt, withdrawal_mt := wmt,
        total_pow := total_pow c + work, cur_block_hash := cur, lc_blockhash := lc,
        total_num_withdrawals := total_num_withdrawals c + n\<rparr>, s4)) = Some (c', s')"
    using Cons.prems(2) by (auto simp: bind_eq_Some_conv Let_def split del: if_split)
  let ?c = "c\<lparr>blockhashes_mt := bmt, withdrawal_mt := wmt,
        total_pow := total_pow c + work, cur_block_hash := cur, lc_blockhash := lc,
        total_num_withdrawals := total_num_withdrawals c + n\<rparr>"
  obtain b where b: "period_step H a b" "refines H ?c b"
    using period_refines [OF assms(1) Cons.prems(1) run] by blast
  show ?case
  proof (cases "stop = 1")
    case True
    with rest b have "(period_step H ^^ 1) a b \<and> refines H c' b \<and> last_period c' = p"
      by (auto simp: refines_def relpowp_1)
    then show ?thesis
      by (intro exI [of _ b] exI [of _ 1]) simp
  next
    case False
    with rest have "bridge_rounds H E ps (?c, s4) = Some (c', s')"
      by simp
    from Cons.IH [OF b(2) this] obtain d k where d: "(period_step H ^^ k) b d" "refines H c' d"
      "k \<le> length ps"
      "last_period c' = last_period c \<and> k = length ps \<or> 0 < k \<and> last_period c' = ps ! (k - 1)"
      by auto
    moreover have "(period_step H ^^ Suc k) a d"
      using b(1) d(1) by (rule relpowp_Suc_I2)
    ultimately show ?thesis
      by (intro exI [of _ d] exI [of _ "Suc k"]) (auto simp: nth_Cons')
  qed
qed

end

text \<open>A check \<open>if bad { panic }\<close> that was passed.\<close>

lemma if_eq_None_Some: "(if b then None else x) = Some y \<longleftrightarrow> \<not> b \<and> x = Some y"
  by simp

text \<open>The claim of any number of periods is one valid chain on top of the first block.\<close>

lemma chain_append:
  "chain_hashes H p (xs @ ys) = chain_hashes H p xs @ chain_hashes H (chain_tip H p xs) ys"
  "chain_valid H p (xs @ ys) \<longleftrightarrow> chain_valid H p xs \<and> chain_valid H (chain_tip H p xs) ys"
  "chain_tip H p (xs @ ys) = chain_tip H (chain_tip H p xs) ys"
  "chain_work (xs @ ys) = chain_work xs + chain_work ys"
proof -
  show hashes: "chain_hashes H p (xs @ ys) = chain_hashes H p xs @ chain_hashes H (chain_tip H p xs) ys" for p
    by (induction xs arbitrary: p) (auto simp: chain_tip_def Let_def)
  then show "chain_valid H p (xs @ ys) \<longleftrightarrow> chain_valid H p xs \<and> chain_valid H (chain_tip H p xs) ys"
    by (simp add: chain_valid_def list_all2_append)
  show "chain_tip H p (xs @ ys) = chain_tip H (chain_tip H p xs) ys"
    using hashes by (auto simp: chain_tip_def)
  show "chain_work (xs @ ys) = chain_work xs + chain_work ys"
    by (simp add: chain_work_def)
qed

definition one_chain :: "hash_fun \<Rightarrow> bytes \<Rightarrow> claim_state \<Rightarrow> bool" where
  "one_chain H start a \<longleftrightarrow> (\<exists>hs. chain_valid H start hs \<and> claim_blocks a = chain_hashes H start hs \<and>
     claim_work a = chain_work hs \<and> claim_tip a = chain_tip H start hs)"

lemma period_step_one_chain:
  assumes "period_step H a b" "one_chain H start a"
  shows "one_chain H start b"
proof -
  obtain hs0 where "chain_valid H start hs0" "claim_blocks a = chain_hashes H start hs0"
    "claim_work a = chain_work hs0" "claim_tip a = chain_tip H start hs0"
    using assms(2) by (auto simp: one_chain_def)
  moreover obtain hs where "chain_valid H (claim_tip a) hs"
    "claim_blocks b = claim_blocks a @ chain_hashes H (claim_tip a) hs"
    "claim_work b = claim_work a + chain_work hs" "claim_tip b = chain_tip H (claim_tip a) hs"
    using assms(1) by (auto elim!: period_stepE)
  ultimately show ?thesis
    unfolding one_chain_def by (intro exI [of _ "hs0 @ hs"]) (simp add: chain_append)
qed

lemma periods_one_chain:
  "(period_step H ^^ k) (initial_claim start) a \<Longrightarrow> one_chain H start a"
proof (induction k arbitrary: a)
  case 0
  then show ?case by (auto simp: one_chain_def initial_claim_def intro!: exI [of _ "[]"])
next
  case (Suc k)
  then show ?case by (auto dest: period_step_one_chain)
qed

section \<open>The proof\<close>

text \<open>
  What a returned challenge stands for. \<open>deep\<close> are the blocks after the claim that only add work;
  some preimages were read from the tape whose commitment is the script of some output of
  \<open>commit_tx\<close>; \<open>reveal_tx\<close>, in a block of the claim, spends some output of \<open>commit_tx\<close>; and the leaf of
  those preimages is at the index given by the number of withdrawals in the tree whose root is fixed
  for the challenged period. The output that is spent is \<open>vout\<close>, which the code reads from the host
  and does not compare with the place of the output that carries the commitment: nothing here says
  that the preimages were revealed by \<open>reveal_tx\<close>.
\<close>

definition challenge_answered ::
  "hash_fun \<Rightarrow> ('p, 'k) curve \<Rightarrow> claim_state \<Rightarrow> u256 \<Rightarrow> bytes \<Rightarrow> u8 \<Rightarrow> nat \<Rightarrow> bool" where
  "challenge_answered H C claim pow blockhash period final \<longleftrightarrow>
     unat period < NUM_ROUNDS \<and>
     (\<exists>deep. chain_valid H (claim_tip claim) deep \<and>
        (period = word_of_nat final \<and> blockhash = claim_tip claim \<or>
         pow < claim_work claim + chain_work deep)) \<and>
     (\<exists>address leaf commit_tx vout reveal_tx claim_path.
        wf_tx commit_tx \<and> pays (Some (None, address)) (tx_outputs commit_tx) \<and>
        wf_tx reveal_tx \<and> spends (Some (H (H (tx_bytes commit_tx)), vout)) (tx_inputs reveal_tx) \<and>
        (length (claim_blocks claim) \<le> 2 ^ 32 \<longrightarrow>
           tx_included H (tree_root H 32 (claim_blocks claim)) reveal_tx) \<and>
        (\<exists>pk ps. length pk = 32 \<and> (\<forall>p \<in> set ps. length p = 32) \<and> length ps < 2 ^ 32 \<and>
          (37 + 33 * length ps < 2 ^ 32 \<longrightarrow> calculate_taproot_from_single_script H C
             (tap_leaf_hash H (commit_script pk ps)) = Some address) \<and>
          leaf = H (concat (List.map H ps))) \<and>
        length claim_path = CLAIM_MERKLE_TREE_DEPTH \<and> (\<forall>p \<in> set claim_path. length p = 32) \<and>
        climb H (unat (word_of_nat (length (claim_withdrawals claim)) :: u32)) claim_path leaf =
          PERIOD_CLAIM_MT_ROOTS ! unat period)"

context sized_reads
begin

lemma bridge_proof_sound:
  assumes "hash32 H" "bridge_proof H C E s = Some ((pow, blockhash, period), s')"
  shows "\<exists>start claim k final. length start = 32 \<and> 0 < k \<and> k \<le> NUM_ROUNDS \<and>
    (period_step H ^^ k) (initial_claim start) claim \<and>
    (final = k - 1 \<or> k = NUM_ROUNDS \<and> final = 0) \<and>
    challenge_answered H C claim pow blockhash period final"
proof -
  obtain bmt wmt where new: "imt_new 32 H = Some bmt" "imt_new 32 H = Some wmt"
    and rep: "represents 32 H bmt []" "represents 32 H wmt []"
    using imt.new_holds [of H] by auto
  obtain start s0 where start: "read_32bytes E s = Some (start, s0)"
    using assms(2) by (auto simp: bridge_proof_def bind_eq_Some_conv)
  let ?c0 = "\<lparr>blockhashes_mt = bmt, withdrawal_mt = wmt, total_pow = 0, cur_block_hash = start,
         lc_blockhash = replicate 32 0, total_num_withdrawals = 0, last_period = 0\<rparr>"
  obtain c s1 where rounds: "bridge_rounds H E [0..<NUM_ROUNDS] (?c0, s0) = Some (c, s1)"
    using assms(2) new start
    by (auto simp: bridge_proof_def bind_eq_Some_conv BLOCKHASH_MERKLE_TREE_DEPTH_def
        WITHDRAWAL_MERKLE_TREE_DEPTH_def)
  obtain s2 s3 s4 s5 s6 s7 s8 s9 s10 s11 s12 deep address leaf commit_txid vout reveal_txid
      mt_root hash proof_root claim_root claim_proof_root where
    deep: "read_blocks_and_calculate_work H E (cur_block_hash c) s2 = Some (deep, s3)" and
    checks: "(if period \<noteq> word_of_nat (last_period c) then
            (if pow < total_pow c + deep then Some win else None)
          else Some ()) = Some ()"
       "(if blockhash \<noteq> cur_block_hash c then
            (if pow < total_pow c + deep then Some win else None)
          else Some ()) = Some ()" and
    commit: "read_preimages_and_calculate_commit_taproot H C E s4 = Some ((address, leaf), s5)" and
    commit_tx: "read_tx_and_calculate_txid H E None (Some (None, address)) s5 = Some (commit_txid, s6)" and
    reveal_tx: "read_tx_and_calculate_txid H E (Some (commit_txid, vout)) None s7 = Some (reveal_txid, s8)" and
    incl: "read_and_verify_bitcoin_merkle_path H E reveal_txid s8 = Some (mt_root, s9)"
      "read_header_except_root_and_calculate_blockhash H E mt_root s9 = Some (hash, s10)"
      "read_merkle_tree_proof 32 H E hash None s10 = Some (proof_root, s11)" and
    roots: "root (blockhashes_mt c) = proof_root"
      "array_get PERIOD_CLAIM_MT_ROOTS (unat period) = Some claim_root"
      "read_merkle_tree_proof CLAIM_MERKLE_TREE_DEPTH H E leaf (Some (total_num_withdrawals c)) s11 =
        Some (claim_root, s12)"
    using assms(2) new start rounds
    by (auto simp: bridge_proof_def bind_eq_Some_conv BLOCKHASH_MERKLE_TREE_DEPTH_def
        WITHDRAWAL_MERKLE_TREE_DEPTH_def Let_def if_eq_None_Some split del: if_split)
  have "refines H ?c0 (initial_claim start)"
    using rep by (simp add: refines_def initial_claim_def)
  from rounds_refine [OF assms(1) this rounds] obtain claim k where
    k: "(period_step H ^^ k) (initial_claim start) claim" "refines H c claim" "0 < k" "k \<le> NUM_ROUNDS"
    and final: "last_period c = 0 \<and> k = NUM_ROUNDS \<or> last_period c = [0..<NUM_ROUNDS] ! (k - 1)"
    by (auto simp: NUM_ROUNDS_def simp del: upt_Suc upt_rec_numeral)
  have ref: "total_pow c = claim_work claim" "cur_block_hash c = claim_tip claim"
    "total_num_withdrawals c = word_of_nat (length (claim_withdrawals claim))"
    "length (claim_blocks claim) \<le> 2 ^ 32 \<longrightarrow> root (blockhashes_mt c) = tree_root H 32 (claim_blocks claim)"
    using k(2) imt.root_holds by (auto simp: refines_def)
  have "challenge_answered H C claim pow blockhash period (last_period c)"
    unfolding challenge_answered_def
  proof (intro conjI)
    show "unat period < NUM_ROUNDS"
      using roots(2) by (simp add: PERIOD_CLAIM_MT_ROOTS_def NUM_ROUNDS_def)
    obtain hs where "chain_valid H (claim_tip claim) hs" "deep = chain_work hs"
      using read_blocks_and_calculate_work_sound [OF assms(1) deep] ref(2) by auto
    moreover have "period = word_of_nat (last_period c) \<and> blockhash = claim_tip claim \<or>
        pow < claim_work claim + deep"
      using checks ref by (auto split: if_splits)
    ultimately show "\<exists>deep. chain_valid H (claim_tip claim) deep \<and>
        (period = word_of_nat (last_period c) \<and> blockhash = claim_tip claim \<or>
         pow < claim_work claim + chain_work deep)"
      by auto
    obtain ctx where ctx: "wf_tx ctx" "commit_txid = H (H (tx_bytes ctx))"
      "pays (Some (None, address)) (tx_outputs ctx)"
      using read_tx_sound [OF commit_tx] by blast
    obtain rtx where rtx: "wf_tx rtx" "reveal_txid = H (H (tx_bytes rtx))"
      "spends (Some (commit_txid, vout)) (tx_inputs rtx)"
      using read_tx_sound [OF reveal_tx] by blast
    have "tx_included H proof_root rtx"
      using rtx(2) incl by (rule inclusion_sound)
    then have included: "length (claim_blocks claim) \<le> 2 ^ 32 \<longrightarrow>
        tx_included H (tree_root H 32 (claim_blocks claim)) rtx"
      using ref(4) roots(1) by auto
    have preimages: "\<exists>pk ps. length pk = 32 \<and> (\<forall>p \<in> set ps. length p = 32) \<and> length ps < 2 ^ 32 \<and>
          (37 + 33 * length ps < 2 ^ 32 \<longrightarrow> calculate_taproot_from_single_script H C
             (tap_leaf_hash H (commit_script pk ps)) = Some address) \<and>
          leaf = H (concat (List.map H ps))"
      by (rule read_preimages_sound [OF commit])
    obtain path where path: "length path = CLAIM_MERKLE_TREE_DEPTH" "\<forall>p \<in> set path. length p = 32"
      "claim_root = climb H (unat (total_num_withdrawals c)) path leaf"
      using merkle_tree_proof_sound [OF roots(3)] by auto
    have claim: "climb H (unat (word_of_nat (length (claim_withdrawals claim)) :: u32)) path leaf =
        PERIOD_CLAIM_MT_ROOTS ! unat period"
      using path(3) roots(2) ref(3) by auto
    show "\<exists>address leaf commit_tx vout reveal_tx claim_path.
        wf_tx commit_tx \<and> pays (Some (None, address)) (tx_outputs commit_tx) \<and>
        wf_tx reveal_tx \<and> spends (Some (H (H (tx_bytes commit_tx)), vout)) (tx_inputs reveal_tx) \<and>
        (length (claim_blocks claim) \<le> 2 ^ 32 \<longrightarrow>
           tx_included H (tree_root H 32 (claim_blocks claim)) reveal_tx) \<and>
        (\<exists>pk ps. length pk = 32 \<and> (\<forall>p \<in> set ps. length p = 32) \<and> length ps < 2 ^ 32 \<and>
          (37 + 33 * length ps < 2 ^ 32 \<longrightarrow> calculate_taproot_from_single_script H C
             (tap_leaf_hash H (commit_script pk ps)) = Some address) \<and>
          leaf = H (concat (List.map H ps))) \<and>
        length claim_path = CLAIM_MERKLE_TREE_DEPTH \<and> (\<forall>p \<in> set claim_path. length p = 32) \<and>
        climb H (unat (word_of_nat (length (claim_withdrawals claim)) :: u32)) claim_path leaf =
          PERIOD_CLAIM_MT_ROOTS ! unat period"
      using ctx(1,3) rtx(1) rtx(3) [unfolded ctx(2)] included preimages path(1,2) claim
      by - (rule exI [of _ address], rule exI [of _ leaf], rule exI [of _ ctx], rule exI [of _ vout],
          rule exI [of _ rtx], rule exI [of _ path], intro conjI; assumption)
  qed
  moreover have "length start = 32"
    using start by (rule read_32bytes_length)
  moreover have "last_period c = k - 1 \<or> k = NUM_ROUNDS \<and> last_period c = 0"
    using final k(3,4) by auto
  ultimately show ?thesis
    using k(1,3,4) by blast
qed

end

end
