(* ===== verification/Guest_Programs.thy ===== *)
theory Guest_Programs
  imports Bridge_Circuit
begin

text \<open>
  The two guest programs of \<open>risc0-guests\<close>, which run a circuit on the zkVM's environment and
  commit its result to the journal, a concrete run of the bridge circuit, and the properties of
  the circuits as a whole. The example run uses a constant hash function, under which the whole
  proof can be evaluated by hand, and shows that the hypotheses of the soundness theorems hold
  for a run that has a block, a withdrawal and a claim.
\<close>

section \<open>The guest programs\<close>

datatype journal_item = Commit_Bytes bytes | Commit_U8 u8

definition operator_guest_main ::
  "hash_fun \<Rightarrow> ('p, 'k) curve \<Rightarrow> 's environment \<Rightarrow> 's \<Rightarrow> journal_item list option" where
  "operator_guest_main H C E s = do {
     ((verifiers_pow_u256, verifiers_last_finalized_blockhash, verifiers_challenge_period), s) \<leftarrow>
       bridge_proof H C E s;
     let verifiers_pow_bytes = le_bytes 32 (unat verifiers_pow_u256);
     Some [Commit_Bytes verifiers_pow_bytes, Commit_Bytes verifiers_last_finalized_blockhash,
       Commit_U8 verifiers_challenge_period]
   }"

definition verifier_guest_main ::
  "hash_fun \<Rightarrow> 's environment \<Rightarrow> 's \<Rightarrow> journal_item list option" where
  "verifier_guest_main H E s = do {
     (txid, s) \<leftarrow> read_tx_and_calculate_txid H E None None s;
     Some [Commit_Bytes txid]
   }"

section \<open>An example run\<close>

definition const_hash :: hash_fun where
  "const_hash x = PERIOD_CLAIM_MT_ROOTS ! 0"

definition zeros32 :: bytes where "zeros32 = replicate 32 0"

definition example_curve :: "(nat, nat) curve" where
  "example_curve = \<lparr>public_key_from_sec1 = (\<lambda>_. Some 0), scalar_from_slice = (\<lambda>_. Some 0),
     generator_times = id, point_add = (+), point_to_bytes = (\<lambda>_. replicate 33 2)\<rparr>"

definition paying_tx :: "u64 \<Rightarrow> bytes \<Rightarrow> bytes \<Rightarrow> transaction" where
  "paying_tx v address txid = \<lparr>tx_version = 2,
     tx_inputs = [\<lparr>in_prev_txid = txid, in_vout = 0, in_script_sig = [], in_sequence = 0\<rparr>],
     tx_outputs = [Taproot_Output v address], tx_lock_time = 0\<rparr>"

definition inclusion_items :: tape where
  "inclusion_items = [ItemU32 0, ItemU32 0, ItemI32 2, Item32 zeros32, ItemU32 0, ItemU32 0, ItemU32 0,
     ItemU32 0] @ replicate 32 (Item32 zeros32)"

text \<open>One block, one withdrawal, and the answer 1 that ends the rounds.\<close>

definition round_items :: tape where
  "round_items =
    [ItemU32 1, ItemI32 2, Item32 zeros32, ItemU32 0, ItemU32 0x207fffff, ItemU32 0,
     ItemU32 1, Item32 zeros32] @ tx_items (paying_tx 100000000 zeros32 zeros32) @ inclusion_items @
    [ItemU32 1]"

definition example_tape :: tape where
  "example_tape = [Item32 zeros32] @ round_items @
    [Item32 zeros32, Item32 zeros32, Item32 zeros32, Item32 zeros32,
     Item32 (const_hash []), Item32 zeros32, ItemU32 0,
     ItemU32 0,
     Item32 zeros32, Item32 (const_hash []),
     ItemU32 1, Item32 zeros32, Item32 zeros32] @
    tx_items (paying_tx 5 (replicate 32 2) zeros32) @ [ItemU32 0] @
    tx_items (paying_tx 5 zeros32 (const_hash [])) @ inclusion_items @
    replicate 4 (Item32 zeros32)"

lemmas tape_reads = guest.pushed_32bytes guest.pushed_u32 guest.pushed_u64 guest.pushed_i32

lemma zero_root_const: "zero_root const_hash e d = (if d = 0 then e else PERIOD_CLAIM_MT_ROOTS ! 0)"
  by (cases d) (simp_all add: const_hash_def)

lemma climb_const: "ps \<noteq> [] \<Longrightarrow> climb const_hash i ps h = PERIOD_CLAIM_MT_ROOTS ! 0"
  by (induction ps arbitrary: i h rule: induct_list012) (simp_all add: const_hash_def)

lemma mroot_const: "mroot const_hash e (Suc d) ls = PERIOD_CLAIM_MT_ROOTS ! 0"
  by (simp add: const_hash_def)

lemma length_const_hash [simp]: "length (const_hash x) = 32"
  by (simp add: const_hash_def PERIOD_CLAIM_MT_ROOTS_def)

lemma double_sha256_const: "double_sha256_hash const_hash x = const_hash []"
  by (simp add: double_sha256_hash_def const_hash_def)

lemma wf_paying_tx: "length a = 32 \<Longrightarrow> length i = 32 \<Longrightarrow> wf_tx (paying_tx v a i)"
  by (simp add: paying_tx_def wf_tx_def wf_input_def)

lemma length_zeros32 [simp]: "length zeros32 = 32" by (simp add: zeros32_def)

lemma paying_tx_fields [simp]:
  "tx_inputs (paying_tx v a txid) =
    [\<lparr>in_prev_txid = txid, in_vout = 0, in_script_sig = [], in_sequence = 0\<rparr>]"
  "tx_outputs (paying_tx v a txid) = [Taproot_Output v a]"
  by (simp_all add: paying_tx_def)

lemma inclusion_path_const: "read_and_verify_bitcoin_merkle_path const_hash guest txid (inclusion_items @ t) =
  Some (txid, drop 2 inclusion_items @ t)"
  using guest.bitcoin_merkle_path_complete [where path = "[]" and idx = 0 and s = "drop 2 inclusion_items @ t"]
  by (simp add: inclusion_items_def)

lemma inclusion_header_const: "read_header_except_root_and_calculate_blockhash const_hash guest r (drop 2 inclusion_items @ t) =
  Some (const_hash [], ItemU32 0 # replicate 32 (Item32 zeros32) @ t)"
  by (simp add: inclusion_items_def read_header_except_root_and_calculate_blockhash_def tape_reads double_sha256_const)

lemma block_proof_const: "read_merkle_tree_proof 32 const_hash guest h None (ItemU32 0 # replicate 32 (Item32 zeros32) @ t) =
  Some (const_hash [], t)"
  using guest.merkle_tree_proof_complete(1) [where path = "replicate 32 zeros32" and D = 32 and H = const_hash and leaf = h and idx = 0 and s = t]
  by (simp add: climb_const map_replicate const_hash_def)

lemma claim_proof_const: "read_merkle_tree_proof 4 const_hash guest h (Some i) (replicate 4 (Item32 zeros32)) =
  Some (const_hash [], [])"
  using guest.merkle_tree_proof_complete(2) [where path = "replicate 4 zeros32" and D = 4 and H = const_hash and leaf = h and idx = i and s = "[]"]
  by (simp add: climb_const map_replicate const_hash_def)

lemma imt_new_const: "imt_new 32 const_hash = Some \<lparr>filled_subtrees = replicate 32 EMPTYDATA,
  root = const_hash [], index = 0\<rparr>"
  by (simp add: imt_new_def zero_root_const const_hash_def)

lemma imt_add_const: "\<exists>t'. imt_add 32 const_hash a (\<lparr>filled_subtrees = replicate 32 EMPTYDATA,
  root = const_hash [], index = 0\<rparr>) = Some t' \<and> root t' = const_hash []"
proof -
  have "represents 32 const_hash \<lparr>filled_subtrees = replicate 32 EMPTYDATA,
    root = const_hash [], index = 0\<rparr> []"
    by (simp add: represents_def zero_root_const const_hash_def)
  from imt.add_holds [OF this, of a] imt.root_holds show ?thesis
    using mroot_const [of EMPTYDATA 31 "[a]"] by (auto simp: const_hash_def)
qed

lemma example_block_valid: "validate_threshold_and_add_work (u32_le 0x207fffff) (const_hash []) 0 =
  Some (calculate_work (replicate 29 0 @ [0xff, 0xff, 0x7f]))"
proof -
  have "le_bytes (numeral k) x = word_of_nat (x mod 256) # le_bytes (pred_numeral k) (x div 256)" for k x
    by (metis le_bytes.simps(2) numeral_eq_Suc)
  then have bits: "u32_le 0x207fffff = [0xff, 0xff, 0x7f, 0x20]"
    by (simp add: u32_le_def)
  have "decode_compact_target [0xff, 0xff, 0x7f, 0x20] = Some (replicate 29 0 @ [0xff, 0xff, 0x7f])"
    by (subst decode_large) simp_all
  moreover have "check_hash_valid (const_hash []) (replicate 29 0 @ [0xff, 0xff, 0x7f]) = Some ()"
    by code_simp
  ultimately show ?thesis
    by (simp add: bits validate_threshold_and_add_work_def)
qed

lemma read_header_items: "read_header_except_prev_blockhash guest
  (ItemI32 v # Item32 zeros32 # ItemU32 a # ItemU32 b # ItemU32 c # t) = Some ((v, zeros32, a, b, c), t)"
  by (simp add: read_header_except_prev_blockhash_def tape_reads)

lemma next_block_hash_const: "calculate_next_block_hash const_hash prev h = const_hash []"
  by (simp add: calculate_next_block_hash_def double_sha256_const split: prod.splits)

definition example_imt :: incremental_merkle_tree where
 "example_imt = \<lparr>filled_subtrees = replicate 32 EMPTYDATA, root = const_hash [], index = 0\<rparr>"

lemma read_one_block:
  assumes "imt_add 32 const_hash (const_hash []) example_imt = Some t'"
  shows "read_blocks_and_add_to_merkle_tree const_hash guest start example_imt 3
    (ItemU32 1 # ItemI32 2 # Item32 zeros32 # ItemU32 0 # ItemU32 0x207fffff # ItemU32 0 # t) =
    Some ((calculate_work (replicate 29 0 @ [0xff, 0xff, 0x7f]), replicate 32 0, const_hash []), t', t)"
  using assms
  by (simp add: read_blocks_and_add_to_merkle_tree_def tape_reads add_block_def read_header_items next_block_hash_const
     BLOCKHASH_MERKLE_TREE_DEPTH_def header_bits_def example_block_valid)

lemma read_one_withdrawal:
  assumes "imt_add 32 const_hash zeros32 example_imt = Some t'"
  shows "read_withdrawal_proof const_hash guest (const_hash []) (example_imt,
    Item32 zeros32 # tx_items (paying_tx 100000000 zeros32 zeros32) @ inclusion_items @ t) =
    Some (t', t)"
  using assms
  by (simp add: read_withdrawal_proof_def tape_reads guest.read_tx_complete [simplified] wf_paying_tx
     BLOCKHASH_MERKLE_TREE_DEPTH_def  WITHDRAWAL_MERKLE_TREE_DEPTH_def BRIDGE_AMOUNT_SATS_def inclusion_path_const inclusion_header_const block_proof_const)

lemma read_paying_tx: "length a = 32 \<Longrightarrow> length i = 32 \<Longrightarrow>
   read_tx_and_calculate_txid const_hash guest r q (tx_items (paying_tx v a i) @ t) =
   (if spends r [\<lparr>in_prev_txid = i, in_vout = 0, in_script_sig = [], in_sequence = 0\<rparr>] \<and>
       pays q [Taproot_Output v a] then Some (const_hash [], t) else None)"
  by (simp add: guest.read_tx_complete [simplified] wf_paying_tx) (simp add: const_hash_def)

lemma read_commit_const: "read_preimages_and_calculate_commit_taproot const_hash example_curve guest
   (ItemU32 1 # Item32 zeros32 # Item32 zeros32 # t) = Some ((replicate 32 2, const_hash []), t)"
  by (simp add: read_preimages_and_calculate_commit_taproot_def tape_reads sha256_hash_def Let_def
     calculate_taproot_from_single_script_def example_curve_def numeral_eq_Suc) (simp add: const_hash_def)

lemma period0: "array_get PERIOD_CLAIM_MT_ROOTS 0 = Some (const_hash [])"
  by (simp add: const_hash_def PERIOD_CLAIM_MT_ROOTS_def)

definition example_start :: bridge_state where
  "example_start = \<lparr>blockhashes_mt = example_imt, withdrawal_mt = example_imt, total_pow = 0,
     cur_block_hash = zeros32, lc_blockhash = zeros32, total_num_withdrawals = 0, last_period = 0\<rparr>"

lemma example_rounds:
  "\<exists>c. (\<forall>t. bridge_rounds const_hash guest [0, 1, 2, 3] (example_start, round_items @ t) = Some (c, t)) \<and>
    cur_block_hash c = const_hash [] \<and> last_period c = 0 \<and> lc_blockhash c = zeros32 \<and>
    root (withdrawal_mt c) = const_hash [] \<and> root (blockhashes_mt c) = const_hash []"
proof -
  obtain bmt where bmt: "imt_add 32 const_hash (const_hash []) example_imt = Some bmt"
    "root bmt = const_hash []"
    using imt_add_const by (auto simp: example_imt_def)
  obtain wmt where wmt: "imt_add 32 const_hash zeros32 example_imt = Some wmt"
    "root wmt = const_hash []"
    using imt_add_const by (auto simp: example_imt_def)
  show ?thesis
    by (rule exI [of _ "\<lparr>blockhashes_mt = bmt, withdrawal_mt = wmt,
        total_pow = calculate_work (replicate 29 0 @ [0xff, 0xff, 0x7f]),
        cur_block_hash = const_hash [], lc_blockhash = zeros32, total_num_withdrawals = 1,
        last_period = 0\<rparr>"])
      (simp add: round_items_def example_start_def tape_reads MAX_BLOCK_HANDLE_OPS_def
        read_one_block [OF bmt(1)] bmt wmt read_one_withdrawal [OF wmt(1)] zeros32_def [symmetric])
qed

lemma example_run: "bridge_proof const_hash example_curve guest example_tape =
  Some ((0, const_hash [], 0), [])"
proof -
  obtain c where c: "bridge_rounds const_hash guest [0, 1, 2, 3] (example_start, round_items @ t) =
      Some (c, t)" "cur_block_hash c = const_hash []" "last_period c = 0"
      "lc_blockhash c = zeros32" "root (withdrawal_mt c) = const_hash []"
      "root (blockhashes_mt c) = const_hash []" for t
    using example_rounds by blast
  have new: "imt_new 32 const_hash = Some example_imt"
    by (simp add: imt_new_const example_imt_def)
  have start: "\<lparr>blockhashes_mt = example_imt, withdrawal_mt = example_imt, total_pow = 0,
      cur_block_hash = zeros32, lc_blockhash = zeros32, total_num_withdrawals = 0,
      last_period = 0\<rparr> = example_start"
    by (simp add: example_start_def)
  have upt: "[0..<NUM_ROUNDS] = [0, 1, 2, 3]"
    by (simp add: NUM_ROUNDS_def upt_rec)
  have u256: "u256_from_le_bytes zeros32 = 0"
    by (simp add: u256_from_le_bytes_def zeros32_def)
  show ?thesis
    by (simp add: bridge_proof_def example_tape_def new upt tape_reads BLOCKHASH_MERKLE_TREE_DEPTH_def
      WITHDRAWAL_MERKLE_TREE_DEPTH_def zeros32_def [symmetric] start c
      read_and_verify_verifiers_challenge_proof_def verify_challenge_proof_def
      u256 read_blocks_and_calculate_work_def read_and_verify_lc_proof_def read_commit_const
      read_paying_tx inclusion_path_const inclusion_header_const block_proof_const
      claim_proof_const CLAIM_MERKLE_TREE_DEPTH_def period0 del: bridge_rounds.simps One_nat_def)
qed

section \<open>Properties\<close>

lemma hash32_const [simp]: "hash32 const_hash"
  by (simp add: hash32_def)



text \<open>
  C8. However the headers are spread over the periods, they form a single chain on the block the
  loop starts from: every hash meets the target of its header, the tip and the total work are those
  of the chain, and up to the capacity of the tree the root is that of exactly its block hashes.
\<close>

theorem bridge_rounds_single_chain:
  assumes "hash32 H" "sized_reads E"
    and "represents 32 H (blockhashes_mt st) []" "represents 32 H (withdrawal_mt st) []"
    and "total_pow st = 0" "lc_blockhash st = replicate 32 0" "total_num_withdrawals st = 0"
    and "bridge_rounds H E periods (st, s) = Some (st', s')"
  shows "\<exists>headers. chain_valid H (cur_block_hash st) headers \<and>
    cur_block_hash st' = chain_tip H (cur_block_hash st) headers \<and>
    total_pow st' = chain_work headers \<and>
    (length headers \<le> 2 ^ 32 \<longrightarrow>
      root (blockhashes_mt st') = tree_root H 32 (chain_hashes H (cur_block_hash st) headers))"
proof -
  have "refines H st (initial_claim (cur_block_hash st))"
    using assms by (simp add: refines_def initial_claim_def)
  from sized_reads.rounds_refine [OF assms(2,1) this assms(8)] obtain claim k where
    claim: "(period_step H ^^ k) (initial_claim (cur_block_hash st)) claim" "refines H st' claim"
    by blast
  obtain hs where "chain_valid H (cur_block_hash st) hs"
    "claim_blocks claim = chain_hashes H (cur_block_hash st) hs"
    "claim_work claim = chain_work hs" "claim_tip claim = chain_tip H (cur_block_hash st) hs"
    using periods_one_chain [OF claim(1)] by (auto simp: one_chain_def)
  with claim(2) show ?thesis
    using imt.root_holds [of H "blockhashes_mt st'"]
    by (intro exI [of _ hs]) (auto simp: refines_def)
qed

theorem bridge_rounds_single_chain_witness:
  "\<exists>headers. chain_valid const_hash zeros32 headers \<and>
    const_hash [] = chain_tip const_hash zeros32 headers"
proof -
  obtain c where c: "bridge_rounds const_hash guest [0, 1, 2, 3] (example_start, round_items @ []) =
      Some (c, [])" "cur_block_hash c = const_hash []"
    using example_rounds by blast
  have "represents 32 const_hash example_imt []"
    by (simp add: represents_def example_imt_def zero_root_const const_hash_def)
  then show ?thesis
    using bridge_rounds_single_chain [OF hash32_const sized_reads_guest _ _ _ _ _ c(1)] c(2)
    by (auto simp: example_start_def zeros32_def)
qed

text \<open>
  What the tape names for a withdrawal: its address, the hash of the header above its transaction,
  and the place and path of that hash in the tree of block hashes.
\<close>

fun read_strings :: "'s environment \<Rightarrow> nat \<Rightarrow> 's \<Rightarrow> (bytes list \<times> 's) option" where
  "read_strings E 0 s = Some ([], s)"
| "read_strings E (Suc n) s = do {
     (x, s) \<leftarrow> read_32bytes E s;
     (xs, s) \<leftarrow> read_strings E n s;
     Some (x # xs, s)
   }"

definition withdrawal_claim ::
  "hash_fun \<Rightarrow> 's environment \<Rightarrow> 's \<Rightarrow> (bytes \<times> bytes \<times> nat \<times> bytes list) option" where
  "withdrawal_claim H E s = do {
     (address, s) \<leftarrow> read_32bytes E s;
     (txid, s) \<leftarrow> read_tx_and_calculate_txid H E None (Some (Some BRIDGE_AMOUNT_SATS, address)) s;
     (mt_root, s) \<leftarrow> read_and_verify_bitcoin_merkle_path H E txid s;
     (blockhash, s) \<leftarrow> read_header_except_root_and_calculate_blockhash H E mt_root s;
     (idx, s) \<leftarrow> read_u32 E s;
     (path, s) \<leftarrow> read_strings E BLOCKHASH_MERKLE_TREE_DEPTH s;
     Some (address, blockhash, unat idx, path)
   }"

context sized_reads
begin

lemma climb_steps_read:
  "for_each xs (\<lambda>_. climb_step F E) (h, i, s) = Some (h', i', s') \<Longrightarrow>
    \<exists>path. read_strings E (length xs) s = Some (path, s') \<and> length path = length xs \<and>
      (\<forall>p \<in> set path. length p = 32) \<and> h' = climb F (unat i) path h"
proof (induction xs arbitrary: h i s)
  case (Cons x xs)
  then obtain node s1 where node: "read_32bytes E s = Some (node, s1)"
    and "for_each xs (\<lambda>_. climb_step F E) (F (node_input (unat i) h node), i div 2, s1) = Some (h', i', s')"
    by (auto simp: climb_step_def bind_eq_Some_conv)
  from Cons.IH [OF this(2)] obtain path where "read_strings E (length xs) s1 = Some (path, s')"
    "length path = length xs" "\<forall>p \<in> set path. length p = 32"
    "h' = climb F (unat i div 2) path (F (node_input (unat i) h node))"
    by (auto simp: unat_div)
  with node read_32bytes_length [OF node] show ?case
    by (intro exI [of _ "node # path"]) simp
qed simp

lemma tree_proof_read:
  assumes "read_merkle_tree_proof D H E leaf None s = Some (r, s')"
  obtains idx s1 path where "read_u32 E s = Some (idx, s1)" "read_strings E D s1 = Some (path, s')"
    "length path = D" "\<forall>p \<in> set path. length p = 32" "climb H (unat idx) path leaf = r"
proof -
  from assms obtain idx s1 i' where "read_u32 E s = Some (idx, s1)"
    and "for_each [0..<D] (\<lambda>_. climb_step H E) (leaf, idx, s1) = Some (r, i', s')"
    by (auto simp: read_merkle_tree_proof_eq bind_eq_Some_conv)
  with climb_steps_read [OF this(2)] that show ?thesis
    by auto
qed

lemma withdrawal_claim_read:
  assumes "read_withdrawal_proof H E r (wmt, s) = Some (wmt', s')"
  obtains address blockhash idx path tx txs_idx txs_path version prev time bits nonce where
    "withdrawal_claim H E s = Some (address, blockhash, idx, path)"
    "imt_add WITHDRAWAL_MERKLE_TREE_DEPTH H address wmt = Some wmt'" "wf_tx tx"
    "pays (Some (Some BRIDGE_AMOUNT_SATS, address)) (tx_outputs tx)"
    "blockhash = calculate_next_block_hash H prev (version,
      climb (\<lambda>x. H (H x)) txs_idx txs_path (H (H (tx_bytes tx))), time, bits, nonce)"
    "idx < 2 ^ 32" "length path = 32" "\<forall>p \<in> set path. length p = 32" "climb H idx path blockhash = r"
proof -
  from assms obtain address s1 txid s2 mt_root s3 blockhash s4 where
    1: "read_32bytes E s = Some (address, s1)"
      "read_tx_and_calculate_txid H E None (Some (Some BRIDGE_AMOUNT_SATS, address)) s1 = Some (txid, s2)"
      "read_and_verify_bitcoin_merkle_path H E txid s2 = Some (mt_root, s3)"
      "read_header_except_root_and_calculate_blockhash H E mt_root s3 = Some (blockhash, s4)"
      "read_merkle_tree_proof 32 H E blockhash None s4 = Some (r, s')"
    and add: "imt_add WITHDRAWAL_MERKLE_TREE_DEPTH H address wmt = Some wmt'"
    by (auto simp: read_withdrawal_proof_def bind_eq_Some_conv BLOCKHASH_MERKLE_TREE_DEPTH_def split: if_splits)
  from tree_proof_read [OF 1(5)] obtain idx s5 path where
    path: "read_u32 E s4 = Some (idx, s5)" "read_strings E 32 s5 = Some (path, s')" "length path = 32"
      "\<forall>p \<in> set path. length p = 32" "climb H (unat idx) path blockhash = r" .
  have claim: "withdrawal_claim H E s = Some (address, blockhash, unat idx, path)"
    using 1 path by (simp add: withdrawal_claim_def BLOCKHASH_MERKLE_TREE_DEPTH_def)
  obtain tx where tx: "wf_tx tx" "pays (Some (Some BRIDGE_AMOUNT_SATS, address)) (tx_outputs tx)"
    "txid = H (H (tx_bytes tx))"
    using read_tx_sound [OF 1(2)] by blast
  obtain txs_idx :: u32 and txs_path where "mt_root = climb (\<lambda>x. H (H x)) (unat txs_idx) txs_path txid"
    using bitcoin_merkle_path_sound [OF 1(3)] by blast
  moreover obtain version :: i32 and prev and time bits nonce :: u32 where
    "blockhash = calculate_next_block_hash H prev (version, mt_root, time, bits, nonce)"
    using header_with_root_sound [OF 1(4)] by blast
  moreover have "unat idx < 2 ^ 32"
    using unat_less_pow [of idx] by simp
  ultimately show ?thesis
    using tx path(3-5) by (intro that [OF claim add tx(1,2)]) simp_all
qed

end

text \<open>
  C12. A withdrawal is added to the withdrawal tree only with a transaction that pays exactly the
  bridge amount to its address, committed to by the Merkle root of some header; and unless SHA-256
  collides on two strings hashed along the path on the tape or the true path of its place, or hashes
  that header to the padding, the hash of the header is the block hash accumulated at that place.
\<close>

theorem withdrawal_in_accumulated_block:
  assumes "hash32 H" "sized_reads E"
    and "represents 32 H bmt blocks" "\<forall>b \<in> set blocks. length b = 32"
    and "read_withdrawal_proof H E (root bmt) (wmt, s) = Some (wmt', s')"
  shows "\<exists>address blockhash idx path tx txs_idx txs_path version prev time bits nonce.
    withdrawal_claim H E s = Some (address, blockhash, idx, path) \<and>
    imt_add WITHDRAWAL_MERKLE_TREE_DEPTH H address wmt = Some wmt' \<and> wf_tx tx \<and>
    pays (Some (Some BRIDGE_AMOUNT_SATS, address)) (tx_outputs tx) \<and>
    blockhash = calculate_next_block_hash H prev (version,
      climb (\<lambda>x. H (H x)) txs_idx txs_path (H (H (tx_bytes tx))), time, bits, nonce) \<and>
    (inj_on H (set (climb_inputs H idx path blockhash) \<union>
        set (climb_inputs H idx (siblings H EMPTYDATA 32 blocks idx) (leaf_at EMPTYDATA blocks idx))) \<and>
      blockhash \<noteq> EMPTYDATA \<longrightarrow> idx < length blocks \<and> blockhash = blocks ! idx)"
proof (rule sized_reads.withdrawal_claim_read [OF assms(2,5)])
  fix address blockhash idx path tx txs_idx txs_path and version :: i32 and prev and time bits nonce :: u32
  assume 1: "withdrawal_claim H E s = Some (address, blockhash, idx, path)"
    "imt_add WITHDRAWAL_MERKLE_TREE_DEPTH H address wmt = Some wmt'" "wf_tx tx"
    "pays (Some (Some BRIDGE_AMOUNT_SATS, address)) (tx_outputs tx)"
    and block: "blockhash = calculate_next_block_hash H prev (version,
      climb (\<lambda>x. H (H x)) txs_idx txs_path (H (H (tx_bytes tx))), time, bits, nonce)"
    and path: "idx < 2 ^ 32" "length path = 32" "\<forall>p \<in> set path. length p = 32"
      "climb H idx path blockhash = root bmt"
  have H: "\<And>x. length (H x) = 32"
    using assms(1) by (simp add: hash32_def)
  have "length blockhash = 32"
    using length_next_block_hash [OF assms(1)] block by blast
  from imt.member_of_root [OF assms(3) H length_EMPTYDATA assms(4) path(2,3) this path(4)] path(1)
  have "inj_on H (set (climb_inputs H idx path blockhash) \<union>
        set (climb_inputs H idx (siblings H EMPTYDATA 32 blocks idx) (leaf_at EMPTYDATA blocks idx))) \<and>
      blockhash \<noteq> EMPTYDATA \<longrightarrow> idx < length blocks \<and> blockhash = blocks ! idx"
    by (auto simp: leaf_at_def split: if_splits)
  with 1 block show ?thesis
    by blast
qed

text \<open>A hash that counts levels in its first byte, which does not collide along a path.\<close>

definition level_hash :: hash_fun where
  "level_hash x = (if length x = 64 then hd x + 1 else 0) # replicate 31 0"

lemma length_level_hash [simp]: "length (level_hash x) = 32"
  by (simp add: level_hash_def)

lemma level_hash_short: "length x \<noteq> 64 \<Longrightarrow> level_hash x = zeros32"
  by (simp add: level_hash_def zeros32_def numeral_eq_Suc)

lemma level_hash_path:
  "length h = 32 \<Longrightarrow> \<forall>p \<in> set path. length p = 32 \<Longrightarrow>
    List.map (hd \<circ> level_hash) (climb_inputs level_hash 0 path h) =
    List.map (\<lambda>i. hd h + word_of_nat (Suc i)) [0..<length path]"
proof (induction path arbitrary: h)
  case (Cons p path)
  have "h \<noteq> []"
    using Cons.prems by auto
  with Cons show ?case
    by (simp add: node_input_def level_hash_def map_upt_Suc comp_def del: upt_Suc)
qed simp

lemma level_hash_inj:
  assumes "length h = 32" "\<forall>p \<in> set path. length p = 32" "length path < 2 ^ 8"
  shows "inj_on level_hash (set (climb_inputs level_hash 0 path h))"
proof -
  have "distinct (List.map (\<lambda>i. hd h + (word_of_nat (Suc i) :: u8)) [0..<length path])"
    using assms(3) by (auto simp: distinct_map inj_on_def word_of_nat_eq_iff take_bit_nat_eq_self)
  then have "inj_on (hd \<circ> level_hash) (set (climb_inputs level_hash 0 path h))"
    using level_hash_path [OF assms(1,2)] by (metis distinct_map)
  then show ?thesis
    by (rule inj_on_imageI2)
qed

definition zeros_path :: "bytes list" where
  "zeros_path = siblings level_hash EMPTYDATA 32 [zeros32] 0"

definition zeros_tape :: tape where
  "zeros_tape = Item32 zeros32 # tx_items (paying_tx 100000000 zeros32 zeros32) @
    [ItemU32 0, ItemU32 0, ItemI32 2, Item32 zeros32, ItemU32 0, ItemU32 0, ItemU32 0, ItemU32 0] @
    List.map Item32 zeros_path"

lemma zeros_path: "length zeros_path = 32" "\<forall>p \<in> set zeros_path. length p = 32"
  unfolding zeros_path_def by (simp, rule length_siblings_entries) simp_all

lemma read_strings_items:
  "\<forall>p \<in> set ps. length p = 32 \<Longrightarrow> read_strings guest (length ps) (List.map Item32 ps @ t) = Some (ps, t)"
  by (induction ps) (simp_all add: tape_reads)

lemma zeros_header: "double_sha256_hash level_hash [u32_le a, zeros32, x, u32_le b, u32_le c, u32_le d] = zeros32"
  by (simp add: double_sha256_hash_def sha256_hash_def level_hash_short)

lemma zeros_inclusion: "read_and_verify_bitcoin_merkle_path level_hash guest txid (ItemU32 0 # ItemU32 0 # t) = Some (txid, t)"
  using guest.bitcoin_merkle_path_complete [where path = "[]" and idx = 0 and s = t] by simp

lemma zeros_proof:
  "read_merkle_tree_proof 32 level_hash guest zeros32 None (ItemU32 0 # List.map Item32 zeros_path) =
    Some (tree_root level_hash 32 [zeros32], [])"
proof -
  have "climb level_hash 0 zeros_path (leaf_at EMPTYDATA [zeros32] 0) = tree_root level_hash 32 [zeros32]"
    unfolding zeros_path_def by (rule climb_siblings) simp
  then show ?thesis
    using guest.merkle_tree_proof_complete(1) [OF zeros_path(2,1), of level_hash zeros32 0 "[]"]
    by (simp add: leaf_at_def del: mroot.simps)
qed

lemmas zeros_reads = tape_reads guest.read_tx_complete [simplified] wf_paying_tx zeros_inclusion
  BLOCKHASH_MERKLE_TREE_DEPTH_def BRIDGE_AMOUNT_SATS_def
  read_header_except_root_and_calculate_blockhash_def zeros_header

theorem withdrawal_in_accumulated_block_witness:
  "\<exists>bmt wmt wmt' blockhash path tx. represents 32 level_hash bmt [zeros32] \<and>
    read_withdrawal_proof level_hash guest (root bmt) (wmt, zeros_tape) = Some (wmt', []) \<and>
    withdrawal_claim level_hash guest zeros_tape = Some (zeros32, blockhash, 0, path) \<and>
    inj_on level_hash (set (climb_inputs level_hash 0 path blockhash)) \<and> blockhash = [zeros32] ! 0 \<and>
    wf_tx tx \<and> pays (Some (Some BRIDGE_AMOUNT_SATS, zeros32)) (tx_outputs tx)"
proof -
  obtain t where t: "represents 32 level_hash t []"
    using represents_new [of 32 level_hash] by auto
  obtain bmt where bmt: "represents 32 level_hash bmt [zeros32]"
    using represents_add [OF _ t, of zeros32] by auto
  obtain wmt where add: "imt_add 32 level_hash zeros32 t = Some wmt"
    using represents_add [OF _ t, of zeros32] by auto
  have root: "root bmt = tree_root level_hash 32 [zeros32]"
    by (rule imt.root_holds [OF bmt])
  have read: "read_withdrawal_proof level_hash guest (root bmt) (t, zeros_tape) = Some (wmt, [])"
    using add unfolding root
    by (simp add: read_withdrawal_proof_def zeros_tape_def zeros_reads zeros_proof
        WITHDRAWAL_MERKLE_TREE_DEPTH_def del: mroot.simps)
  have claim: "withdrawal_claim level_hash guest zeros_tape = Some (zeros32, zeros32, 0, zeros_path)"
    using read_strings_items [OF zeros_path(2), of "[]"]
    by (simp add: withdrawal_claim_def zeros_tape_def zeros_reads zeros_path(1))
  have inj: "inj_on level_hash (set (climb_inputs level_hash 0 zeros_path zeros32))"
    by (rule level_hash_inj) (simp_all add: zeros_path)
  have "hash32 level_hash"
    by (simp add: hash32_def)
  from withdrawal_in_accumulated_block [OF this sized_reads_guest bmt _ read] claim
  obtain tx where tx: "wf_tx tx" "pays (Some (Some BRIDGE_AMOUNT_SATS, zeros32)) (tx_outputs tx)"
    and "inj_on level_hash (set (climb_inputs level_hash 0 zeros_path zeros32) \<union>
      set (climb_inputs level_hash 0 (siblings level_hash EMPTYDATA 32 [zeros32] 0) (leaf_at EMPTYDATA [zeros32] 0))) \<and>
      zeros32 \<noteq> EMPTYDATA \<longrightarrow> zeros32 = [zeros32] ! 0"
    by auto
  with inj have "zeros32 = [zeros32] ! 0"
    by (simp add: leaf_at_def zeros_path_def)
  with bmt read claim inj tx show ?thesis
    by metis
qed

text \<open>
  What the circuit takes from the tape as the verifiers' challenge is not verified at all: any
  four strings are accepted as its proof, with any work and block hash, and the number of the
  period is truncated to a byte.
\<close>

lemma challenge_accepted_unverified:
  assumes "\<forall>p \<in> set [p0, p1, p2, p3, blockhash, pow]. length p = 32"
  shows "read_and_verify_verifiers_challenge_proof guest
      (List.map Item32 [p0, p1, p2, p3, blockhash, pow] @ ItemU32 period_num # rest) =
    Some ((word_of_nat (from_le pow), blockhash, word_of_nat (unat period_num mod 256)), rest)"
proof -
  have "(ucast period_num :: u8) = word_of_nat (unat period_num mod 256)"
    by (simp add: word_unat_eq_iff unat_of_nat unsigned_ucast_eq take_bit_eq_mod)
  with assms show ?thesis
    by (simp add: read_and_verify_verifiers_challenge_proof_def verify_challenge_proof_def
        tape_reads u256_from_le_bytes_def)
qed

end
