(* ===== verification/Bridge_Completeness.thy ===== *)
theory Bridge_Completeness
  imports Guest_Programs
begin

text \<open>
  The other direction of the soundness of the bridge circuit: what an honest host writes, and that
  the circuit accepts it. A host's data is a record for each part of the tape, in the order in which
  \<open>bridge_proof\<close> reads it; its conditions are those of the abstract machine of \<open>Bridge_Circuit\<close>, so a
  claim that the machine can make is one that the circuit returns.
\<close>

section \<open>Headers\<close>

definition header_items :: "header_without_prev \<Rightarrow> tape" where
  "header_items = (\<lambda>(version, merkle_root, time, bits, nonce).
     [ItemI32 version, Item32 merkle_root, ItemU32 time, ItemU32 bits, ItemU32 nonce])"

definition wf_header :: "header_without_prev \<Rightarrow> bool" where
  "wf_header = (\<lambda>(version, merkle_root, time, bits, nonce). length merkle_root = 32)"

definition blocks_items :: "header_without_prev list \<Rightarrow> tape" where
  "blocks_items hs = ItemU32 (word_of_nat (length hs)) # concat (List.map header_items hs)"

lemma validate_threshold_and_add_work_complete:
  assumes "header_valid hash h" "length hash = 32"
  shows "validate_threshold_and_add_work (u32_le (header_bits h)) hash w = Some (w + header_work h)"
proof -
  from assms(1) obtain target where target: "decode_compact_target (u32_le (header_bits h)) = Some target"
    "from_le hash \<le> from_le target"
    by (auto simp: header_valid_def split: option.splits)
  have "length target = 32"
    using target(1) by (rule decode_compact_target_length [rotated]) simp
  with target(2) assms(2) have "check_hash_valid hash target = Some ()"
    using check_bytes_prefix [of 32 hash target] by (simp add: check_hash_valid_def)
  with target(1) show ?thesis
    by (simp add: validate_threshold_and_add_work_def header_work_def)
qed

lemma chain_hashes_take: "chain_hashes H start (take i hs) = take i (chain_hashes H start hs)"
  by (induction hs arbitrary: start i) (auto simp: Let_def take_Cons split: nat.splits)

lemma chain_tip_take:
  "i \<le> length hs \<Longrightarrow> chain_tip H start (take i hs) = (start # chain_hashes H start hs) ! i"
  by (simp add: chain_tip_def chain_hashes_take last_conv_nth nth_Cons' del: last.simps)

lemma chain_valid_nth:
  assumes "chain_valid H start hs" "i < length hs"
  shows "header_valid (calculate_next_block_hash H (chain_tip H start (take i hs)) (hs ! i)) (hs ! i)"
proof -
  have "chain_valid H start (take (Suc i) hs)"
    using assms(1) chain_append(2) [of H start "take (Suc i) hs" "drop (Suc i) hs"] by simp
  with assms(2) show ?thesis
    by (simp add: take_Suc_conv_app_nth chain_snoc)
qed

context host_tape
begin

lemma read_header_complete:
  "wf_header h \<Longrightarrow> read_header_except_prev_blockhash E (load (header_items h) s) = Some (h, s)"
  by (cases h) (simp add: read_header_except_prev_blockhash_def header_items_def wf_header_def pushed)

lemma add_block_complete:
  assumes "hash32 H" "wf_header h" "header_valid (calculate_next_block_hash H cur h) h"
    and "represents 32 H t ls" "length ls < 2 ^ 32"
  shows "\<exists>t'. add_block H E n m i (w, lc, cur, t, load (header_items h) s) =
      Some (w + header_work h, if word_of_nat i = n - m then cur else lc,
        calculate_next_block_hash H cur h, t', s) \<and>
    represents 32 H t' (ls @ [calculate_next_block_hash H cur h])"
  using imt.add_holds [OF assms(4,5), of "calculate_next_block_hash H cur h"] assms(1)
  by (auto simp: add_block_def read_header_complete [OF assms(2)] Let_def BLOCKHASH_MERKLE_TREE_DEPTH_def
      validate_threshold_and_add_work_complete [OF assms(3)])

text \<open>Headers that form a valid chain are accepted, and the tree then holds their hashes as well.\<close>

lemma block_before_tip:
  assumes n: "unat (n :: u32) = length hs"
  shows "(if unat (n - m) < length hs then (start # chain_hashes H start hs) ! unat (n - m)
    else replicate 32 0) = chain_before_tip H (unat m) start hs"
proof (cases "unat (n - m) < length hs")
  case True
  then have "m \<noteq> 0" "unat m \<le> unat n"
    using word_sub_index(1) [of n m] n by simp_all
  with True word_sub_index(2) [of m n] n show ?thesis
    by (simp add: chain_before_tip_def unat_gt_0)
next
  case False
  then have "\<not> (0 < unat m \<and> unat m \<le> length hs)"
    using word_sub_index(1) [of n m] n by (auto simp: unat_gt_0)
  with False show ?thesis
    by (auto simp: chain_before_tip_def)
qed

lemma read_blocks_complete:
  assumes "hash32 H" "chain_valid H start hs" "length hs < 2 ^ 32" "\<forall>h \<in> set hs. wf_header h"
    and "represents 32 H t ls" "length ls + length hs \<le> 2 ^ 32"
  shows "\<exists>t'. read_blocks_and_add_to_merkle_tree H E start t m (load (blocks_items hs) s) =
      Some ((chain_work hs, chain_before_tip H (unat m) start hs, chain_tip H start hs), t', s) \<and>
    represents 32 H t' (ls @ chain_hashes H start hs)"
proof -
  define n :: u32 where "n = word_of_nat (length hs)"
  have n: "unat n = length hs"
    using assms(3) by (simp add: n_def unat_of_nat)
  define lc where "lc = (\<lambda>i. if unat (n - m) < i then (start # chain_hashes H start hs) ! unat (n - m)
    else replicate 32 (0 :: u8))"
  define I where "I = (\<lambda>i (st :: u256 \<times> bytes \<times> bytes \<times> incremental_merkle_tree \<times> 's).
    \<exists>t1. represents 32 H t1 (ls @ chain_hashes H start (take i hs)) \<and>
      st = (chain_work (take i hs), lc i, chain_tip H start (take i hs), t1,
        load (concat (List.map header_items (drop i hs))) s))"
  have "\<exists>b. for_each [0..<unat n] (add_block H E n m)
      (0, replicate 32 0, start, t, load (concat (List.map header_items hs)) s) = Some b \<and> I (unat n) b"
  proof (rule for_each_total)
    show "I 0 (0, replicate 32 0, start, t, load (concat (List.map header_items hs)) s)"
      using assms(5) by (simp add: I_def lc_def)
  next
    fix i x
    assume i: "i < unat n" and "I i x"
    then obtain t1 where t1: "represents 32 H t1 (ls @ chain_hashes H start (take i hs))"
      and x: "x = (chain_work (take i hs), lc i, chain_tip H start (take i hs), t1,
        load (concat (List.map header_items (drop i hs))) s)"
      by (auto simp: I_def)
    let ?h = "hs ! i" and ?cur = "chain_tip H start (take i hs)"
    have drop: "concat (List.map header_items (drop i hs)) =
        header_items ?h @ concat (List.map header_items (drop (Suc i) hs))"
      using i n by (simp add: Cons_nth_drop_Suc [symmetric])
    have take: "take (Suc i) hs = take i hs @ [?h]"
      using i n by (simp add: take_Suc_conv_app_nth)
    have "length (ls @ chain_hashes H start (take i hs)) < 2 ^ 32" "wf_header ?h"
      using assms(4,6) i n by simp_all
    moreover have "i < length hs"
      using i n by simp
    ultimately obtain t2 where t2: "add_block H E n m i (chain_work (take i hs), lc i, ?cur, t1,
        load (header_items ?h) (load (concat (List.map header_items (drop (Suc i) hs))) s)) =
        Some (chain_work (take i hs) + header_work ?h, if word_of_nat i = n - m then ?cur else lc i,
          calculate_next_block_hash H ?cur ?h, t2, load (concat (List.map header_items (drop (Suc i) hs))) s)"
      "represents 32 H t2 ((ls @ chain_hashes H start (take i hs)) @ [calculate_next_block_hash H ?cur ?h])"
      using add_block_complete [OF assms(1) _ chain_valid_nth [OF assms(2)] t1] by blast
    have "(word_of_nat i = n - m) = (i = unat (n - m))"
      using i unat_less_pow [of n] by (auto simp: word_unat_eq_iff unat_of_nat)
    then have "(if word_of_nat i = n - m then ?cur else lc i) = lc (Suc i)"
      using i n by (auto simp: lc_def chain_tip_take less_Suc_eq)
    with t2 show "\<exists>y. add_block H E n m i x = Some y \<and> I (Suc i) y"
      by (simp add: I_def x drop take chain_snoc chain_hashes_snoc)
  qed
  then obtain t' where t': "represents 32 H t' (ls @ chain_hashes H start hs)"
    and run: "for_each [0..<unat n] (add_block H E n m)
      (0, replicate 32 0, start, t, load (concat (List.map header_items hs)) s) =
      Some (chain_work hs, lc (length hs), chain_tip H start hs, t', s)"
    by (auto simp: I_def n)
  have "lc (length hs) = chain_before_tip H (unat m) start hs"
    using block_before_tip [OF n] by (simp add: lc_def)
  with t' run show ?thesis
    by (simp add: read_blocks_and_add_to_merkle_tree_def blocks_items_def pushed n_def [symmetric])
qed

lemma read_deep_blocks_complete:
  assumes "hash32 H" "chain_valid H start hs" "length hs < 2 ^ 32" "\<forall>h \<in> set hs. wf_header h"
  shows "read_blocks_and_calculate_work H E start (load (blocks_items hs) s) = Some (chain_work hs, s)"
proof -
  let ?step = "\<lambda>_ (total_work, curr, s). do {
         (header, s) \<leftarrow> read_header_except_prev_blockhash E s;
         let curr = calculate_next_block_hash H curr header;
         total_work \<leftarrow> validate_threshold_and_add_work (u32_le (header_bits header)) curr total_work;
         Some (total_work, curr, s) }"
  define I where "I = (\<lambda>i (st :: u256 \<times> bytes \<times> 's). st = (chain_work (take i hs),
    chain_tip H start (take i hs), load (concat (List.map header_items (drop i hs))) s))"
  have "\<exists>b. for_each [0..<length hs] ?step (0, start, load (concat (List.map header_items hs)) s) = Some b \<and>
      I (length hs) b"
  proof (rule for_each_total)
    show "I 0 (0, start, load (concat (List.map header_items hs)) s)"
      by (simp add: I_def)
  next
    fix i x
    assume i: "i < length hs" and "I i x"
    have "concat (List.map header_items (drop i hs)) =
        header_items (hs ! i) @ concat (List.map header_items (drop (Suc i) hs))"
      using i by (simp add: Cons_nth_drop_Suc [symmetric])
    with \<open>I i x\<close> i assms(1,4) show "\<exists>y. ?step i x = Some y \<and> I (Suc i) y"
      by (simp add: I_def read_header_complete take_Suc_conv_app_nth chain_snoc
          validate_threshold_and_add_work_complete [OF chain_valid_nth [OF assms(2)]])
  qed
  moreover have "unat (word_of_nat (length hs) :: u32) = length hs"
    using assms(3) by (simp add: unat_of_nat)
  ultimately show ?thesis
    by (simp add: read_blocks_and_calculate_work_def blocks_items_def pushed I_def)
qed

end

section \<open>Transactions in blocks\<close>

text \<open>
  The path of a transaction to the Merkle root of its header, that header without the root, and the
  path of the block hash to the root of the accumulated blocks.
\<close>

record inclusion =
  inc_tx_idx :: u32
  inc_tx_path :: "bytes list"
  inc_version :: i32
  inc_prev :: bytes
  inc_time :: u32
  inc_bits :: u32
  inc_nonce :: u32
  inc_block_idx :: u32
  inc_block_path :: "bytes list"

definition path_items :: "inclusion \<Rightarrow> tape" where
  "path_items inc = [ItemU32 (inc_tx_idx inc), ItemU32 (word_of_nat (length (inc_tx_path inc)))] @
     List.map Item32 (inc_tx_path inc) @
     [ItemI32 (inc_version inc), Item32 (inc_prev inc), ItemU32 (inc_time inc), ItemU32 (inc_bits inc),
      ItemU32 (inc_nonce inc), ItemU32 (inc_block_idx inc)] @
     List.map Item32 (inc_block_path inc)"

definition wf_inclusion :: "inclusion \<Rightarrow> bool" where
  "wf_inclusion inc \<longleftrightarrow> length (inc_tx_path inc) < 2 ^ 32 \<and> (\<forall>p \<in> set (inc_tx_path inc). length p = 32) \<and>
     length (inc_prev inc) = 32 \<and> length (inc_block_path inc) = 32 \<and>
     (\<forall>p \<in> set (inc_block_path inc). length p = 32)"

definition tx_merkle_root :: "hash_fun \<Rightarrow> bytes \<Rightarrow> inclusion \<Rightarrow> bytes" where
  "tx_merkle_root H txid inc = climb (\<lambda>x. H (H x)) (unat (inc_tx_idx inc)) (inc_tx_path inc) txid"

definition including_block :: "hash_fun \<Rightarrow> bytes \<Rightarrow> inclusion \<Rightarrow> bytes" where
  "including_block H txid inc = calculate_next_block_hash H (inc_prev inc)
     (inc_version inc, tx_merkle_root H txid inc, inc_time inc, inc_bits inc, inc_nonce inc)"

definition inclusion_root :: "hash_fun \<Rightarrow> bytes \<Rightarrow> inclusion \<Rightarrow> bytes" where
  "inclusion_root H txid inc =
     climb H (unat (inc_block_idx inc)) (inc_block_path inc) (including_block H txid inc)"

text \<open>A withdrawal: its address, the transaction that pays it, and where that is.\<close>

record withdrawal =
  wd_address :: bytes
  wd_tx :: transaction
  wd_inclusion :: inclusion

definition withdrawal_items :: "withdrawal \<Rightarrow> tape" where
  "withdrawal_items w = Item32 (wd_address w) # tx_items (wd_tx w) @ path_items (wd_inclusion w)"

definition withdrawal_ok :: "hash_fun \<Rightarrow> bytes \<Rightarrow> withdrawal \<Rightarrow> bool" where
  "withdrawal_ok H block_root w \<longleftrightarrow> length (wd_address w) = 32 \<and> wf_tx (wd_tx w) \<and>
     wf_inclusion (wd_inclusion w) \<and>
     pays (Some (Some BRIDGE_AMOUNT_SATS, wd_address w)) (tx_outputs (wd_tx w)) \<and>
     inclusion_root H (H (H (tx_bytes (wd_tx w)))) (wd_inclusion w) = block_root"

context host_tape
begin

text \<open>The three reads along the two paths.\<close>

lemma path_reads_complete:
  assumes "wf_inclusion inc"
  defines "s1 \<equiv> \<lambda>s. load ([ItemI32 (inc_version inc), Item32 (inc_prev inc), ItemU32 (inc_time inc),
      ItemU32 (inc_bits inc), ItemU32 (inc_nonce inc), ItemU32 (inc_block_idx inc)] @
      List.map Item32 (inc_block_path inc)) s"
    and "s2 \<equiv> \<lambda>s. load (ItemU32 (inc_block_idx inc) # List.map Item32 (inc_block_path inc)) s"
  shows "read_and_verify_bitcoin_merkle_path H E txid (load (path_items inc) s) =
      Some (tx_merkle_root H txid inc, s1 s)"
    "read_header_except_root_and_calculate_blockhash H E (tx_merkle_root H txid inc) (s1 s) =
      Some (including_block H txid inc, s2 s)"
    "read_merkle_tree_proof 32 H E (including_block H txid inc) None (s2 s) =
      Some (inclusion_root H txid inc, s)"
proof -
  show "read_and_verify_bitcoin_merkle_path H E txid (load (path_items inc) s) =
      Some (tx_merkle_root H txid inc, s1 s)"
    using bitcoin_merkle_path_complete [of "inc_tx_path inc" H txid "inc_tx_idx inc" "s1 s"] assms(1)
    by (simp add: path_items_def wf_inclusion_def tx_merkle_root_def s1_def)
  show "read_header_except_root_and_calculate_blockhash H E (tx_merkle_root H txid inc) (s1 s) =
      Some (including_block H txid inc, s2 s)"
    using assms(1)
    by (simp add: read_header_except_root_and_calculate_blockhash_def including_block_def
        calculate_next_block_hash_def s1_def s2_def pushed wf_inclusion_def)
  show "read_merkle_tree_proof 32 H E (including_block H txid inc) None (s2 s) =
      Some (inclusion_root H txid inc, s)"
    using merkle_tree_proof_complete(1) [of "inc_block_path inc" 32 H "including_block H txid inc"
        "inc_block_idx inc" s] assms(1)
    by (simp add: wf_inclusion_def inclusion_root_def s2_def)
qed

lemma read_withdrawal_complete:
  assumes "withdrawal_ok H block_root w" "represents 32 H t ls" "length ls < 2 ^ 32"
  shows "\<exists>t'. read_withdrawal_proof H E block_root (t, load (withdrawal_items w) s) = Some (t', s) \<and>
    represents 32 H t' (ls @ [wd_address w])"
proof -
  obtain t' where "imt_add 32 H (wd_address w) t = Some t'" "represents 32 H t' (ls @ [wd_address w])"
    using imt.add_holds [OF assms(2,3)] by blast
  moreover have "read_tx_and_calculate_txid H E None (Some (Some BRIDGE_AMOUNT_SATS, wd_address w))
      (load (tx_items (wd_tx w)) s') = Some (H (H (tx_bytes (wd_tx w))), s')" for s'
    using read_tx_complete [of "wd_tx w"] assms(1) by (simp add: withdrawal_ok_def)
  moreover have "wf_inclusion (wd_inclusion w)"
    using assms(1) by (simp add: withdrawal_ok_def)
  note path_reads_complete [OF this, of H "H (H (tx_bytes (wd_tx w)))" s]
  ultimately show ?thesis
    using assms(1)
    by (simp add: read_withdrawal_proof_def withdrawal_items_def withdrawal_ok_def pushed
        BLOCKHASH_MERKLE_TREE_DEPTH_def WITHDRAWAL_MERKLE_TREE_DEPTH_def)
qed

lemma read_withdrawals_complete:
  assumes "\<forall>w \<in> set ws. withdrawal_ok H block_root w" "represents 32 H t ls"
    and "length ls + length ws \<le> 2 ^ 32"
  shows "\<exists>t'. for_each ws (\<lambda>_. read_withdrawal_proof H E block_root)
      (t, load (concat (List.map withdrawal_items ws)) s) = Some (t', s) \<and>
    represents 32 H t' (ls @ List.map wd_address ws)"
  using assms
proof (induction ws arbitrary: t ls)
  case (Cons w ws)
  then obtain t1 where t1: "read_withdrawal_proof H E block_root
      (t, load (withdrawal_items w) (load (concat (List.map withdrawal_items ws)) s)) =
      Some (t1, load (concat (List.map withdrawal_items ws)) s)"
      "represents 32 H t1 (ls @ [wd_address w])"
    using read_withdrawal_complete [of H block_root w t ls "load (concat (List.map withdrawal_items ws)) s"]
    by auto
  with Cons.IH [OF _ t1(2)] Cons.prems show ?case
    by simp
qed simp

end

section \<open>Periods\<close>

record period =
  period_headers :: "header_without_prev list"
  period_withdrawals :: "withdrawal list"

text \<open>The last period answers 1 to the question whether to end the proof, the others 0.\<close>

definition period_items :: "period \<Rightarrow> bool \<Rightarrow> tape" where
  "period_items p is_last = blocks_items (period_headers p) @
     ItemU32 (word_of_nat (length (period_withdrawals p))) #
     concat (List.map withdrawal_items (period_withdrawals p)) @ [ItemU32 (if is_last then 1 else 0)]"

fun periods_items :: "period list \<Rightarrow> tape" where
  "periods_items [] = []"
| "periods_items (p # ps) = period_items p (ps = []) @ periods_items ps"

text \<open>The claim after a period, and what an honest period is at a claim.\<close>

definition claim_period :: "hash_fun \<Rightarrow> claim_state \<Rightarrow> period \<Rightarrow> claim_state" where
  "claim_period H a p =
     \<lparr>claim_blocks = claim_blocks a @ chain_hashes H (claim_tip a) (period_headers p),
      claim_withdrawals = claim_withdrawals a @ List.map wd_address (period_withdrawals p),
      claim_work = claim_work a + chain_work (period_headers p),
      claim_tip = chain_tip H (claim_tip a) (period_headers p),
      claim_lc = chain_before_tip H 3 (claim_tip a) (period_headers p)\<rparr>"

definition period_ok :: "hash_fun \<Rightarrow> claim_state \<Rightarrow> period \<Rightarrow> bool" where
  "period_ok H a p \<longleftrightarrow> chain_valid H (claim_tip a) (period_headers p) \<and>
     (\<forall>h \<in> set (period_headers p). wf_header h) \<and>
     length (period_headers p) < 2 ^ 32 \<and> length (period_withdrawals p) < 2 ^ 32 \<and>
     length (claim_blocks (claim_period H a p)) \<le> 2 ^ 32 \<and>
     length (claim_withdrawals (claim_period H a p)) \<le> 2 ^ 32 \<and>
     (\<forall>w \<in> set (period_withdrawals p).
       withdrawal_ok H (tree_root H 32 (claim_blocks (claim_period H a p))) w)"

fun periods_ok :: "hash_fun \<Rightarrow> claim_state \<Rightarrow> period list \<Rightarrow> bool" where
  "periods_ok H a [] \<longleftrightarrow> True"
| "periods_ok H a (p # ps) \<longleftrightarrow> period_ok H a p \<and> periods_ok H (claim_period H a p) ps"

text \<open>The state that holds a claim, with both trees within their capacity.\<close>

definition holds_claim :: "hash_fun \<Rightarrow> bridge_state \<Rightarrow> claim_state \<Rightarrow> bool" where
  "holds_claim H c a \<longleftrightarrow> represents 32 H (blockhashes_mt c) (claim_blocks a) \<and>
     represents 32 H (withdrawal_mt c) (claim_withdrawals a) \<and>
     total_pow c = claim_work a \<and> cur_block_hash c = claim_tip a \<and> lc_blockhash c = claim_lc a \<and>
     total_num_withdrawals c = word_of_nat (length (claim_withdrawals a))"

context host_tape
begin

text \<open>An honest host's periods are accepted, and the number of the last one is kept.\<close>

lemma bridge_rounds_complete:
  assumes "hash32 H" "periods_ok H a ps" "holds_claim H c a" "ps \<noteq> []" "length ps \<le> length numbers"
  shows "\<exists>c'. bridge_rounds H E numbers (c, load (periods_items ps) s) = Some (c', s) \<and>
    holds_claim H c' (fold (\<lambda>p a. claim_period H a p) ps a) \<and> last_period c' = numbers ! (length ps - 1)"
  using assms(2-5)
proof (induction ps arbitrary: numbers c a)
  case (Cons p ps)
  obtain number numbers' where numbers: "numbers = number # numbers'"
    using Cons.prems(4) by (cases numbers) auto
  let ?hs = "period_headers p" and ?ws = "period_withdrawals p" and ?b = "claim_period H a p"
  let ?next = "load (periods_items ps) s"
  let ?after = "load (concat (List.map withdrawal_items ?ws) @ [ItemU32 (if ps = [] then 1 else 0)]) ?next"
  have ok: "period_ok H a p" "periods_ok H ?b ps"
    using Cons.prems(1) by simp_all
  have c: "cur_block_hash c = claim_tip a" "represents 32 H (blockhashes_mt c) (claim_blocks a)"
    "represents 32 H (withdrawal_mt c) (claim_withdrawals a)"
    using Cons.prems(2) by (simp_all add: holds_claim_def)
  obtain bmt where bmt: "read_blocks_and_add_to_merkle_tree H E (claim_tip a) (blockhashes_mt c)
      MAX_BLOCK_HANDLE_OPS (load (blocks_items ?hs) (push (ItemU32 (word_of_nat (length ?ws))) ?after)) =
      Some ((chain_work ?hs, claim_lc ?b, claim_tip ?b), bmt, push (ItemU32 (word_of_nat (length ?ws))) ?after)"
    "represents 32 H bmt (claim_blocks ?b)"
    using read_blocks_complete [OF assms(1), of "claim_tip a" ?hs "blockhashes_mt c" "claim_blocks a"
        MAX_BLOCK_HANDLE_OPS "push (ItemU32 (word_of_nat (length ?ws))) ?after"] c ok(1)
    by (auto simp: period_ok_def claim_period_def MAX_BLOCK_HANDLE_OPS_def)
  have root: "root bmt = tree_root H 32 (claim_blocks ?b)"
    using bmt(2) by (rule imt.root_holds)
  let ?rest = "push (ItemU32 (if ps = [] then 1 else 0)) ?next"
  obtain wmt where "for_each ?ws (\<lambda>_. read_withdrawal_proof H E (root bmt))
      (withdrawal_mt c, load (concat (List.map withdrawal_items ?ws)) ?rest) = Some (wmt, ?rest)"
    and wmt_holds: "represents 32 H wmt (claim_withdrawals ?b)"
    using read_withdrawals_complete [of ?ws H "root bmt" "withdrawal_mt c" "claim_withdrawals a" ?rest] c ok(1) root
    by (auto simp: period_ok_def claim_period_def)
  then have wmt: "for_each [0..<length ?ws] (\<lambda>_. read_withdrawal_proof H E (root bmt))
      (withdrawal_mt c, load (concat (List.map withdrawal_items ?ws)) ?rest) = Some (wmt, ?rest)"
    using for_each_const [of "[0..<length ?ws]" ?ws "read_withdrawal_proof H E (root bmt)"] by simp
  have n: "unat (word_of_nat (length ?ws) :: u32) = length ?ws"
    using ok(1) by (simp add: period_ok_def unat_of_nat)
  let ?c = "c\<lparr>blockhashes_mt := bmt, withdrawal_mt := wmt, total_pow := total_pow c + chain_work ?hs,
    cur_block_hash := claim_tip ?b, lc_blockhash := claim_lc ?b,
    total_num_withdrawals := total_num_withdrawals c + word_of_nat (length ?ws)\<rparr>"
  have holds: "holds_claim H ?c ?b"
    using Cons.prems(2) bmt(2) wmt_holds by (simp add: holds_claim_def claim_period_def)
  have run: "bridge_rounds H E numbers (c, load (periods_items (p # ps)) s) =
      (if ps = [] then Some (?c\<lparr>last_period := number\<rparr>, s) else bridge_rounds H E numbers' (?c, ?next))"
    using bmt(1) wmt c(1) n by (simp add: numbers period_items_def pushed Let_def)
  show ?case
  proof (cases "ps = []")
    case True
    with run holds numbers show ?thesis
      by (simp add: holds_claim_def)
  next
    case False
    from Cons.IH [OF ok(2) holds False, of numbers'] Cons.prems(4) numbers obtain c' where
      "bridge_rounds H E numbers' (?c, ?next) = Some (c', s)"
      "holds_claim H c' (fold (\<lambda>p a. claim_period H a p) ps ?b)" "last_period c' = numbers' ! (length ps - 1)"
      by auto
    moreover have "numbers ! length ps = numbers' ! (length ps - 1)"
      using False numbers by (simp add: nth_Cons')
    ultimately show ?thesis
      using run False by simp
  qed
qed simp

end

section \<open>The whole proof\<close>

definition preimages_items :: "bytes \<Rightarrow> bytes list \<Rightarrow> tape" where
  "preimages_items pk ps = [ItemU32 (word_of_nat (length ps)), Item32 pk] @ List.map Item32 ps"

text \<open>Everything a host writes for one proof.\<close>

record proof_data =
  pd_start :: bytes
  pd_periods :: "period list"
  pd_challenge_proof :: "bytes list"
  pd_cutoff :: bytes
  pd_pow :: bytes
  pd_period :: u32
  pd_deep :: "header_without_prev list"
  pd_pk :: bytes
  pd_preimages :: "bytes list"
  pd_commit_tx :: transaction
  pd_vout :: u32
  pd_reveal_tx :: transaction
  pd_reveal_inclusion :: inclusion
  pd_claim_path :: "bytes list"

definition pd_claim :: "hash_fun \<Rightarrow> proof_data \<Rightarrow> claim_state" where
  "pd_claim H d = fold (\<lambda>p a. claim_period H a p) (pd_periods d) (initial_claim (pd_start d))"

definition proof_items :: "hash_fun \<Rightarrow> proof_data \<Rightarrow> tape" where
  "proof_items H d = Item32 (pd_start d) # periods_items (pd_periods d) @
     List.map Item32 (pd_challenge_proof d) @ [Item32 (pd_cutoff d), Item32 (pd_pow d), ItemU32 (pd_period d)] @
     blocks_items (pd_deep d) @
     [Item32 (claim_lc (pd_claim H d)), Item32 (tree_root H 32 (claim_withdrawals (pd_claim H d)))] @
     preimages_items (pd_pk d) (pd_preimages d) @
     tx_items (pd_commit_tx d) @ ItemU32 (pd_vout d) # tx_items (pd_reveal_tx d) @
     path_items (pd_reveal_inclusion d) @ List.map Item32 (pd_claim_path d)"

text \<open>The commitment to the preimages, and the leaf they make in the claim tree.\<close>

definition commits_to_preimages :: "hash_fun \<Rightarrow> ('p, 'k) curve \<Rightarrow> proof_data \<Rightarrow> bool" where
  "commits_to_preimages H C d \<longleftrightarrow> length (pd_pk d) = 32 \<and> (\<forall>p \<in> set (pd_preimages d). length p = 32) \<and>
     37 + 33 * length (pd_preimages d) < 2 ^ 32 \<and> wf_tx (pd_commit_tx d) \<and>
     (case calculate_taproot_from_single_script H C (tap_leaf_hash H (commit_script (pd_pk d) (pd_preimages d))) of
        None \<Rightarrow> False
      | Some address \<Rightarrow> pays (Some (None, address)) (tx_outputs (pd_commit_tx d)))"

definition reveals_in_claim :: "hash_fun \<Rightarrow> proof_data \<Rightarrow> bool" where
  "reveals_in_claim H d \<longleftrightarrow> wf_tx (pd_reveal_tx d) \<and> wf_inclusion (pd_reveal_inclusion d) \<and>
     spends (Some (H (H (tx_bytes (pd_commit_tx d))), pd_vout d)) (tx_inputs (pd_reveal_tx d)) \<and>
     inclusion_root H (H (H (tx_bytes (pd_reveal_tx d)))) (pd_reveal_inclusion d) =
       tree_root H 32 (claim_blocks (pd_claim H d))"

definition answers_challenge :: "hash_fun \<Rightarrow> proof_data \<Rightarrow> bool" where
  "answers_challenge H d \<longleftrightarrow> length (pd_challenge_proof d) = 4 \<and>
     (\<forall>p \<in> set (pd_challenge_proof d). length p = 32) \<and> length (pd_cutoff d) = 32 \<and> length (pd_pow d) = 32 \<and>
     chain_valid H (claim_tip (pd_claim H d)) (pd_deep d) \<and> length (pd_deep d) < 2 ^ 32 \<and>
     (\<forall>h \<in> set (pd_deep d). wf_header h) \<and>
     ((ucast (pd_period d) :: u8) = word_of_nat (length (pd_periods d) - 1) \<and>
        pd_cutoff d = claim_tip (pd_claim H d) \<or>
      u256_from_le_bytes (pd_pow d) < claim_work (pd_claim H d) + chain_work (pd_deep d)) \<and>
     unat (ucast (pd_period d) :: u8) < NUM_ROUNDS \<and>
     length (pd_claim_path d) = CLAIM_MERKLE_TREE_DEPTH \<and> (\<forall>p \<in> set (pd_claim_path d). length p = 32) \<and>
     climb H (unat (word_of_nat (length (claim_withdrawals (pd_claim H d))) :: u32)) (pd_claim_path d)
       (H (concat (List.map H (pd_preimages d)))) =
       PERIOD_CLAIM_MT_ROOTS ! unat (ucast (pd_period d) :: u8)"

definition honest_proof :: "hash_fun \<Rightarrow> ('p, 'k) curve \<Rightarrow> proof_data \<Rightarrow> bool" where
  "honest_proof H C d \<longleftrightarrow> length (pd_start d) = 32 \<and> pd_periods d \<noteq> [] \<and> length (pd_periods d) \<le> NUM_ROUNDS \<and>
     periods_ok H (initial_claim (pd_start d)) (pd_periods d) \<and>
     commits_to_preimages H C d \<and> reveals_in_claim H d \<and> answers_challenge H d"

lemma length_tree_root: "hash32 H \<Longrightarrow> length (tree_root H (Suc n) ls) = 32"
  by (simp add: hash32_def)

lemma length_chain_before_tip:
  assumes "hash32 H" "length start = 32"
  shows "length (chain_before_tip H m start hs) = 32"
proof -
  have "\<forall>b \<in> set (chain_hashes H prev hs). length b = 32" for prev
    using assms(1) by (induction hs arbitrary: prev) (auto simp: Let_def)
  moreover have "length (start # chain_hashes H start hs) = Suc (length hs)"
    by simp
  ultimately have "k < Suc (length hs) \<Longrightarrow> length ((start # chain_hashes H start hs) ! k) = 32" for k
    using assms(2) nth_mem [of k "start # chain_hashes H start hs"] by fastforce
  then show ?thesis
    by (simp add: chain_before_tip_def)
qed

lemma length_chain_tip:
  "hash32 H \<Longrightarrow> length start = 32 \<Longrightarrow> length (chain_tip H start hs) = 32"
  by (induction hs rule: rev_induct) (simp_all add: chain_snoc)

text \<open>Tips and light-client blocks are hashes.\<close>

lemma length_claim:
  assumes "hash32 H" "length (claim_tip a) = 32" "length (claim_lc a) = 32"
  shows "length (claim_lc (fold (\<lambda>p a. claim_period H a p) ps a)) = 32"
  using assms
  by (induction ps arbitrary: a) (simp_all add: claim_period_def length_chain_tip length_chain_before_tip)

context host_tape
begin

lemma read_preimages_complete:
  assumes "length pk = 32" "\<forall>p \<in> set ps. length p = 32" "37 + 33 * length ps < 2 ^ 32"
    and "calculate_taproot_from_single_script H C (tap_leaf_hash H (commit_script pk ps)) = Some address"
  shows "read_preimages_and_calculate_commit_taproot H C E (load (preimages_items pk ps) s) =
    Some ((address, H (concat (List.map H ps))), s)"
proof -
  let ?step = "\<lambda>_ (h, l, s). do {
         let h = h @ [32];
         (preimage, s) \<leftarrow> read_32bytes E s;
         Some (h @ preimage, l @ sha256_hash H [preimage], s) }"
  have loop: "for_each ps ?step (h, l, load (List.map Item32 ps) s) =
      Some (h @ concat (List.map (\<lambda>p. 32 # p) ps), l @ concat (List.map H ps), s)" for h l
    using assms(2) by (induction ps arbitrary: h l) (simp_all add: pushed sha256_hash_def)
  define n :: u32 where "n = word_of_nat (length ps)"
  have n: "unat n = length ps" "unat (37 + 33 * n) = length (commit_script pk ps)"
    using assms(1-3) by (simp_all add: n_def unat_of_nat length_commit_script unat_word_ariths)
  have "for_each [0..<unat n] ?step (h, l, load (List.map Item32 ps) s) =
      Some (h @ concat (List.map (\<lambda>p. 32 # p) ps), l @ concat (List.map H ps), s)" for h l
    using loop for_each_const [of "[0..<unat n]" ps "?step undefined"] n(1) by simp
  with assms(1,4) n(2) show ?thesis
    by (simp add: read_preimages_and_calculate_commit_taproot_def preimages_items_def pushed n_def [symmetric]
        Let_def sha256_hash_def update_hasher_with_varint_eq tap_leaf_hash_def commit_script_def)
qed

lemma read_challenge_complete:
  assumes "length proof = 4" "\<forall>p \<in> set proof. length p = 32" "length cutoff = 32" "length pow = 32"
  shows "read_and_verify_verifiers_challenge_proof E
      (load (List.map Item32 proof @ [Item32 cutoff, Item32 pow, ItemU32 period]) s) =
    Some ((u256_from_le_bytes pow, cutoff, ucast period), s)"
proof -
  from assms(1) obtain p0 p1 p2 p3 where "proof = [p0, p1, p2, p3]"
    by (auto simp: numeral_eq_Suc length_Suc_conv)
  with assms(2-4) show ?thesis
    by (simp add: read_and_verify_verifiers_challenge_proof_def verify_challenge_proof_def pushed Let_def)
qed

lemma bridge_proof_complete:
  assumes "hash32 H" "honest_proof H C d"
  shows "bridge_proof H C E (load (proof_items H d) s) =
    Some ((u256_from_le_bytes (pd_pow d), pd_cutoff d, ucast (pd_period d)), s)"
proof -
  obtain bmt wmt where new: "imt_new 32 H = Some bmt" "imt_new 32 H = Some wmt"
    and rep: "represents 32 H bmt []" "represents 32 H wmt []"
    using imt.new_holds [of H] by auto
  let ?c0 = "\<lparr>blockhashes_mt = bmt, withdrawal_mt = wmt, total_pow = 0, cur_block_hash = pd_start d,
         lc_blockhash = replicate 32 0, total_num_withdrawals = 0, last_period = 0\<rparr>"
  let ?claim = "pd_claim H d" and ?txid = "\<lambda>tx. H (H (tx_bytes tx))"
  let ?s5 = "load (path_items (pd_reveal_inclusion d)) (load (List.map Item32 (pd_claim_path d)) s)"
  let ?s4 = "load (tx_items (pd_commit_tx d)) (push (ItemU32 (pd_vout d)) (load (tx_items (pd_reveal_tx d)) ?s5))"
  let ?s3 = "load (preimages_items (pd_pk d) (pd_preimages d)) ?s4"
  let ?s2 = "load (blocks_items (pd_deep d)) (push (Item32 (claim_lc ?claim))
     (push (Item32 (tree_root H 32 (claim_withdrawals ?claim))) ?s3))"
  let ?s1 = "load (List.map Item32 (pd_challenge_proof d) @ [Item32 (pd_cutoff d), Item32 (pd_pow d),
     ItemU32 (pd_period d)]) ?s2"
  have start: "length (pd_start d) = 32"
    using assms(2) by (simp add: honest_proof_def)
  have "holds_claim H ?c0 (initial_claim (pd_start d))"
    using rep by (simp add: holds_claim_def initial_claim_def)
  then have "\<exists>c. bridge_rounds H E [0..<NUM_ROUNDS] (?c0, load (periods_items (pd_periods d)) ?s1) =
      Some (c, ?s1) \<and> holds_claim H c ?claim \<and> last_period c = length (pd_periods d) - 1"
    using bridge_rounds_complete [OF assms(1), of "initial_claim (pd_start d)" "pd_periods d" ?c0
        "[0..<NUM_ROUNDS]" ?s1] assms(2)
    by (cases "pd_periods d") (auto simp: honest_proof_def pd_claim_def)
  then obtain c where rounds: "bridge_rounds H E [0..<NUM_ROUNDS] (?c0, load (periods_items (pd_periods d)) ?s1) =
      Some (c, ?s1)" and c: "holds_claim H c ?claim" "last_period c = length (pd_periods d) - 1"
    by blast
  have state: "cur_block_hash c = claim_tip ?claim" "lc_blockhash c = claim_lc ?claim"
      "total_pow c = claim_work ?claim" "total_num_withdrawals c = word_of_nat (length (claim_withdrawals ?claim))"
      "root (blockhashes_mt c) = tree_root H 32 (claim_blocks ?claim)"
      "root (withdrawal_mt c) = tree_root H 32 (claim_withdrawals ?claim)"
    using c(1) by (auto simp: holds_claim_def intro: imt.root_holds)
  have lens: "length (claim_lc ?claim) = 32" "length (tree_root H 32 (claim_withdrawals ?claim)) = 32"
    using length_claim [OF assms(1), of "initial_claim (pd_start d)"] start
      length_tree_root [OF assms(1), of 31]
    by (simp_all add: pd_claim_def initial_claim_def)
  obtain address where address: "calculate_taproot_from_single_script H C
      (tap_leaf_hash H (commit_script (pd_pk d) (pd_preimages d))) = Some address"
      "pays (Some (None, address)) (tx_outputs (pd_commit_tx d))" "wf_tx (pd_commit_tx d)"
      "length (pd_pk d) = 32" "\<forall>p \<in> set (pd_preimages d). length p = 32"
      "37 + 33 * length (pd_preimages d) < 2 ^ 32"
    using assms(2) by (auto simp: honest_proof_def commits_to_preimages_def split: option.splits)
  have reveal: "wf_tx (pd_reveal_tx d)" "wf_inclusion (pd_reveal_inclusion d)"
      "spends (Some (?txid (pd_commit_tx d), pd_vout d)) (tx_inputs (pd_reveal_tx d))"
      "inclusion_root H (?txid (pd_reveal_tx d)) (pd_reveal_inclusion d) = tree_root H 32 (claim_blocks ?claim)"
    using assms(2) by (simp_all add: honest_proof_def reveals_in_claim_def)
  have answer: "length (pd_challenge_proof d) = 4" "\<forall>p \<in> set (pd_challenge_proof d). length p = 32"
      "length (pd_cutoff d) = 32" "length (pd_pow d) = 32"
      "chain_valid H (claim_tip ?claim) (pd_deep d)" "length (pd_deep d) < 2 ^ 32" "\<forall>h \<in> set (pd_deep d). wf_header h"
      "(ucast (pd_period d) :: u8) = word_of_nat (length (pd_periods d) - 1) \<and> pd_cutoff d = claim_tip ?claim \<or>
        u256_from_le_bytes (pd_pow d) < claim_work ?claim + chain_work (pd_deep d)"
      "unat (ucast (pd_period d) :: u8) < length PERIOD_CLAIM_MT_ROOTS"
      "length (pd_claim_path d) = CLAIM_MERKLE_TREE_DEPTH" "\<forall>p \<in> set (pd_claim_path d). length p = 32"
      "climb H (unat (word_of_nat (length (claim_withdrawals ?claim)) :: u32)) (pd_claim_path d)
        (H (concat (List.map H (pd_preimages d)))) = PERIOD_CLAIM_MT_ROOTS ! unat (ucast (pd_period d) :: u8)"
    using assms(2) by (simp_all add: honest_proof_def answers_challenge_def PERIOD_CLAIM_MT_ROOTS_def NUM_ROUNDS_def)
  have items: "load (proof_items H d) s = push (Item32 (pd_start d)) (load (periods_items (pd_periods d)) ?s1)"
    by (simp add: proof_items_def)
  have challenge: "read_and_verify_verifiers_challenge_proof E ?s1 =
      Some ((u256_from_le_bytes (pd_pow d), pd_cutoff d, ucast (pd_period d)), ?s2)"
    by (rule read_challenge_complete) (rule answer)+
  have deep: "read_blocks_and_calculate_work H E (claim_tip ?claim) ?s2 = Some (chain_work (pd_deep d),
      push (Item32 (claim_lc ?claim)) (push (Item32 (tree_root H 32 (claim_withdrawals ?claim))) ?s3))"
    by (rule read_deep_blocks_complete) (rule assms answer)+
  have lc: "read_and_verify_lc_proof E (claim_lc ?claim) (tree_root H 32 (claim_withdrawals ?claim))
      (push (Item32 (claim_lc ?claim)) (push (Item32 (tree_root H 32 (claim_withdrawals ?claim))) ?s3)) = Some ?s3"
    using lens by (simp add: read_and_verify_lc_proof_def pushed del: zero_root.simps mroot.simps)
  have preimages: "read_preimages_and_calculate_commit_taproot H C E ?s3 =
      Some ((address, H (concat (List.map H (pd_preimages d)))), ?s4)"
    by (rule read_preimages_complete) (rule address)+
  show ?thesis
    unfolding bridge_proof_def items
    using new rounds challenge deep lc preimages state c(2) start answer(8,9,12) address(2) reveal(3,4)
      read_tx_complete [OF address(3)] read_tx_complete [OF reveal(1)]
      path_reads_complete [OF reveal(2)] merkle_tree_proof_complete(2) [OF answer(11,10)]
    by (auto simp: pushed BLOCKHASH_MERKLE_TREE_DEPTH_def WITHDRAWAL_MERKLE_TREE_DEPTH_def Let_def)
qed

end

section \<open>An honest proof\<close>

text \<open>One block that pays one withdrawal, under the constant hash function.\<close>

definition example_inclusion :: inclusion where
  "example_inclusion = \<lparr>inc_tx_idx = 0, inc_tx_path = [], inc_version = 2, inc_prev = zeros32, inc_time = 0,
     inc_bits = 0, inc_nonce = 0, inc_block_idx = 0, inc_block_path = replicate 32 zeros32\<rparr>"

definition example_period :: period where
  "example_period = \<lparr>period_headers = [(2, zeros32, 0, 0x207fffff, 0)],
     period_withdrawals = [\<lparr>wd_address = zeros32, wd_tx = paying_tx 100000000 zeros32 zeros32,
       wd_inclusion = example_inclusion\<rparr>]\<rparr>"

definition example_proof :: proof_data where
  "example_proof = \<lparr>pd_start = zeros32, pd_periods = [example_period],
     pd_challenge_proof = replicate 4 zeros32, pd_cutoff = const_hash [], pd_pow = zeros32, pd_period = 0,
     pd_deep = [], pd_pk = zeros32, pd_preimages = [zeros32],
     pd_commit_tx = paying_tx 5 (replicate 32 2) zeros32, pd_vout = 0,
     pd_reveal_tx = paying_tx 5 zeros32 (const_hash []), pd_reveal_inclusion = example_inclusion,
     pd_claim_path = replicate 4 zeros32\<rparr>"

lemma tree_root_const: "tree_root const_hash 32 ls = const_hash []"
  using mroot_const [of EMPTYDATA 31 ls] by (simp add: const_hash_def)

lemma example_inclusion_ok:
  "wf_inclusion example_inclusion" "inclusion_root const_hash txid example_inclusion = const_hash []"
  by (simp_all add: example_inclusion_def wf_inclusion_def inclusion_root_def climb_const)
    (simp add: const_hash_def)

lemma example_header_valid: "header_valid (const_hash []) (2, zeros32, 0, 0x207fffff, 0)"
  using validate_threshold_and_add_work_sound [of "(2, zeros32, 0, 0x207fffff, 0)" "const_hash []" 0]
    example_block_valid
  by (simp add: header_bits_def)

lemma honest_example: "honest_proof const_hash example_curve example_proof"
proof -
  have "chain_valid const_hash zeros32 [(2, zeros32, 0, 0x207fffff, 0)]"
    using chain_snoc(3) [of const_hash zeros32 "[]"] example_header_valid by (simp add: next_block_hash_const)
  then have "period_ok const_hash (initial_claim zeros32) example_period"
    by (simp add: period_ok_def example_period_def claim_period_def initial_claim_def withdrawal_ok_def
        example_inclusion_ok tree_root_const wf_paying_tx BRIDGE_AMOUNT_SATS_def wf_header_def
        next_block_hash_const example_header_valid)
  moreover have "commits_to_preimages const_hash example_curve example_proof"
    by (simp add: commits_to_preimages_def example_proof_def wf_paying_tx
        calculate_taproot_from_single_script_def example_curve_def)
  moreover have "reveals_in_claim const_hash example_proof"
    by (simp add: reveals_in_claim_def example_proof_def wf_paying_tx example_inclusion_ok tree_root_const)
      (simp add: const_hash_def)
  moreover have "answers_challenge const_hash example_proof"
  proof -
    have "claim_tip (pd_claim const_hash example_proof) = const_hash []"
      using chain_snoc(1) [of const_hash zeros32 "[]"]
      by (simp add: pd_claim_def example_proof_def example_period_def claim_period_def initial_claim_def
          next_block_hash_const)
    then show ?thesis
      by (simp add: answers_challenge_def) (simp add: example_proof_def NUM_ROUNDS_def CLAIM_MERKLE_TREE_DEPTH_def
          climb_const)
  qed
  ultimately show ?thesis
    by (simp add: honest_proof_def) (simp add: example_proof_def NUM_ROUNDS_def)
qed

section \<open>Properties\<close>

text \<open>
  C2. The circuit is complete: what an honest host writes, one to four periods of a valid chain
  with withdrawals it pays, a challenge that its claim answers, and preimages committed to, revealed
  in a block of the chain and lying in the claim tree of the period, is accepted; the guest program
  then commits exactly the work, the block hash and the period of the challenge.
\<close>

theorem bridge_proof_completeness:
  assumes "hash32 H" "honest_proof H C d"
  shows "operator_guest_main H C guest (proof_items H d @ rest) =
    Some [Commit_Bytes (pd_pow d), Commit_Bytes (pd_cutoff d), Commit_U8 (ucast (pd_period d))]"
proof -
  have "length (pd_pow d) = 32"
    using assms(2) by (simp add: honest_proof_def answers_challenge_def)
  then have "le_bytes 32 (unat (u256_from_le_bytes (pd_pow d))) = pd_pow d"
    using le_bytes_from_le [of "pd_pow d"] from_le_bound [of "pd_pow d"]
    by (simp add: u256_from_le_bytes_def unat_of_nat)
  with guest.bridge_proof_complete [OF assms, of rest] show ?thesis
    by (simp add: operator_guest_main_def)
qed

theorem bridge_proof_completeness_witness:
  "operator_guest_main const_hash example_curve guest (proof_items const_hash example_proof) =
    Some [Commit_Bytes zeros32, Commit_Bytes (const_hash []), Commit_U8 0]"
  using bridge_proof_completeness [OF hash32_const honest_example, of "[]"] by (simp add: example_proof_def)

end
