(* ===== verification/Column_Types.thy ===== *)
theory Column_Types
  imports Bridge_Database
begin

text \<open>
  \<open>core/src/database/wrapper.rs\<close>: the text columns that hold outpoints, addresses, transaction ids,
  outputs and signatures, and how \<open>sqlx\<close> writes and reads them. The text forms come from the crates
  \<open>bitcoin\<close>, \<open>secp256k1\<close> and \<open>hex\<close> and are parameters. A failed \<open>decode\<close> is an error of the query that
  read the row. The tables of \<open>Bridge_Database\<close> hold the values; the round trips say that this is the
  same, and the checks of the schema on the text say when it is not.
\<close>

section \<open>Columns\<close>

record column_lib =
  outpoint_to_string :: "outpoint \<Rightarrow> string"
  outpoint_from_str :: "string \<Rightarrow> outpoint option"
  address_to_string :: "address \<Rightarrow> string"
  address_from_str :: "string \<Rightarrow> address option"
  serialize_hex_txid :: "txid \<Rightarrow> string"
  deserialize_hex_txid :: "string \<Rightarrow> txid option"
  serialize_hex_txout :: "txout \<Rightarrow> string"
  deserialize_hex_txout :: "string \<Rightarrow> txout option"
  signature_to_string :: "signature \<Rightarrow> string"
  signature_from_str :: "string \<Rightarrow> signature option"

definition encode_outpoint :: "column_lib \<Rightarrow> outpoint \<Rightarrow> string" where
  "encode_outpoint C outpoint = outpoint_to_string C outpoint"

definition decode_outpoint :: "column_lib \<Rightarrow> string \<Rightarrow> outpoint outcome" where
  "decode_outpoint C s = ok_or (outpoint_from_str C s) DatabaseError"

definition encode_address :: "column_lib \<Rightarrow> address \<Rightarrow> string" where
  "encode_address C address = address_to_string C address"

definition decode_address :: "column_lib \<Rightarrow> string \<Rightarrow> address outcome" where
  "decode_address C s = ok_or (address_from_str C s) DatabaseError"

definition encode_evm_address :: "'x script_lib_scheme \<Rightarrow> evm_address \<Rightarrow> string" where
  "encode_evm_address L evm_address = hex_encode L evm_address"

text \<open>\<open>hex::decode(s).unwrap().try_into().unwrap()\<close> into twenty bytes.\<close>

definition decode_evm_address :: "'x script_lib_scheme \<Rightarrow> string \<Rightarrow> evm_address outcome" where
  "decode_evm_address L s =
    attempt (unwrap (hex_decode L s)) (\<lambda>bytes.
    attempt (assert_that (length bytes = 20)) (\<lambda>_. Ok bytes))"

definition encode_txid :: "column_lib \<Rightarrow> txid \<Rightarrow> string" where
  "encode_txid C txid = serialize_hex_txid C txid"

definition decode_txid :: "column_lib \<Rightarrow> string \<Rightarrow> txid outcome" where
  "decode_txid C s = ok_or (deserialize_hex_txid C s) DatabaseError"

definition encode_txout :: "column_lib \<Rightarrow> txout \<Rightarrow> string" where
  "encode_txout C txout = serialize_hex_txout C txout"

definition decode_txout :: "column_lib \<Rightarrow> string \<Rightarrow> txout outcome" where
  "decode_txout C s = ok_or (deserialize_hex_txout C s) DatabaseError"

definition encode_signature :: "column_lib \<Rightarrow> signature \<Rightarrow> string" where
  "encode_signature C sig = signature_to_string C sig"

definition decode_signature :: "column_lib \<Rightarrow> string \<Rightarrow> signature outcome" where
  "decode_signature C s = ok_or (signature_from_str C s) DatabaseError"

section \<open>Round trips\<close>

text \<open>What the crates promise of their text forms.\<close>

definition text_forms :: "column_lib \<Rightarrow> bool" where
  "text_forms C \<longleftrightarrow> (\<forall>x. outpoint_from_str C (outpoint_to_string C x) = Some x) \<and>
    (\<forall>x. address_from_str C (address_to_string C x) = Some x) \<and>
    (\<forall>x. deserialize_hex_txid C (serialize_hex_txid C x) = Some x) \<and>
    (\<forall>x. deserialize_hex_txout C (serialize_hex_txout C x) = Some x) \<and>
    (\<forall>x. signature_from_str C (signature_to_string C x) = Some x)"

lemma columns_roundtrip:
  assumes "text_forms C"
  shows "decode_outpoint C (encode_outpoint C k) = Ok k"
    "decode_address C (encode_address C address) = Ok address"
    "decode_txid C (encode_txid C txid) = Ok txid"
    "decode_txout C (encode_txout C txout) = Ok txout"
    "decode_signature C (encode_signature C sig) = Ok sig"
  using assms
  by (simp_all add: text_forms_def decode_outpoint_def encode_outpoint_def decode_address_def
      encode_address_def decode_txid_def encode_txid_def decode_txout_def encode_txout_def
      decode_signature_def encode_signature_def)

text \<open>
  So equal keys are equal texts: comparing and looking up columns in SQL is comparing values.
\<close>

lemma encode_injective:
  assumes "text_forms C"
  shows "inj (encode_outpoint C)" "inj (encode_txid C)"
  using columns_roundtrip [OF assms] by (metis injI outcome.inject(1))+

section \<open>Addresses on Citrea\<close>

text \<open>The crate \<open>hex\<close>: two digits a byte, of either case.\<close>

definition is_hex_digit :: "char \<Rightarrow> bool" where
  "is_hex_digit c \<longleftrightarrow> c \<in> set ''0123456789abcdefABCDEF''"

definition hex_crate :: "'x script_lib_scheme \<Rightarrow> bool" where
  "hex_crate L \<longleftrightarrow> (\<forall>bytes. hex_decode L (hex_encode L bytes) = Some bytes) \<and>
    (\<forall>s. (hex_decode L s \<noteq> None) = (even (length s) \<and> list_all is_hex_digit s)) \<and>
    (\<forall>s bytes. hex_decode L s = Some bytes \<longrightarrow> length s = 2 * length bytes)"

text \<open>The check of the schema: \<open>evm_address ~ '^[a-fA-F0-9]{40}'\<close>, which does not look at the end.\<close>

definition evm_address_check :: "string \<Rightarrow> bool" where
  "evm_address_check s \<longleftrightarrow> 40 \<le> length s \<and> list_all is_hex_digit (take 40 s)"

lemma decode_evm_address_iff:
  assumes "hex_crate L"
  shows "decode_evm_address L s = (if length s = 40 \<and> list_all is_hex_digit s
    then Ok (the (hex_decode L s)) else Panic)"
proof (cases "hex_decode L s")
  case None
  then have "\<not> (even (length s) \<and> list_all is_hex_digit s)"
    using assms unfolding hex_crate_def by blast
  then have "\<not> (length s = 40 \<and> list_all is_hex_digit s)"
    by auto
  with None show ?thesis
    by (simp add: decode_evm_address_def)
next
  case (Some bytes)
  then have "list_all is_hex_digit s" "length s = 2 * length bytes"
    using assms unfolding hex_crate_def by (blast, blast)
  with Some show ?thesis
    by (simp add: decode_evm_address_def assert_that_def)
qed

lemma evm_address_roundtrip:
  assumes "hex_crate L" "length evm_address = 20"
  shows "evm_address_check (encode_evm_address L evm_address)"
    "decode_evm_address L (encode_evm_address L evm_address) = Ok evm_address"
proof -
  let ?s = "hex_encode L evm_address"
  have s: "hex_decode L ?s = Some evm_address"
    using assms(1) unfolding hex_crate_def by blast
  then have "length ?s = 40" "list_all is_hex_digit ?s"
    using assms unfolding hex_crate_def by fastforce+
  then show "evm_address_check (encode_evm_address L evm_address)"
    by (simp add: evm_address_check_def encode_evm_address_def)
  show "decode_evm_address L (encode_evm_address L evm_address) = Ok evm_address"
    using s assms(2) by (simp add: decode_evm_address_def encode_evm_address_def)
qed

text \<open>
  A longer text passes the check and makes the process that reads it panic, where every other column
  would give an error.
\<close>

lemma evm_address_check_insufficient:
  assumes "hex_crate L"
  defines "s \<equiv> replicate 41 (CHR ''0'')"
  shows "evm_address_check s" "decode_evm_address L s = Panic"
proof -
  have "length s = 41" "take 40 s = replicate 40 (CHR ''0'')"
    by (simp_all add: s_def take_replicate)
  moreover have "is_hex_digit (CHR ''0'')"
    by (simp add: is_hex_digit_def)
  ultimately show "evm_address_check s"
    by (simp add: evm_address_check_def list_all_iff)
  show "decode_evm_address L s = Panic"
    using decode_evm_address_iff [OF assms(1)] \<open>length s = 41\<close> by simp
qed

end
