(* ===== verification/Rpc_Interface.thy ===== *)
theory Rpc_Interface
  imports Reimbursement Aggregator_Role
begin

text \<open>
  The JSON-RPC interfaces of \<open>traits/rpc.rs\<close>: a request is a value, with one constructor for each
  method of the trait, and a server is the function from requests to answers that the \<open>impl\<close> blocks
  of \<open>operator.rs\<close>, \<open>verifier.rs\<close> and \<open>aggregator.rs\<close> give. With requests as values a run is a list of
  events, and the step relations of the roles are exactly what servers can do.
\<close>

section \<open>Operator\<close>

datatype operator_request =
    New_Deposit_Rpc outpoint address evm_address
  | Set_Funding_Utxo_Rpc utxo
  | New_Withdrawal_Sig_Rpc u32 signature utxo txout
  | Withdrawal_Proved_On_Citrea_Rpc u32 outpoint

datatype operator_response =
    Kickoff_Response utxo signature
  | Unit_Response
  | Txid_Response txid
  | Raw_Txs_Response "string list"

fun operator_serve ::
  "'x lib_scheme \<Rightarrow> 'n node_ops \<Rightarrow> operator \<Rightarrow> operator_request \<Rightarrow> ('n, operator_response) handler" where
  "operator_serve L N self (New_Deposit_Rpc deposit_outpoint recovery_taproot_address evm_address) =
    ask (operator_new_deposit L N self deposit_outpoint recovery_taproot_address evm_address)
      (\<lambda>(kickoff_utxo, sig). return (Kickoff_Response kickoff_utxo sig))"
| "operator_serve L N self (Set_Funding_Utxo_Rpc funding_utxo) =
    ask (operator_set_funding_utxo funding_utxo) (\<lambda>_. return Unit_Response)"
| "operator_serve L N self (New_Withdrawal_Sig_Rpc withdrawal_idx user_sig input_utxo output_txout) =
    ask (new_withdrawal_sig L N self withdrawal_idx user_sig input_utxo output_txout)
      (\<lambda>txid. return (Txid_Response txid))"
| "operator_serve L N self (Withdrawal_Proved_On_Citrea_Rpc withdrawal_idx deposit_outpoint) =
    ask (withdrawal_proved_on_citrea L N self withdrawal_idx deposit_outpoint)
      (\<lambda>txs. return (Raw_Txs_Response txs))"

section \<open>Verifier\<close>

datatype verifier_request =
    Verifier_New_Deposit_Rpc outpoint address evm_address
  | Operator_Kickoffs_Generated_Rpc outpoint "utxo list" "signature list" "bytes list"
  | Burn_Txs_Signed_Rpc outpoint "signature list" "signature list"
  | Operator_Take_Txs_Signed_Rpc outpoint "signature list"

datatype verifier_response =
    Pub_Nonces_Response "bytes list"
  | Slash_Or_Take_Response "bytes list" "bytes list"
  | Operator_Take_Response "bytes list"
  | Move_Tx_Response bytes

fun verifier_serve ::
  "'x lib_scheme \<Rightarrow> 'n node_ops \<Rightarrow> verifier \<Rightarrow> verifier_request \<Rightarrow> ('n, verifier_response) handler" where
  "verifier_serve L N self
     (Verifier_New_Deposit_Rpc deposit_outpoint recovery_taproot_address evm_address) =
    ask (verifier_new_deposit L N self deposit_outpoint recovery_taproot_address evm_address)
      (\<lambda>pub_nonces. return (Pub_Nonces_Response pub_nonces))"
| "verifier_serve L N self
     (Operator_Kickoffs_Generated_Rpc deposit_outpoint kickoff_utxos operators_kickoff_sigs agg_nonces) =
    ask (operator_kickoffs_generated L self deposit_outpoint kickoff_utxos operators_kickoff_sigs agg_nonces)
      (\<lambda>(slash_or_take_sigs, burn_sigs). return (Slash_Or_Take_Response slash_or_take_sigs burn_sigs))"
| "verifier_serve L N self (Burn_Txs_Signed_Rpc deposit_outpoint burn_sigs slash_or_take_sigs) =
    ask (burn_txs_signed L self deposit_outpoint burn_sigs slash_or_take_sigs)
      (\<lambda>sigs. return (Operator_Take_Response sigs))"
| "verifier_serve L N self (Operator_Take_Txs_Signed_Rpc deposit_outpoint operator_take_sigs) =
    ask (operator_take_txs_signed L self deposit_outpoint operator_take_sigs)
      (\<lambda>sig. return (Move_Tx_Response sig))"

section \<open>Aggregator\<close>

datatype aggregator_request =
    Aggregate_Pub_Nonces_Rpc "bytes list list"
  | Aggregate_Slash_Or_Take_Sigs_Rpc outpoint "utxo list" "bytes list" "bytes list list"
  | Aggregate_Operator_Take_Sigs_Rpc outpoint "utxo list" "bytes list" "bytes list list"
  | Aggregate_Move_Tx_Sigs_Rpc outpoint address evm_address bytes "bytes list"

datatype aggregator_response =
    Agg_Nonces_Response "bytes list"
  | Signatures_Response "signature list"
  | Move_Tx_Raw_Response string txid

fun aggregator_serve ::
  "'x lib_scheme \<Rightarrow> aggregator \<Rightarrow> aggregator_request \<Rightarrow> aggregator_response outcome" where
  "aggregator_serve L self (Aggregate_Pub_Nonces_Rpc pub_nonces) =
    attempt (aggregate_pub_nonces L pub_nonces) (\<lambda>agg_nonces. Ok (Agg_Nonces_Response agg_nonces))"
| "aggregator_serve L self
     (Aggregate_Slash_Or_Take_Sigs_Rpc deposit_outpoint kickoff_utxos agg_nonces partial_sigs) =
    attempt (aggregate_slash_or_take_sigs L self deposit_outpoint kickoff_utxos agg_nonces partial_sigs)
      (\<lambda>sigs. Ok (Signatures_Response sigs))"
| "aggregator_serve L self
     (Aggregate_Operator_Take_Sigs_Rpc deposit_outpoint kickoff_utxos agg_nonces partial_sigs) =
    attempt (aggregate_operator_take_sigs L self deposit_outpoint kickoff_utxos agg_nonces partial_sigs)
      (\<lambda>sigs. Ok (Signatures_Response sigs))"
| "aggregator_serve L self
     (Aggregate_Move_Tx_Sigs_Rpc deposit_outpoint recovery_taproot_address evm_address agg_nonce
       partial_sigs) =
    attempt (aggregate_move_tx_sigs L self deposit_outpoint recovery_taproot_address evm_address
        agg_nonce partial_sigs) (\<lambda>(raw_tx, txid). Ok (Move_Tx_Raw_Response raw_tx txid))"

section \<open>Steps are requests\<close>

lemma snd_ask_return: "snd (ask m (\<lambda>a. return (f a)) w) = snd (m w)"
  by (simp add: ask_def split: prod.splits outcome.splits)

lemma snd_ask_return_pair: "snd (ask m (\<lambda>(a, b). return (f a b)) w) = snd (m w)"
  using snd_ask_return [of m "\<lambda>(a, b). f a b" w] by (simp add: case_prod_unfold)

lemmas snd_answers = snd_ask_return snd_ask_return_pair

lemma operator_step_iff:
  "operator_step L N self w w' \<longleftrightarrow> (\<exists>req. w' = snd (operator_serve L N self req w)) \<or>
    w' = snd (operator_new L N (operator_config self) w) \<or> world_db w' = world_db w"
proof
  assume "operator_step L N self w w'"
  then show "(\<exists>req. w' = snd (operator_serve L N self req w)) \<or>
    w' = snd (operator_new L N (operator_config self) w) \<or> world_db w' = world_db w"
  proof cases
    case (new_deposit k recovery evm r)
    then have "w' = snd (operator_serve L N self (New_Deposit_Rpc k recovery evm) w)"
      by (simp add: snd_answers)
    then show ?thesis by blast
  next
    case (set_funding u r)
    then have "w' = snd (operator_serve L N self (Set_Funding_Utxo_Rpc u) w)"
      by (simp add: snd_answers)
    then show ?thesis by blast
  next
    case (withdrawal i sig u out r)
    then have "w' = snd (operator_serve L N self (New_Withdrawal_Sig_Rpc i sig u out) w)"
      by (simp add: snd_answers)
    then show ?thesis by blast
  next
    case (proved i k r)
    then have "w' = snd (operator_serve L N self (Withdrawal_Proved_On_Citrea_Rpc i k) w)"
      by (simp add: snd_answers)
    then show ?thesis by blast
  qed auto
next
  assume "(\<exists>req. w' = snd (operator_serve L N self req w)) \<or>
    w' = snd (operator_new L N (operator_config self) w) \<or> world_db w' = world_db w"
  moreover have "operator_step L N self w (snd (operator_serve L N self req w))" for req
    by (cases req) (auto simp: snd_answers intro: operator_step.intros(1-4) [OF prod.collapse [symmetric]])
  ultimately show "operator_step L N self w w'"
    using operator_step.restart [OF prod.collapse [symmetric]] operator_step.outside by blast
qed

lemma verifier_step_iff:
  "verifier_step L N self w w' \<longleftrightarrow> (\<exists>req. w' = snd (verifier_serve L N self req w)) \<or>
    w' = snd (verifier_new L (verifier_config self) w) \<or> world_db w' = world_db w"
proof
  assume "verifier_step L N self w w'"
  then show "(\<exists>req. w' = snd (verifier_serve L N self req w)) \<or>
    w' = snd (verifier_new L (verifier_config self) w) \<or> world_db w' = world_db w"
  proof cases
    case (new_deposit k recovery evm r)
    then have "w' = snd (verifier_serve L N self (Verifier_New_Deposit_Rpc k recovery evm) w)"
      by (simp add: snd_answers)
    then show ?thesis by blast
  next
    case (kickoffs k utxos sigs agg_nonces r)
    then have "w' = snd (verifier_serve L N self (Operator_Kickoffs_Generated_Rpc k utxos sigs agg_nonces) w)"
      by (simp add: snd_answers)
    then show ?thesis by blast
  next
    case (burn k burn_sigs sigs r)
    then have "w' = snd (verifier_serve L N self (Burn_Txs_Signed_Rpc k burn_sigs sigs) w)"
      by (simp add: snd_answers)
    then show ?thesis by blast
  next
    case (takes k sigs r)
    then have "w' = snd (verifier_serve L N self (Operator_Take_Txs_Signed_Rpc k sigs) w)"
      by (simp add: snd_answers)
    then show ?thesis by blast
  qed auto
next
  assume "(\<exists>req. w' = snd (verifier_serve L N self req w)) \<or>
    w' = snd (verifier_new L (verifier_config self) w) \<or> world_db w' = world_db w"
  moreover have "verifier_step L N self w (snd (verifier_serve L N self req w))" for req
    by (cases req) (auto simp: snd_answers intro: verifier_step.intros(1-4) [OF prod.collapse [symmetric]])
  ultimately show "verifier_step L N self w w'"
    using verifier_step.restart [OF prod.collapse [symmetric]] verifier_step.outside by blast
qed

section \<open>Sessions\<close>

text \<open>
  What happens to a process and its database, as a list: requests, restarts, and changes outside
  with the database messages that will be lost from there on.
\<close>

datatype 'n event =
    Operator_Request operator_request
  | Verifier_Request verifier_request
  | Operator_Restart
  | Verifier_Restart
  | Outside "fault list" 'n

fun after_event ::
  "'x lib_scheme \<Rightarrow> 'n node_ops \<Rightarrow> operator \<Rightarrow> verifier \<Rightarrow> 'n event \<Rightarrow>
   (database, 'n) world \<Rightarrow> (database, 'n) world" where
  "after_event L N self v (Operator_Request req) w = snd (operator_serve L N self req w)"
| "after_event L N self v (Verifier_Request req) w = snd (verifier_serve L N v req w)"
| "after_event L N self v Operator_Restart w = snd (operator_new L N (operator_config self) w)"
| "after_event L N self v Verifier_Restart w = snd (verifier_new L (verifier_config v) w)"
| "after_event L N self v (Outside faults n) w = w\<lparr>world_faults := faults, world_node := n\<rparr>"

lemma shared_step_iff_event:
  "shared_step L N self v w w' \<longleftrightarrow> (\<exists>e. w' = after_event L N self v e w)"
proof
  assume "shared_step L N self v w w'"
  then consider (op_req) req where "w' = snd (operator_serve L N self req w)"
    | (op_new) "w' = snd (operator_new L N (operator_config self) w)"
    | (ver_req) req where "w' = snd (verifier_serve L N v req w)"
    | (ver_new) "w' = snd (verifier_new L (verifier_config v) w)"
    | (same) "world_db w' = world_db w"
    by cases (auto simp: operator_step_iff verifier_step_iff)
  then show "\<exists>e. w' = after_event L N self v e w"
  proof cases
    case same
    then have "w' = after_event L N self v (Outside (world_faults w') (world_node w')) w"
      by simp
    then show ?thesis by blast
  qed (metis after_event.simps)+
next
  assume "\<exists>e. w' = after_event L N self v e w"
  then obtain e where "w' = after_event L N self v e w" by blast
  then have "operator_step L N self w w' \<or> verifier_step L N v w w'"
    by (cases e) (auto simp: operator_step_iff verifier_step_iff)
  then show "shared_step L N self v w w'"
    by (auto intro: shared_step.intros)
qed

lemma shared_run_iff_session:
  "shared_run L N self v w w' \<longleftrightarrow> (\<exists>events. w' = fold (after_event L N self v) events w)"
proof
  assume "shared_run L N self v w w'"
  then show "\<exists>events. w' = fold (after_event L N self v) events w"
  proof (induction rule: rtranclp_induct)
    case base
    show ?case by (rule exI [of _ "[]"]) simp
  next
    case (step w1 w2)
    then obtain events e where "w1 = fold (after_event L N self v) events w"
      "w2 = after_event L N self v e w1"
      by (auto simp: shared_step_iff_event)
    then show ?case
      by (intro exI [of _ "events @ [e]"]) simp
  qed
next
  assume "\<exists>events. w' = fold (after_event L N self v) events w"
  then obtain events where "w' = fold (after_event L N self v) events w" by blast
  then show "shared_run L N self v w w'"
  proof (induction events arbitrary: w)
    case (Cons e events)
    have "shared_step L N self v w (after_event L N self v e w)"
      unfolding shared_step_iff_event by blast
    with Cons show ?case
      by (simp add: converse_rtranclp_into_rtranclp)
  qed simp
qed

text \<open>
  Requests to an operator leave the tables of the verifier alone, so the rows of nonces of a shared
  database are as safe as those of a verifier of its own.
\<close>

lemma operator_step_verifier_tables:
  assumes "operator_step L N self w w'"
  shows "nonces (world_db w') = nonces (world_db w) \<and>
    deposit_kickoff_utxos (world_db w') = deposit_kickoff_utxos (world_db w) \<and>
    deposit_infos (world_db w') = deposit_infos (world_db w)"
  using operator_step_effect [OF assms]
proof
  assume "only_funding (world_db w) (world_db w')"
  then show ?thesis
    by (cases "world_db w"; cases "world_db w'") (simp add: only_funding_def)
next
  assume "\<exists>k u. assigned L self k u (world_db w) (world_db w')"
  then show ?thesis
    by (auto simp: assigned_def takes_unused_def makes_generator_def Let_def split: if_splits)
qed

lemma shared_run_nonces_kept:
  "shared_run L N self v w w' \<Longrightarrow> nonces_kept (world_db w) (world_db w')"
proof (induction rule: rtranclp_induct)
  case (step w1 w2)
  from step(2) have "nonces_kept (world_db w1) (world_db w2)"
    by cases (auto dest: operator_step_verifier_tables verifier_step_kept intro: nonces_kept_same)
  with step.IH show ?case
    by (rule nonce_order.trans)
qed (rule nonce_order.refl)

lemma shared_run_one_message:
  assumes "shared_run L N self v w0 w1" "world_db w0 = empty_database" "shared_run L N self v w1 w2"
    and "nonce_used (world_db w1) k i message pair" "nonce_used (world_db w2) k i message' pair'"
  shows "message' = message \<and> fst pair' = fst pair"
proof -
  have "distinct_keys (world_db w1)"
    using nonces_kept_distinct [OF shared_run_nonces_kept [OF assms(1)]] assms(2)
    by (simp add: empty_database_def)
  then show ?thesis
    using nonce_used_kept [OF shared_run_nonces_kept [OF assms(3)]] assms(4,5) by blast
qed

end
