(* ===== verification/Database_Admin.thy ===== *)
theory Database_Admin
  imports Bridge_Database
begin

text \<open>
  \<open>core/src/database/mod.rs\<close>: connecting to PostgreSQL, creating and dropping databases, and the schema
  script. The server is a map from names to databases, where a database without the tables of the schema
  is \<open>None\<close>; owners and other tables are left out. How the server reads a URL and the text of a
  statement is a parameter. Dropping fails when the connection is to the database itself; other
  sessions that keep a database from being dropped count as lost requests.
\<close>

section \<open>PostgreSQL\<close>

type_synonym cluster = "string \<Rightarrow> database option option"

datatype admin_statement = Create_Database string string | Drop_Database_If_Exists string

text \<open>
  \<open>pg_resolve\<close>: the name of the database that a URL asks for, when server, user and password are
  right. \<open>pg_statement\<close>: what the text of a statement says.
\<close>

record postgres =
  pg_resolve :: "string \<Rightarrow> string option"
  pg_statement :: "string \<Rightarrow> admin_statement option"

type_synonym ('n, 'a) admin = "((cluster, 'n) world, 'a) action"

definition pg_connect :: "postgres \<Rightarrow> string \<Rightarrow> ('n, string) admin" where
  "pg_connect P url = query (\<lambda>c.
    case pg_resolve P url of
      None \<Rightarrow> (Inl Connection_Error, c)
    | Some name \<Rightarrow> (if c name = None then Inl Connection_Error else Inr name, c))"

definition sql_admin :: "postgres \<Rightarrow> string \<Rightarrow> string \<Rightarrow> (cluster, unit) sql" where
  "sql_admin P connection sql c =
    (case pg_statement P sql of
       None \<Rightarrow> (Inl Syntax_Error, c)
     | Some (Create_Database name owner) \<Rightarrow>
         if c name \<noteq> None then (Inl Raised_Exception, c) else (Inr (), c(name \<mapsto> None))
     | Some (Drop_Database_If_Exists name) \<Rightarrow>
         if name = connection then (Inl Raised_Exception, c) else (Inr (), c(name := None)))"

text \<open>
  \<open>scripts/schema.sql\<close> is one transaction of \<open>create table if not exists\<close>; it leaves the rows of
  existing tables alone.
\<close>

definition sql_schema :: "string \<Rightarrow> (cluster, unit) sql" where
  "sql_schema connection c =
    (case c connection of
       None \<Rightarrow> (Inl Connection_Error, c)
     | Some None \<Rightarrow> (Inr (), c(connection \<mapsto> Some empty_database))
     | Some (Some d) \<Rightarrow> (Inr (), c))"

section \<open>Functions\<close>

text \<open>\<open>to_string\<close> of an unsigned integer.\<close>

fun decimal :: "nat \<Rightarrow> string" where
  "decimal n = (if n < 10 then [] else decimal (n div 10)) @ [char_of (48 + n mod 10)]"

declare decimal.simps [simp del]

definition get_postgresql_url :: "bridge_config \<Rightarrow> string" where
  "get_postgresql_url config =
    ''postgresql://'' @ cfg_db_user config @ '':'' @ cfg_db_password config @ ''@'' @
    cfg_db_host config @ '':'' @ decimal (unat (cfg_db_port config))"

definition get_postgresql_database_url :: "bridge_config \<Rightarrow> string" where
  "get_postgresql_database_url config = get_postgresql_url config @ ''/'' @ cfg_db_name config"

definition connect_database :: "postgres \<Rightarrow> bridge_config \<Rightarrow> ('n, string) admin" where
  "connect_database P config = pg_connect P (get_postgresql_database_url config)"

definition create_database_text :: "bridge_config \<Rightarrow> string" where
  "create_database_text config =
    ''CREATE DATABASE '' @ cfg_db_name config @ '' WITH OWNER '' @ cfg_db_user config"

definition create_database :: "postgres \<Rightarrow> bridge_config \<Rightarrow> ('n, unit) admin" where
  "create_database P config =
    ask (pg_connect P (get_postgresql_url config)) (\<lambda>connection.
    query (sql_admin P connection (create_database_text config)))"

definition drop_database_text :: "bridge_config \<Rightarrow> string" where
  "drop_database_text config = ''DROP DATABASE IF EXISTS '' @ cfg_db_name config"

definition drop_database :: "postgres \<Rightarrow> bridge_config \<Rightarrow> ('n, unit) admin" where
  "drop_database P config =
    ask (pg_connect P (get_postgresql_url config)) (\<lambda>connection.
    query (sql_admin P connection (drop_database_text config)))"

definition run_schema_script :: "postgres \<Rightarrow> bridge_config \<Rightarrow> ('n, unit) admin" where
  "run_schema_script P config =
    ask (connect_database P config) (\<lambda>connection.
    query (sql_schema connection))"

definition initialize_database :: "postgres \<Rightarrow> bridge_config \<Rightarrow> ('n, unit) admin" where
  "initialize_database P config =
    ask (drop_database P config) (\<lambda>_.
    ask (create_database P config) (\<lambda>_.
    run_schema_script P config))"

section \<open>What they do to databases\<close>

lemma pg_connect_eq_Ok:
  assumes "pg_connect P url w = (Ok name, w')"
  shows "pg_resolve P url = Some name \<and> world_db w name \<noteq> None \<and> world_db w' = world_db w"
  using query_eq_Ok [OF assms [unfolded pg_connect_def]] by (auto split: option.splits if_splits)

text \<open>The databases other than \<open>name\<close> stay as they are.\<close>

definition others_kept :: "string \<Rightarrow> cluster \<Rightarrow> cluster \<Rightarrow> bool" where
  "others_kept name c c' \<longleftrightarrow> (\<forall>other. other \<noteq> name \<longrightarrow> c' other = c other)"

interpretation others: db_order "others_kept name" for name
  by unfold_locales (auto simp: others_kept_def)

text \<open>Existing tables keep their rows.\<close>

definition tables_kept :: "cluster \<Rightarrow> cluster \<Rightarrow> bool" where
  "tables_kept c c' \<longleftrightarrow> (\<forall>name d. c name = Some (Some d) \<longrightarrow> c' name = Some (Some d))"

interpretation tables: db_order tables_kept
  by unfold_locales (auto simp: tables_kept_def)

text \<open>
  The server reads the name in the statements and in the URL as it is written: it is an identifier
  in lower case and no keyword, and needs no escape in a URL.
\<close>

definition plain_name :: "postgres \<Rightarrow> bridge_config \<Rightarrow> bool" where
  "plain_name P config \<longleftrightarrow>
    pg_statement P (create_database_text config) =
      Some (Create_Database (cfg_db_name config) (cfg_db_user config)) \<and>
    pg_statement P (drop_database_text config) = Some (Drop_Database_If_Exists (cfg_db_name config)) \<and>
    pg_resolve P (get_postgresql_database_url config) = Some (cfg_db_name config)"

lemma connect_keeps:
  "moves (others_kept name) (pg_connect P url)" "moves tables_kept (pg_connect P url)"
  unfolding pg_connect_def
  by ((intro others.moves_intros tables.moves_intros; simp add: others.refl tables.refl split: option.split)+)

lemma sql_schema_keeps:
  "others_kept connection c (snd (sql_schema connection c))"
  "tables_kept c (snd (sql_schema connection c))"
  by (auto simp: sql_schema_def others_kept_def tables_kept_def split: option.splits)

lemma run_schema_tables_kept: "moves tables_kept (run_schema_script P config)"
  unfolding run_schema_script_def connect_database_def
  by (intro tables.moves_intros connect_keeps sql_schema_keeps)

lemma moves_ask_result:
  assumes "db_order R" "moves R m" "\<And>w a w1. m w = (Ok a, w1) \<Longrightarrow> moves R (f a)"
  shows "moves R (ask m f)"
  unfolding moves_def
proof
  fix w
  obtain r w1 where m: "m w = (r, w1)"
    by (meson prod.exhaust)
  then have "R (world_db w) (world_db w1)"
    by (rule db_order.moves_ok [OF assms(1,2)])
  then show "R (world_db w) (world_db (snd (ask m f w)))"
    using m assms(3) db_order.trans [OF assms(1)]
    by (cases r) (auto simp: ask_def moves_def)
qed

lemma initialize_others_kept:
  assumes "plain_name P config"
  shows "moves (others_kept (cfg_db_name config)) (initialize_database P config)"
proof -
  have statement: "moves (others_kept (cfg_db_name config)) (query (sql_admin P connection sql))"
    if "sql = create_database_text config \<or> sql = drop_database_text config" for connection sql
    using that assms
    by (intro others.moves_intros)
      (auto simp: sql_admin_def plain_name_def others_kept_def)
  have "moves (others_kept (cfg_db_name config)) (run_schema_script P config)"
    unfolding run_schema_script_def
  proof (rule moves_ask_result [OF others.db_order_axioms])
    show "moves (others_kept (cfg_db_name config)) (connect_database P config)"
      unfolding connect_database_def by (rule connect_keeps)
  next
    fix w connection w1
    assume "connect_database P config w = (Ok connection, w1)"
    then have "connection = cfg_db_name config"
      using pg_connect_eq_Ok assms by (fastforce simp: connect_database_def plain_name_def)
    then show "moves (others_kept (cfg_db_name config)) (query (sql_schema connection))"
      by (intro others.moves_intros) (simp add: sql_schema_keeps)
  qed
  then show ?thesis
    unfolding initialize_database_def drop_database_def create_database_def
    by (intro others.moves_intros connect_keeps statement) auto
qed

lemma run_schema_Ok:
  assumes "run_schema_script P config w = (Ok u, w')"
  obtains name where "pg_resolve P (get_postgresql_database_url config) = Some name"
    "world_db w name \<noteq> None"
    "world_db w' = (world_db w)(name \<mapsto> Some (case the (world_db w name) of None \<Rightarrow> empty_database | Some d \<Rightarrow> d))"
proof -
  from assms obtain name w1 where 1: "pg_connect P (get_postgresql_database_url config) w = (Ok name, w1)"
    and 2: "query (sql_schema name) w1 = (Ok u, w')"
    by (auto simp: run_schema_script_def connect_database_def ask_eq_Ok)
  note 1 = pg_connect_eq_Ok [OF 1] and 2 = query_eq_Ok [OF 2]
  then show ?thesis
    by (intro that [of name]) (auto simp: sql_schema_def fun_upd_idem split: option.splits)
qed

text \<open>The statement of the documentation: after it a clean state is guaranteed.\<close>

lemma initialize_database_Ok:
  assumes "initialize_database P config w = (Ok u, w')" "plain_name P config"
  shows "world_db w' = (world_db w)(cfg_db_name config \<mapsto> Some empty_database)"
proof -
  from assms(1) obtain c1 w1 w2 u2 c3 w3 w4 u4 where
    1: "pg_connect P (get_postgresql_url config) w = (Ok c1, w1)"
    and 2: "query (sql_admin P c1 (drop_database_text config)) w1 = (Ok u2, w2)"
    and 3: "pg_connect P (get_postgresql_url config) w2 = (Ok c3, w3)"
    and 4: "query (sql_admin P c3 (create_database_text config)) w3 = (Ok u4, w4)"
    and 5: "run_schema_script P config w4 = (Ok u, w')"
    by (auto simp: initialize_database_def drop_database_def create_database_def ask_eq_Ok)
  have "world_db w2 = (world_db w)(cfg_db_name config := None)"
    using pg_connect_eq_Ok [OF 1] query_eq_Ok [OF 2] assms(2)
    by (auto simp: sql_admin_def plain_name_def split: if_splits)
  then have "world_db w4 = (world_db w)(cfg_db_name config \<mapsto> None)"
    using pg_connect_eq_Ok [OF 3] query_eq_Ok [OF 4] assms(2)
    by (auto simp: sql_admin_def plain_name_def split: if_splits)
  then show ?thesis
    using run_schema_Ok [OF 5] assms(2) by (auto simp: plain_name_def)
qed

text \<open>It succeeds when nothing is lost and the user's own database, which the URL without a name
  connects to, exists and is another one.\<close>

lemma pg_connect_no_fault:
  assumes "world_faults w = []" "pg_resolve P url = Some name" "world_db w name \<noteq> None"
  shows "pg_connect P url w = (Ok name, w)"
  unfolding pg_connect_def
  by (subst query_no_fault [OF assms(1), where a = name and d = "world_db w"]) (use assms in auto)

lemma initialize_database_progress:
  assumes "world_faults w = []" "plain_name P config"
    and home: "pg_resolve P (get_postgresql_url config) = Some home" "home \<noteq> cfg_db_name config"
      "world_db w home \<noteq> None"
  shows "fst (initialize_database P config w) = Ok ()"
proof -
  define w1 where "w1 = w\<lparr>world_db := (world_db w)(cfg_db_name config := None)\<rparr>"
  define w2 where "w2 = w1\<lparr>world_db := (world_db w)(cfg_db_name config \<mapsto> None)\<rparr>"
  have "drop_database P config w = (Ok (), w1)"
    unfolding drop_database_def ask_eq_Ok pg_connect_no_fault [OF assms(1) home(1,3)]
    by (intro exI conjI, rule refl, subst query_no_fault [OF assms(1)])
      (use assms in \<open>auto simp: sql_admin_def plain_name_def w1_def\<close>)
  moreover have "create_database P config w1 = (Ok (), w2)"
  proof -
    have w1: "world_faults w1 = []" "world_db w1 home \<noteq> None"
      using assms by (simp_all add: w1_def)
    show ?thesis
      unfolding create_database_def ask_eq_Ok pg_connect_no_fault [OF w1(1) home(1) w1(2)]
      by (intro exI conjI, rule refl, subst query_no_fault [OF w1(1)])
        (use assms in \<open>auto simp: sql_admin_def plain_name_def w1_def w2_def\<close>)
  qed
  moreover have "fst (run_schema_script P config w2) = Ok ()"
  proof -
    have w2: "world_faults w2 = []" "world_db w2 (cfg_db_name config) = Some None"
      using assms by (simp_all add: w1_def w2_def)
    have "connect_database P config w2 = (Ok (cfg_db_name config), w2)"
      unfolding connect_database_def using assms(2) w2
      by (intro pg_connect_no_fault) (simp_all add: plain_name_def)
    then show ?thesis
      using w2 query_no_fault [OF w2(1), of "sql_schema (cfg_db_name config)" "()"]
      by (simp add: run_schema_script_def ask_def sql_schema_def)
  qed
  ultimately show ?thesis
    by (simp add: initialize_database_def ask_def)
qed

text \<open>
  The URL is put together without escapes: an at sign in the password moves the border between
  password and host, and two configurations share a URL.
\<close>

lemma postgresql_url_ambiguous:
  "get_postgresql_url (c\<lparr>cfg_db_password := p @ ''@'' @ q, cfg_db_host := h\<rparr>) =
   get_postgresql_url (c\<lparr>cfg_db_password := p, cfg_db_host := q @ ''@'' @ h\<rparr>)"
  by (simp add: get_postgresql_url_def)

end
