(* ===== verification/Configuration.thy ===== *)
theory Configuration
  imports Btc_Types World
begin

text \<open>
  How a binary comes to its configuration: \<open>cli.rs\<close>, the reading part of \<open>config.rs\<close>, and
  \<open>initialize_logger\<close> and \<open>get_configuration_for_binaries\<close> of \<open>utils.rs\<close>. The operating system and the
  crates \<open>clap\<close>, \<open>toml\<close> and \<open>tracing\<close> are parameters. What is printed is left out, but for its end: a
  process that prints an error and calls \<open>exit(1)\<close> is the value \<open>None\<close>.
\<close>

section \<open>The host\<close>

text \<open>\<open>Args\<close> of \<open>cli.rs\<close>.\<close>

record cli_args =
  arg_config_file :: string
  arg_verbose :: u8
  arg_verifier_server :: bool
  arg_operator_server :: bool
  arg_aggregator_server :: bool

datatype level_filter = ERROR | WARN | INFO | DEBUG | TRACE

text \<open>
  \<open>clap_args\<close> is \<open>Args::try_parse_from\<close>. Files are opened, read and written through the state outside
  the process; reading fails for contents that are not text. \<open>try_init\<close> installs the subscriber,
  made from the level and the choice of JSON, and fails with a message. The name of the thread and
  the directory the crate was built in do not change.
\<close>

record ('n, 'f) host_ops =
  clap_args :: "string list \<Rightarrow> cli_args option"
  open_file :: "string \<Rightarrow> 'n \<Rightarrow> 'f option \<times> 'n"
  read_to_string :: "'f \<Rightarrow> 'n \<Rightarrow> string option \<times> 'n"
  write_file :: "string \<Rightarrow> string \<Rightarrow> 'n \<Rightarrow> unit option \<times> 'n"
  env_var :: "string \<Rightarrow> 'n \<Rightarrow> string option \<times> 'n"
  try_init :: "level_filter option \<Rightarrow> bool \<Rightarrow> 'n \<Rightarrow> string option \<times> 'n"
  toml_from_str :: "string \<Rightarrow> bridge_config option"
  toml_to_string :: "bridge_config \<Rightarrow> string option"
  new_secret_key :: "'n \<Rightarrow> secret_key \<times> 'n"
  thread_name :: "string option"
  cargo_manifest_dir :: string

section \<open>Actions that end the process\<close>

text \<open>An action followed by \<open>unwrap()\<close>, and one whose error is printed before \<open>exit(1)\<close>.\<close>

definition unwrapped :: "('w, 'a) action \<Rightarrow> ('w, 'a) action" where
  "unwrapped m w = map_prod unwrap_ok id (m w)"

fun or_exit :: "'a outcome \<Rightarrow> 'a option outcome" where
  "or_exit (Ok a) = Ok (Some a)"
| "or_exit (Err e) = Ok None"
| "or_exit Panic = Panic"

definition exit_on_error :: "('w, 'a) action \<Rightarrow> ('w, 'a option) action" where
  "exit_on_error m w = map_prod or_exit id (m w)"

definition unless_exit :: "('w, 'a option) action \<Rightarrow> ('a \<Rightarrow> ('w, 'b option) action) \<Rightarrow> ('w, 'b option) action" where
  "unless_exit m f = ask m (\<lambda>r. case r of None \<Rightarrow> return None | Some a \<Rightarrow> f a)"

section \<open>Configuration files\<close>

definition try_parse_from :: "('n, 'f) host_ops \<Rightarrow> string \<Rightarrow> bridge_config outcome" where
  "try_parse_from H input = ok_or (toml_from_str H input) ConfigError"

definition try_parse_file :: "('n, 'f) host_ops \<Rightarrow> string \<Rightarrow> (('d, 'n) world, bridge_config) action" where
  "try_parse_file H path =
    ask (request (open_file H path) ConfigError) (\<lambda>file.
    ask (request (read_to_string H file) ConfigError) (\<lambda>contents.
    lift (try_parse_from H contents)))"

section \<open>The command line\<close>

definition parse_from :: "('n, 'f) host_ops \<Rightarrow> string list \<Rightarrow> cli_args outcome" where
  "parse_from H itr = ok_or (clap_args H itr) ConfigError"

definition get_configuration_from :: "('n, 'f) host_ops \<Rightarrow> cli_args \<Rightarrow> (('d, 'n) world, bridge_config) action" where
  "get_configuration_from H args w = (case try_parse_file H (arg_config_file args) w of
      (Ok c, w) \<Rightarrow> (Ok c, w)
    | (Err e, w) \<Rightarrow> (Err ConfigError, w)
    | (Panic, w) \<Rightarrow> (Panic, w))"

definition get_configuration :: "('n, 'f) host_ops \<Rightarrow> string list \<Rightarrow> (('d, 'n) world, bridge_config option) action" where
  "get_configuration H env_args =
    unless_exit (exit_on_error (lift (parse_from H env_args))) (\<lambda>args.
    exit_on_error (get_configuration_from H args))"

section \<open>Logging\<close>

definition level_of :: "u8 \<Rightarrow> level_filter option outcome" where
  "level_of level =
    (if level = 0 then Ok None
     else if level = 1 then Ok (Some ERROR)
     else if level = 2 then Ok (Some WARN)
     else if level = 3 then Ok (Some INFO)
     else if level = 4 then Ok (Some DEBUG)
     else if level = 5 then Ok (Some TRACE)
     else Err ConfigError)"

definition initialize_logger :: "('n, 'f) host_ops \<Rightarrow> u8 \<Rightarrow> (('d, 'n) world, unit) action" where
  "initialize_logger H level =
    ask (lift (level_of level)) (\<lambda>level.
    ask (call (env_var H ''JSON_LOGS'')) (\<lambda>json_logs.
    ask (call (try_init H level (json_logs \<noteq> None))) (\<lambda>res.
    case res of
      None \<Rightarrow> return ()
    | Some e \<Rightarrow>
        lift (ensure (e = ''a global default trace dispatcher has already been set'') ConfigError))))"

section \<open>Binaries\<close>

definition get_configuration_for_binaries ::
  "('n, 'f) host_ops \<Rightarrow> string list \<Rightarrow> (('d, 'n) world, (bridge_config \<times> cli_args) option) action" where
  "get_configuration_for_binaries H env_args =
    unless_exit (exit_on_error (lift (parse_from H env_args))) (\<lambda>args.
    unless_exit (exit_on_error (initialize_logger H (arg_verbose args))) (\<lambda>_.
    unless_exit (exit_on_error (get_configuration_from H args)) (\<lambda>config.
    return (Some (config, args)))))"

section \<open>What they do\<close>

lemma unwrapped_eq_Ok [simp]: "unwrapped m w = (Ok a, w') \<longleftrightarrow> m w = (Ok a, w')"
  by (cases "m w") (auto simp: unwrapped_def)

lemma or_exit_eq_Ok [simp]:
  "or_exit x = Ok (Some a) \<longleftrightarrow> x = Ok a" "or_exit x \<noteq> Err e" "or_exit x = Panic \<longleftrightarrow> x = Panic"
  by (cases x; simp)+

lemma exit_on_error_eq [simp]:
  "exit_on_error m w = (Ok (Some a), w') \<longleftrightarrow> m w = (Ok a, w')"
  "exit_on_error m w \<noteq> (Err e, w')"
  "exit_on_error m w = (Panic, w') \<longleftrightarrow> m w = (Panic, w')"
  by (cases "m w"; auto simp: exit_on_error_def)+

lemma unless_exit_eq_Ok:
  "unless_exit m f w = (Ok (Some b), w') \<longleftrightarrow> (\<exists>a w1. m w = (Ok (Some a), w1) \<and> f a w1 = (Ok (Some b), w'))"
  by (auto simp: unless_exit_def ask_eq_Ok split: option.splits)

text \<open>What a file holds.\<close>

definition file_contents :: "('n, 'f) host_ops \<Rightarrow> string \<Rightarrow> 'n \<Rightarrow> string option" where
  "file_contents H path n =
    (case open_file H path n of
       (None, n) \<Rightarrow> None
     | (Some file, n) \<Rightarrow> fst (read_to_string H file n))"

lemma try_parse_file_eq:
  "fst (try_parse_file H path w) = (case file_contents H path (world_node w) of
      None \<Rightarrow> Err ConfigError
    | Some contents \<Rightarrow> try_parse_from H contents)"
  by (auto simp: try_parse_file_def file_contents_def request_def ask_def call_def
      split: prod.splits option.splits)

lemma get_configuration_from_eq: "get_configuration_from H args w = try_parse_file H (arg_config_file args) w"
proof -
  have "fst (try_parse_file H (arg_config_file args) w) \<in> {Err ConfigError} \<union> range Ok"
    by (auto simp: try_parse_file_eq try_parse_from_def ok_or_def split: option.splits)
  then show ?thesis
    by (cases "try_parse_file H (arg_config_file args) w") (auto simp: get_configuration_from_def)
qed

lemma level_of_cases:
  "level_of level = (if unat level \<le> 5 then Ok (if level = 0 then None
      else Some ([ERROR, WARN, INFO, DEBUG, TRACE] ! (unat level - 1))) else Err ConfigError)"
proof (cases "unat level \<le> 5")
  case True
  then have "unat level \<in> {0, 1, 2, 3, 4, 5}"
    by auto
  then show ?thesis
    by (auto simp: level_of_def word_unat_eq_iff)
qed (auto simp: level_of_def)

text \<open>A binary has its configuration only if every step went well.\<close>

lemma get_configuration_for_binaries_Ok:
  assumes "get_configuration_for_binaries H env_args w = (Ok (Some (config, args)), w')"
  shows "clap_args H env_args = Some args \<and> unat (arg_verbose args) \<le> 5 \<and> world_db w' = world_db w \<and>
    (\<exists>n contents. file_contents H (arg_config_file args) n = Some contents \<and>
      toml_from_str H contents = Some config)"
proof -
  from assms obtain u w1 where args: "clap_args H env_args = Some args"
    and log: "initialize_logger H (arg_verbose args) w = (Ok u, w1)"
    and conf: "try_parse_file H (arg_config_file args) w1 = (Ok config, w')"
    by (auto simp: get_configuration_for_binaries_def unless_exit_eq_Ok parse_from_def get_configuration_from_eq)
  have "unat (arg_verbose args) \<le> 5"
    using log by (auto simp: initialize_logger_def ask_eq_Ok level_of_cases split: if_splits)
  moreover have "moves (=) (initialize_logger H (arg_verbose args))"
    unfolding initialize_logger_def by (intro same_db.moves_intros)
  with log have "world_db w1 = world_db w"
    by (auto dest: same_db.moves_ok)
  moreover have "moves (=) (try_parse_file H (arg_config_file args))"
    unfolding try_parse_file_def by (intro same_db.moves_intros)
  with conf have "world_db w' = world_db w1"
    by (auto dest: same_db.moves_ok)
  moreover have "\<exists>contents. file_contents H (arg_config_file args) (world_node w1) = Some contents \<and>
      toml_from_str H contents = Some config"
    using conf try_parse_file_eq [of H "arg_config_file args" w1]
    by (auto simp: try_parse_from_def ok_or_def split: option.splits)
  ultimately show ?thesis
    using args by auto
qed

text \<open>It never panics: an error ends the process with a message.\<close>

lemma get_configuration_for_binaries_no_panic:
  fixes H :: "('n, 'f) host_ops" and w :: "('d, 'n) world"
  shows "\<exists>r. fst (get_configuration_for_binaries H env_args w) = Ok r"
proof -
  have conf: "fst (try_parse_file H path v) \<noteq> Panic" for path and v :: "('d, 'n) world"
    by (auto simp: try_parse_file_eq try_parse_from_def ok_or_def split: option.splits)
  have log: "fst (initialize_logger H level v) \<noteq> Panic" for level and v :: "('d, 'n) world"
    by (auto simp: initialize_logger_def ask_def call_def level_of_cases lift_def ensure_def
        split: prod.splits option.splits outcome.splits)
  have exits: "\<exists>r. fst (exit_on_error m v) = Ok r" if "fst (m v) \<noteq> Panic"
    for m :: "(('d, 'n) world, 'c) action" and v
    using that by (cases "m v"; cases "fst (m v)") (auto simp: exit_on_error_def)
  have step: "\<exists>r. fst (unless_exit m f v) = Ok r" if "\<exists>r. fst (m v) = Ok r" "\<And>a v. \<exists>r. fst (f a v) = Ok r"
    for m :: "(('d, 'n) world, 'c option) action" and f and v
    using that by (cases "m v") (auto simp: unless_exit_def ask_def split: option.splits)
  show ?thesis
    unfolding get_configuration_for_binaries_def
  proof (rule step, goal_cases)
    case 1
    show ?case
      by (rule exits) (simp add: parse_from_def ok_or_def split: option.splits)
  next
    case (2 args v)
    show ?case
    proof (rule step, goal_cases)
      case 1
      show ?case by (rule exits) (rule log)
    next
      case (2 u v)
      show ?case
        by (rule step, rule exits) (simp_all add: get_configuration_from_eq conf)
    qed
  qed
qed

end
