(* ===== verification/Server_Startup.thy ===== *)
theory Server_Startup
  imports Rpc_Interface Database_Admin Configuration
begin

text \<open>
  \<open>core/src/servers.rs\<close> and \<open>bin/server.rs\<close>: how the servers of the roles are started. The library
  \<open>jsonrpsee\<close> is a parameter: it binds a listener to a host and port, and builds a client for a URL.
  A server answers as \<open>operator_serve\<close>, \<open>verifier_serve\<close> or \<open>aggregator_serve\<close> of the role it was started with.
\<close>

section \<open>Servers\<close>

text \<open>
  \<open>bind_server\<close> opens a listener, whose address \<open>local_addr\<close> then tells: its ip and its port.
  \<open>rpc_connect\<close> is the constructor of the client of the Bitcoin node.
\<close>

record ('n, 'l) server_lib =
  bind_server :: "string \<Rightarrow> 'n \<Rightarrow> 'l option \<times> 'n"
  local_addr :: "'l \<Rightarrow> (string \<times> u16) option"
  build_client :: "string \<Rightarrow> bool"
  rpc_connect :: "string \<Rightarrow> string \<times> string \<Rightarrow> 'n \<Rightarrow> unit option \<times> 'n"

text \<open>
  \<open>ExtendedRpc\<close> with its address and credentials; making one and cloning one both open a connection,
  and panic without it.
\<close>

record extended_rpc =
  rpc_url :: string
  rpc_auth :: "string \<times> string"

definition extended_rpc_new ::
  "('n, 'l) server_lib \<Rightarrow> string \<Rightarrow> string \<Rightarrow> string \<Rightarrow> (('d, 'n) world, extended_rpc) action" where
  "extended_rpc_new S url user password =
    (let auth = (user, password) in
    ask (unwrapped (request (rpc_connect S url auth) BitcoinRpcError)) (\<lambda>_.
    return \<lparr>rpc_url = url, rpc_auth = auth\<rparr>))"

definition extended_rpc_clone ::
  "('n, 'l) server_lib \<Rightarrow> extended_rpc \<Rightarrow> (('d, 'n) world, extended_rpc) action" where
  "extended_rpc_clone S self =
    ask (unwrapped (request (rpc_connect S (rpc_url self) (rpc_auth self)) BitcoinRpcError)) (\<lambda>_.
    return self)"

definition listen_url :: "bridge_config \<Rightarrow> string" where
  "listen_url config = cfg_host config @ '':'' @ decimal (unat (cfg_port config))"

definition client_url :: "string \<times> u16 \<Rightarrow> string" where
  "client_url addr = ''http://'' @ fst addr @ '':'' @ decimal (unat (snd addr)) @ ''/''"

definition create_verifier_server ::
  "('n, 'l) server_lib \<Rightarrow> 'x lib_scheme \<Rightarrow> bridge_config \<Rightarrow> ('n, verifier \<times> string \<times> u16) handler" where
  "create_verifier_server S L config =
    ask (request (bind_server S (listen_url config)) ServerError) (\<lambda>server.
    ask (verifier_new L config) (\<lambda>verifier.
    ask (lift (ok_or (local_addr S server) ServerError)) (\<lambda>addr.
    ask (lift (ensure (build_client S (client_url addr)) JsonRpcError)) (\<lambda>_.
    return (verifier, addr)))))"

definition create_operator_server ::
  "('n, 'l) server_lib \<Rightarrow> 'x lib_scheme \<Rightarrow> 'n node_ops \<Rightarrow> bridge_config \<Rightarrow>
   ('n, operator \<times> string \<times> u16) handler" where
  "create_operator_server S L N config =
    ask (operator_new L N config) (\<lambda>operator.
    ask (request (bind_server S (listen_url config)) ServerError) (\<lambda>server.
    ask (lift (ok_or (local_addr S server) ServerError)) (\<lambda>addr.
    ask (lift (ensure (build_client S (client_url addr)) JsonRpcError)) (\<lambda>_.
    return (operator, addr)))))"

definition create_aggregator_server ::
  "('n, 'l) server_lib \<Rightarrow> 'x lib_scheme \<Rightarrow> bridge_config \<Rightarrow> ('n, aggregator \<times> string \<times> u16) handler" where
  "create_aggregator_server S L config =
    ask (lift (aggregator_new L config)) (\<lambda>aggregator.
    ask (request (bind_server S (listen_url config)) ServerError) (\<lambda>server.
    ask (lift (ok_or (local_addr S server) ServerError)) (\<lambda>addr.
    ask (lift (ensure (build_client S (client_url addr)) JsonRpcError)) (\<lambda>_.
    return (aggregator, addr)))))"

section \<open>The binary\<close>

datatype running_server =
    Verifier_Server verifier "string \<times> u16"
  | Operator_Server operator "string \<times> u16"
  | Aggregator_Server aggregator "string \<times> u16"

text \<open>The three blocks of \<open>main\<close> that start servers, with \<open>config.port += 1\<close> after the first two.\<close>

definition next_port :: "bridge_config \<Rightarrow> bridge_config" where
  "next_port config = config\<lparr>cfg_port := cfg_port config + 1\<rparr>"

definition start_servers ::
  "('n, 'l) server_lib \<Rightarrow> 'x lib_scheme \<Rightarrow> 'n node_ops \<Rightarrow> cli_args \<Rightarrow> extended_rpc \<Rightarrow> bridge_config \<Rightarrow>
   ('n, running_server list) handler" where
  "start_servers S L N args rpc config =
    ask (if arg_verifier_server args then
        ask (extended_rpc_clone S rpc) (\<lambda>_.
        ask (unwrapped (create_verifier_server S L config)) (\<lambda>(verifier, addr).
        return ([Verifier_Server verifier addr], next_port config)))
      else return ([], config)) (\<lambda>(verifiers, config).
    ask (if arg_operator_server args then
        ask (extended_rpc_clone S rpc) (\<lambda>_.
        ask (unwrapped (create_operator_server S L N config)) (\<lambda>(operator, addr).
        return ([Operator_Server operator addr], next_port config)))
      else return ([], config)) (\<lambda>(operators, config).
    ask (if arg_aggregator_server args then
        ask (unwrapped (create_aggregator_server S L config)) (\<lambda>(aggregator, addr).
        return [Aggregator_Server aggregator addr])
      else return []) (\<lambda>aggregators.
    return (verifiers @ operators @ aggregators))))"

text \<open>
  A handler on the database that the configuration names. Without tables every statement would
  fail; \<open>main\<close> runs the schema script first, so they are there.
\<close>

definition on_database :: "string \<Rightarrow> ('n, 'a) handler \<Rightarrow> ('n, 'a) admin" where
  "on_database name m w =
    (case world_db w name of
       Some (Some d) \<Rightarrow>
         (let (r, w') = m \<lparr>world_db = d, world_faults = world_faults w, world_node = world_node w\<rparr>
          in (r, \<lparr>world_db = (world_db w)(name \<mapsto> Some (world_db w')),
                  world_faults = world_faults w', world_node = world_node w'\<rparr>))
     | _ \<Rightarrow> (Err DatabaseError, w))"

text \<open>\<open>main\<close> of \<open>bin/server.rs\<close>; \<open>None\<close> is \<open>exit(1)\<close>.\<close>

definition run_servers ::
  "('n, 'l) server_lib \<Rightarrow> postgres \<Rightarrow> 'x lib_scheme \<Rightarrow> 'n node_ops \<Rightarrow> cli_args \<Rightarrow> bridge_config \<Rightarrow>
   ('n, running_server list option) admin" where
  "run_servers S P L N args config =
    (if \<not> arg_verifier_server args \<and> \<not> arg_operator_server args \<and> \<not> arg_aggregator_server args
     then return None
     else
       ask (extended_rpc_new S (cfg_bitcoin_rpc_url config) (cfg_bitcoin_rpc_user config)
         (cfg_bitcoin_rpc_password config)) (\<lambda>rpc.
       ask (unwrapped (run_schema_script P config)) (\<lambda>_.
       ask (on_database (cfg_db_name config) (start_servers S L N args rpc config)) (\<lambda>handles.
       return (Some handles)))))"

definition server_main ::
  "('n, 'f) host_ops \<Rightarrow> ('n, 'l) server_lib \<Rightarrow> postgres \<Rightarrow> 'x lib_scheme \<Rightarrow> 'n node_ops \<Rightarrow> string list \<Rightarrow>
   ('n, running_server list option) admin" where
  "server_main H S P L N env_args =
    unless_exit (get_configuration_for_binaries H env_args) (\<lambda>(config, args).
    run_servers S P L N args config)"

section \<open>Starting is restarting\<close>

text \<open>
  What starting the servers does to the tables, however it ends, is what constructing the roles does:
  the funding output of an operator that has none.
\<close>

lemma create_servers_move:
  "moves (=) (create_verifier_server S L config)"
  "moves only_funding (create_operator_server S L N config)"
  "moves (=) (create_aggregator_server S L config)"
proof -
  have "moves (=) (verifier_new L config)"
    unfolding verifier_new_def Let_def database_new_def by (intro same_db.moves_intros) simp
  then show "moves (=) (create_verifier_server S L config)"
    unfolding create_verifier_server_def by (intro same_db.moves_intros)
  show "moves only_funding (create_operator_server S L N config)"
    unfolding create_operator_server_def by (intro funding_order.moves_intros operator_new_moves)
  show "moves (=) (create_aggregator_server S L config)"
    unfolding create_aggregator_server_def by (intro same_db.moves_intros)
qed

lemma moves_unwrapped: "moves R m \<Longrightarrow> moves R (unwrapped m)"
  by (simp add: moves_def unwrapped_def)

lemma extended_rpc_move:
  "moves (=) (extended_rpc_new S url user password)" "moves (=) (extended_rpc_clone S rpc)"
  unfolding extended_rpc_new_def extended_rpc_clone_def Let_def
  by (intro same_db.moves_intros moves_unwrapped)+

lemma start_servers_move: "moves only_funding (start_servers S L N args rpc config)"
  unfolding start_servers_def
  by (intro funding_order.moves_intros moves_unwrapped create_servers_move(2)
      read_moves [OF extended_rpc_move(2)] read_moves [OF moves_unwrapped [OF create_servers_move(1)]]
      read_moves [OF moves_unwrapped [OF create_servers_move(3)]])

text \<open>
  Starting the binary on an existing database keeps every row of it but for the funding outputs,
  and leaves the other databases alone.
\<close>

lemma on_database_Ok:
  assumes "on_database name m w = (Ok a, w')"
  obtains w1 w2 where "m w1 = (Ok a, w2)"
proof -
  from assms obtain d where "world_db w name = Some (Some d)"
    by (auto simp: on_database_def split: option.splits)
  with assms show ?thesis
    by (auto simp: on_database_def split: prod.splits intro: that)
qed

lemma on_database_move:
  assumes "moves R m" "on_database name m w = (r, w')" "world_db w name = Some (Some d)"
  shows "\<exists>d'. world_db w' = (world_db w)(name \<mapsto> Some d') \<and> R d d'"
proof -
  let ?w = "\<lparr>world_db = d, world_faults = world_faults w, world_node = world_node w\<rparr>"
  have "R d (world_db (snd (m ?w)))"
    using assms(1) [unfolded moves_def, rule_format, of ?w] by simp
  then show ?thesis
    using assms(2,3) by (auto simp: on_database_def split: prod.splits)
qed

lemma run_servers_keeps_rows:
  assumes "run_servers S P L N args config w = (Ok (Some servers), w')"
    and "pg_resolve P (get_postgresql_database_url config) = Some (cfg_db_name config)"
  shows "\<exists>d d'. world_db w (cfg_db_name config) \<in> {Some None, Some (Some d)} \<and>
    (world_db w (cfg_db_name config) = Some None \<longrightarrow> d = empty_database) \<and>
    only_funding d d' \<and> world_db w' = (world_db w)(cfg_db_name config \<mapsto> Some d')"
proof -
  let ?name = "cfg_db_name config"
  from assms(1) obtain rpc w0 u w1 where 0: "extended_rpc_new S (cfg_bitcoin_rpc_url config)
      (cfg_bitcoin_rpc_user config) (cfg_bitcoin_rpc_password config) w = (Ok rpc, w0)"
    and run: "run_schema_script P config w0 = (Ok u, w1)"
    and 2: "on_database ?name (start_servers S L N args rpc config) w1 = (Ok servers, w')"
    by (auto simp: run_servers_def ask_eq_Ok split: if_splits)
  have db: "world_db w0 = world_db w"
    using same_db.moves_ok [OF extended_rpc_move(1) 0] by simp
  have schema: "world_db w ?name \<noteq> None" "world_db w1 = (world_db w)
      (?name \<mapsto> Some (case the (world_db w ?name) of None \<Rightarrow> empty_database | Some d \<Rightarrow> d))"
    using run_schema_Ok [OF run] assms(2) db by auto
  obtain d where d: "world_db w1 = (world_db w)(?name \<mapsto> Some d)"
    "world_db w ?name \<in> {Some None, Some (Some d)}" "world_db w ?name = Some None \<longrightarrow> d = empty_database"
  proof (cases "the (world_db w ?name)")
    case None
    with schema that [of empty_database] show ?thesis by auto
  next
    case (Some d)
    with schema that [of d] show ?thesis by auto
  qed
  moreover obtain d' where "world_db w' = (world_db w1)(?name \<mapsto> Some d')" "only_funding d d'"
    using on_database_move [OF start_servers_move 2] d(1) by auto
  ultimately show ?thesis
    by auto
qed

section \<open>Ports\<close>

definition server_addr :: "running_server \<Rightarrow> string \<times> u16" where
  "server_addr server = (case server of
      Verifier_Server _ addr \<Rightarrow> addr | Operator_Server _ addr \<Rightarrow> addr | Aggregator_Server _ addr \<Rightarrow> addr)"

text \<open>The role that a server answers for, and the configuration it was started with.\<close>

datatype server_role = Serves_Verifier | Serves_Operator | Serves_Aggregator

definition server_role :: "running_server \<Rightarrow> server_role" where
  "server_role server = (case server of
      Verifier_Server _ _ \<Rightarrow> Serves_Verifier | Operator_Server _ _ \<Rightarrow> Serves_Operator
    | Aggregator_Server _ _ \<Rightarrow> Serves_Aggregator)"

definition server_config :: "running_server \<Rightarrow> bridge_config" where
  "server_config server = (case server of
      Verifier_Server v _ \<Rightarrow> verifier_config v | Operator_Server self _ \<Rightarrow> operator_config self
    | Aggregator_Server a _ \<Rightarrow> aggregator_config a)"

definition requested_roles :: "cli_args \<Rightarrow> server_role list" where
  "requested_roles args = [role. (asked, role) \<leftarrow> [(arg_verifier_server args, Serves_Verifier),
     (arg_operator_server args, Serves_Operator), (arg_aggregator_server args, Serves_Aggregator)], asked]"

text \<open>What \<open>main\<close> asks of the library: the \<open>i\<close>-th server it starts listens on the \<open>i\<close>-th port.\<close>

definition listens :: "('n, 'l) server_lib \<Rightarrow> bridge_config \<Rightarrow> string \<times> u16 \<Rightarrow> bool" where
  "listens S config addr \<longleftrightarrow> (\<exists>l n n'. bind_server S (listen_url config) n = (Some l, n') \<and>
    local_addr S l = Some addr \<and> build_client S (client_url addr))"

lemma create_servers_listen:
  "create_verifier_server S L config w = (Ok (v, addr), w') \<Longrightarrow> listens S config addr \<and> verifier_config v = config"
  "create_operator_server S L N config w = (Ok (self, addr), w') \<Longrightarrow> listens S config addr \<and> operator_config self = config"
  "create_aggregator_server S L config w = (Ok (a, addr), w') \<Longrightarrow> listens S config addr \<and> aggregator_config a = config"
proof -
  show "create_verifier_server S L config w = (Ok (v, addr), w') \<Longrightarrow> listens S config addr \<and> verifier_config v = config"
    by (auto simp: create_verifier_server_def listens_def ask_eq_Ok verifier_new_def Let_def dest!: request_eq_Ok)
  show "create_operator_server S L N config w = (Ok (self, addr), w') \<Longrightarrow> listens S config addr \<and> operator_config self = config"
    by (auto simp: create_operator_server_def listens_def ask_eq_Ok operator_new_def Let_def dest!: request_eq_Ok)
  show "create_aggregator_server S L config w = (Ok (a, addr), w') \<Longrightarrow> listens S config addr \<and> aggregator_config a = config"
    by (auto simp: create_aggregator_server_def listens_def ask_eq_Ok aggregator_new_def Let_def dest!: request_eq_Ok)
qed

text \<open>One block: it starts the server it is asked for, which listens where the configuration says.\<close>

definition block ::
  "('n, 'l) server_lib \<Rightarrow> bool \<Rightarrow> server_role \<Rightarrow> bridge_config \<Rightarrow> running_server list \<Rightarrow> bridge_config \<Rightarrow> bool" where
  "block S asked role config started config' \<longleftrightarrow>
    (if asked then \<exists>server. started = [server] \<and> server_role server = role \<and> server_config server = config \<and>
       listens S config (server_addr server) \<and> config' = next_port config
     else started = [] \<and> config' = config)"

lemma start_servers_blocks:
  assumes "start_servers S L N args rpc config w = (Ok servers, w')"
  obtains verifiers operators aggregators config1 config2 config3 where
    "servers = verifiers @ operators @ aggregators"
    "block S (arg_verifier_server args) Serves_Verifier config verifiers config1"
    "block S (arg_operator_server args) Serves_Operator config1 operators config2"
    "block S (arg_aggregator_server args) Serves_Aggregator config2 aggregators config3"
proof -
  from assms obtain verifiers config1 w1 operators config2 w2 aggregators where
    v: "(if arg_verifier_server args then
        ask (extended_rpc_clone S rpc) (\<lambda>_.
        ask (unwrapped (create_verifier_server S L config)) (\<lambda>(verifier, addr).
        return ([Verifier_Server verifier addr], next_port config)))
      else return ([], config)) w = (Ok (verifiers, config1), w1)"
    and op: "(if arg_operator_server args then
        ask (extended_rpc_clone S rpc) (\<lambda>_.
        ask (unwrapped (create_operator_server S L N config1)) (\<lambda>(operator, addr).
        return ([Operator_Server operator addr], next_port config1)))
      else return ([], config1)) w1 = (Ok (operators, config2), w2)"
    and ag: "(if arg_aggregator_server args then
        ask (unwrapped (create_aggregator_server S L config2)) (\<lambda>(aggregator, addr).
        return [Aggregator_Server aggregator addr])
      else return []) w2 = (Ok aggregators, w')"
    and servers: "servers = verifiers @ operators @ aggregators"
    by (auto simp: start_servers_def ask_eq_Ok [of "if _ then _ else _"])
  have "block S (arg_verifier_server args) Serves_Verifier config verifiers config1"
    using v create_servers_listen(1)
    by (fastforce simp: block_def ask_eq_Ok server_addr_def server_role_def server_config_def split: if_splits)
  moreover have "block S (arg_operator_server args) Serves_Operator config1 operators config2"
    using op create_servers_listen(2)
    by (fastforce simp: block_def ask_eq_Ok server_addr_def server_role_def server_config_def split: if_splits)
  moreover have "\<exists>config3. block S (arg_aggregator_server args) Serves_Aggregator config2 aggregators config3"
    using ag create_servers_listen(3)
    by (fastforce simp: block_def ask_eq_Ok server_addr_def server_role_def server_config_def split: if_splits)
  ultimately show ?thesis
    using servers that by blast
qed

lemma start_servers_roles:
  assumes "start_servers S L N args rpc config w = (Ok servers, w')"
  shows "List.map server_role servers = requested_roles args"
  using assms
  by (rule start_servers_blocks) (auto simp: block_def requested_roles_def split: if_splits)

lemma start_servers_listen:
  assumes "start_servers S L N args rpc config w = (Ok servers, w')" "i < length servers"
  shows "server_config (servers ! i) = config\<lparr>cfg_port := cfg_port config + word_of_nat i\<rparr> \<and>
    listens S (server_config (servers ! i)) (server_addr (servers ! i))"
proof -
  obtain verifiers operators aggregators config1 config2 config3 where
    b: "servers = verifiers @ operators @ aggregators"
      "block S (arg_verifier_server args) Serves_Verifier config verifiers config1"
      "block S (arg_operator_server args) Serves_Operator config1 operators config2"
      "block S (arg_aggregator_server args) Serves_Aggregator config2 aggregators config3"
    using start_servers_blocks [OF assms(1)] .
  have ports: "config\<lparr>cfg_port := cfg_port config + word_of_nat 0\<rparr> = config"
    "config\<lparr>cfg_port := cfg_port config + word_of_nat 1\<rparr> = next_port config"
    "config\<lparr>cfg_port := cfg_port config + word_of_nat 2\<rparr> = next_port (next_port config)"
    by (simp_all add: next_port_def)
  have "i = 0 \<or> i = 1 \<or> i = 2"
    using assms(2) b by (auto simp: block_def split: if_splits)
  then show ?thesis
    using b assms(2) ports by (elim disjE) (auto simp: block_def split: if_splits)
qed

section \<open>Properties\<close>

text \<open>
  C37. When the binary comes up, its arguments were accepted, with a verbosity of at most 5, and the
  configuration is that of the file they name; exactly the roles it was asked for are served, in the
  order verifier, operator, aggregator, the first on the configured port and each next one on the
  next port, each started with that configuration but for the port; the tables are those that were there (or
  new ones) with at most the funding outputs changed, and no other database is touched, where the
  URL of the database names it.
\<close>

theorem server_main_effect:
  assumes "server_main H S P L N env_args w = (Ok (Some servers), w')"
  shows "\<exists>args config n contents. clap_args H env_args = Some args \<and> unat (arg_verbose args) \<le> 5 \<and>
    file_contents H (arg_config_file args) n = Some contents \<and> toml_from_str H contents = Some config \<and>
    List.map server_role servers = requested_roles args \<and>
    (\<forall>i < length servers. server_config (servers ! i) = config\<lparr>cfg_port := cfg_port config + word_of_nat i\<rparr> \<and>
      listens S (server_config (servers ! i)) (server_addr (servers ! i))) \<and>
    (pg_resolve P (get_postgresql_database_url config) = Some (cfg_db_name config) \<longrightarrow>
      (\<exists>d d'. world_db w (cfg_db_name config) \<in> {Some None, Some (Some d)} \<and>
      (world_db w (cfg_db_name config) = Some None \<longrightarrow> d = empty_database) \<and>
      only_funding d d' \<and> world_db w' = (world_db w)(cfg_db_name config \<mapsto> Some d')))"
proof -
  from assms(1) obtain config args w1 where
    conf: "get_configuration_for_binaries H env_args w = (Ok (Some (config, args)), w1)"
    and run: "run_servers S P L N args config w1 = (Ok (Some servers), w')"
    by (auto simp: server_main_def unless_exit_eq_Ok)
  then obtain rpc w0 where
    "on_database (cfg_db_name config) (start_servers S L N args rpc config) w0 = (Ok servers, w')"
    by (auto simp: run_servers_def ask_eq_Ok split: if_splits)
  then obtain w2 w3 where "start_servers S L N args rpc config w2 = (Ok servers, w3)"
    by (rule on_database_Ok)
  then have "List.map server_role servers = requested_roles args"
    "\<forall>i < length servers. server_config (servers ! i) = config\<lparr>cfg_port := cfg_port config + word_of_nat i\<rparr> \<and>
      listens S (server_config (servers ! i)) (server_addr (servers ! i))"
    using start_servers_roles start_servers_listen by blast+
  moreover obtain n contents where conf_file: "clap_args H env_args = Some args" "unat (arg_verbose args) \<le> 5"
      "world_db w1 = world_db w" "file_contents H (arg_config_file args) n = Some contents"
      "toml_from_str H contents = Some config"
    using get_configuration_for_binaries_Ok [OF conf] by blast
  moreover note run_servers_keeps_rows [OF run, unfolded conf_file(3)]
  ultimately show ?thesis
    by blast
qed

text \<open>An operator and an aggregator start on a database without tables.\<close>

definition example_server_lib :: "(example_chain, string) server_lib" where
  "example_server_lib = \<lparr>bind_server = (\<lambda>url n. (Some url, n)),
     local_addr = (\<lambda>url. Some (''127.0.0.1'', if url = '':3030'' then 3030 else 3031)),
     build_client = (\<lambda>url. True), rpc_connect = (\<lambda>url auth n. (Some (), n))\<rparr>"

definition example_postgres :: postgres where
  "example_postgres = \<lparr>pg_resolve = (\<lambda>url. Some []), pg_statement = (\<lambda>sql. None)\<rparr>"

definition example_args :: cli_args where
  "example_args = \<lparr>arg_config_file = ''config.toml'', arg_verbose = 0, arg_verifier_server = False,
     arg_operator_server = True, arg_aggregator_server = True\<rparr>"

definition example_host :: "(example_chain, unit) host_ops" where
  "example_host = \<lparr>clap_args = (\<lambda>args. Some example_args), open_file = (\<lambda>path n. (Some (), n)),
     read_to_string = (\<lambda>file n. (Some [], n)), write_file = (\<lambda>path contents n. (None, n)),
     env_var = (\<lambda>name n. (None, n)), try_init = (\<lambda>level json n. (None, n)),
     toml_from_str = (\<lambda>s. Some (example_config (replicate 32 2))), toml_to_string = (\<lambda>config. None),
     new_secret_key = (\<lambda>n. ([], n)), thread_name = None, cargo_manifest_dir = []\<rparr>"

definition example_main :: "(example_chain, running_server list option) admin" where
  "example_main = server_main example_host example_server_lib example_postgres example_lib example_node []"

definition example_cluster :: "(cluster, example_chain) world" where
  "example_cluster = \<lparr>world_db = [[] \<mapsto> None], world_faults = [], world_node = world_node start_world\<rparr>"

text \<open>The configuration, the two servers and the schema script one after the other.\<close>

lemma example_configuration: "get_configuration_for_binaries example_host [] w =
    (Ok (Some (example_config (replicate 32 2), example_args)), w)"
proof -
  have "initialize_logger example_host (arg_verbose example_args) w = (Ok (), w)"
    by (simp add: initialize_logger_def level_of_def ask_def call_def example_host_def example_args_def)
  moreover have "try_parse_file example_host path w = (Ok (example_config (replicate 32 2)), w)" for path
    by (simp add: try_parse_file_def try_parse_from_def request_def ask_def call_def lift_def example_host_def)
  moreover have "parse_from example_host [] = Ok example_args"
    by (simp add: parse_from_def example_host_def)
  ultimately show ?thesis
    by (simp add: get_configuration_for_binaries_def unless_exit_eq_Ok get_configuration_from_eq)
qed

lemma example_servers_Ok:
  "is_Ok (fst (create_operator_server example_server_lib example_lib example_node
     (example_config (replicate 32 2)) start_world))"
  "is_Ok (aggregator_new example_lib (next_port (example_config (replicate 32 2))))"
  by code_simp+

lemma example_aggregator_server:
  "\<exists>started. create_aggregator_server example_server_lib example_lib
     (next_port (example_config (replicate 32 2))) w = (Ok started, w)"
proof -
  obtain a where "aggregator_new example_lib (next_port (example_config (replicate 32 2))) = Ok a"
    using example_servers_Ok(2) by (auto simp: is_Ok_iff)
  then show ?thesis
    by (simp add: create_aggregator_server_def request_def ask_def call_def lift_def example_server_lib_def)
qed

lemma example_rpc:
  "extended_rpc_new example_server_lib url user password w =
    (Ok \<lparr>rpc_url = url, rpc_auth = (user, password)\<rparr>, w)"
  "extended_rpc_clone example_server_lib rpc w = (Ok rpc, w)"
  by (simp_all add: extended_rpc_new_def extended_rpc_clone_def request_def ask_def call_def lift_def
      unwrapped_def example_server_lib_def)

lemma example_start_Ok:
  "\<exists>servers w. start_servers example_server_lib example_lib example_node example_args rpc
     (example_config (replicate 32 2)) start_world = (Ok servers, w)"
proof -
  obtain self addr w where "create_operator_server example_server_lib example_lib example_node
      (example_config (replicate 32 2)) start_world = (Ok (self, addr), w)"
    using example_servers_Ok(1) by (auto simp: is_Ok_iff) (metis prod.collapse)
  with example_aggregator_server [of w] show ?thesis
    by (auto simp: start_servers_def example_args_def example_rpc unwrapped_def ask_def split: prod.splits)
qed

lemma example_schema: "run_schema_script example_postgres (example_config (replicate 32 2)) example_cluster =
    (Ok (), example_cluster\<lparr>world_db := [[] \<mapsto> Some empty_database]\<rparr>)"
  by (simp add: run_schema_script_def connect_database_def ask_def pg_connect_no_fault
      query_no_fault [where a = "()" and d = "[[] \<mapsto> Some empty_database]"]
      example_postgres_def example_cluster_def sql_schema_def)

lemma example_main_Ok: "\<exists>servers. fst (example_main example_cluster) = Ok (Some servers)"
proof -
  obtain servers w where "start_servers example_server_lib example_lib example_node example_args
     \<lparr>rpc_url = cfg_bitcoin_rpc_url (example_config (replicate 32 2)),
       rpc_auth = (cfg_bitcoin_rpc_user (example_config (replicate 32 2)),
         cfg_bitcoin_rpc_password (example_config (replicate 32 2)))\<rparr>
     (example_config (replicate 32 2)) start_world = (Ok servers, w)"
    using example_start_Ok by blast
  moreover have "\<lparr>world_db = empty_database, world_faults = [], world_node = world_node start_world\<rparr> = start_world"
    by (simp add: start_world_def)
  moreover have "cfg_db_name (example_config (replicate 32 2)) = []"
    by (simp add: example_config_def)
  ultimately show ?thesis
    using example_schema example_configuration [of example_cluster]
    by (simp add: example_main_def server_main_def unless_exit_def run_servers_def ask_def example_rpc
        unwrapped_def on_database_def example_args_def example_cluster_def)
qed

theorem server_main_effect_witness:
  "\<exists>servers d. fst (example_main example_cluster) = Ok (Some servers) \<and>
    List.map server_role servers = [Serves_Operator, Serves_Aggregator] \<and>
    world_db (snd (example_main example_cluster)) = [[] \<mapsto> Some d] \<and> only_funding empty_database d"
proof -
  obtain servers where 1: "fst (example_main example_cluster) = Ok (Some servers)"
    using example_main_Ok by blast
  then have main: "server_main example_host example_server_lib example_postgres example_lib example_node []
      example_cluster = (Ok (Some servers), snd (example_main example_cluster))"
    unfolding example_main_def by (metis prod.collapse)
  have "pg_resolve example_postgres (get_postgresql_database_url (example_config (replicate 32 2))) =
      Some (cfg_db_name (example_config (replicate 32 2)))"
    by (simp add: example_config_def example_postgres_def)
  moreover have "clap_args example_host [] = Some example_args" "requested_roles example_args = [Serves_Operator, Serves_Aggregator]"
    "toml_from_str example_host s = Some (example_config (replicate 32 2))" for s
    by (simp_all add: example_host_def requested_roles_def example_args_def)
  moreover have "world_db example_cluster = [[] \<mapsto> None]" "cfg_db_name (example_config (replicate 32 2)) = []"
    by (simp_all add: example_cluster_def example_config_def)
  ultimately show ?thesis
    using server_main_effect [OF main] 1 by fastforce
qed

end
