(* ===== verification/Config_Generator.thy ===== *)
theory Config_Generator
  imports Server_Startup
begin

text \<open>
  \<open>bin/config_generator.rs\<close>: keys for a set of verifiers and one configuration file for each, from a
  template. The lines it prints are its result; text is ASCII.
\<close>

section \<open>Ports\<close>

text \<open>\<open>str::split\<close> at a character and \<open>str::trim\<close>.\<close>

fun split_at_char :: "char \<Rightarrow> string \<Rightarrow> string list" where
  "split_at_char c [] = [[]]"
| "split_at_char c (x # xs) =
    (if x = c then [] # split_at_char c xs
     else case split_at_char c xs of [] \<Rightarrow> [[x]] | s # ss \<Rightarrow> (x # s) # ss)"

definition is_whitespace :: "char \<Rightarrow> bool" where
  "is_whitespace c \<longleftrightarrow> of_char c = (32 :: nat) \<or> of_char c \<in> {9 :: nat..13}"

definition trim :: "string \<Rightarrow> string" where
  "trim s = rev (dropWhile is_whitespace (rev (dropWhile is_whitespace s)))"

text \<open>\<open>u16::from_str\<close>: decimal digits after an optional plus sign, with checked arithmetic.\<close>

fun read_digits :: "nat \<Rightarrow> string \<Rightarrow> nat option" where
  "read_digits acc [] = Some acc"
| "read_digits acc (c # cs) =
    (let digit = of_char c in
     if digit < 48 \<or> 57 < digit then None
     else let acc = acc * 10 + (digit - 48) in if 65535 < acc then None else read_digits acc cs)"

definition u16_from_str :: "string \<Rightarrow> u16 option" where
  "u16_from_str s =
    (let digits = (case s of c # cs \<Rightarrow> if c = CHR ''+'' then cs else s | [] \<Rightarrow> []) in
     if digits = [] then None else map_option word_of_nat (read_digits 0 digits))"

section \<open>The program\<close>

record generator_args =
  gen_config_file :: string
  gen_ports :: string
  gen_folder :: string

fun draw_secret_keys :: "('n, 'f) host_ops \<Rightarrow> nat \<Rightarrow> (('d, 'n) world, secret_key list) action" where
  "draw_secret_keys H 0 = return []"
| "draw_secret_keys H (Suc n) =
    ask (call (new_secret_key H)) (\<lambda>secret_key.
    ask (draw_secret_keys H n) (\<lambda>secret_keys.
    return (secret_key # secret_keys)))"

definition http_url :: "string \<Rightarrow> u16 \<Rightarrow> string" where
  "http_url host port = ''http://'' @ host @ '':'' @ decimal (unat port)"

definition generated_config ::
  "bridge_config \<Rightarrow> u16 list \<Rightarrow> secret_key list \<Rightarrow> public_key list \<Rightarrow> nat \<Rightarrow> bridge_config" where
  "generated_config cur_config ports secret_keys public_keys i =
    (let num_verifiers = length ports;
         new_config = cur_config\<lparr>cfg_secret_key := secret_keys ! i, cfg_verifiers_public_keys := public_keys,
           cfg_num_verifiers := num_verifiers, cfg_port := ports ! i\<rparr>
     in if i = num_verifiers - 1
        then new_config\<lparr>cfg_verifier_endpoints :=
          Some (List.map (http_url (cfg_host cur_config)) (take (length ports - 1) ports))\<rparr>
        else new_config)"

definition config_file_name :: "string \<Rightarrow> nat \<Rightarrow> string" where
  "config_file_name folder i = folder @ ''/config_'' @ decimal i @ ''.toml''"

fun write_configs ::
  "('n, 'f) host_ops \<Rightarrow> string \<Rightarrow> nat \<Rightarrow> (nat \<times> bridge_config) list \<Rightarrow> (('d, 'n) world, string list) action" where
  "write_configs H folder num_verifiers [] = return []"
| "write_configs H folder num_verifiers ((i, new_config) # rest) =
    (let file_name = config_file_name folder i in
    ask (lift (unwrap (toml_to_string H new_config))) (\<lambda>s.
    ask (unwrapped (request (write_file H file_name s) ConfigError)) (\<lambda>_.
    ask (write_configs H folder num_verifiers rest) (\<lambda>output.
    return ((if i < num_verifiers - 1 then ''cargo run --bin verifier '' @ file_name
             else ''cargo run --bin operator '' @ file_name) # output)))))"

definition join_with :: "string \<Rightarrow> string list \<Rightarrow> string" where
  "join_with sep ss = (case ss of [] \<Rightarrow> [] | s # ss \<Rightarrow> s @ concat (List.map (\<lambda>t. sep @ t) ss))"

definition config_generator_main ::
  "('n, 'f) host_ops \<Rightarrow> 'x lib_scheme \<Rightarrow> generator_args \<Rightarrow> (('d, 'n) world, string list) action" where
  "config_generator_main H L cli =
    ask (lift (attempt_map (\<lambda>s. unwrap (u16_from_str (trim s))) (split_at_char CHR '','' (gen_ports cli)))) (\<lambda>ports.
    let num_verifiers = length ports in
    ask (draw_secret_keys H num_verifiers) (\<lambda>secret_keys.
    let public_keys = List.map (\<lambda>sk. keypair_public_key L (keypair_from_secret_key L sk)) secret_keys in
    ask (unwrapped (try_parse_file H (gen_config_file cli))) (\<lambda>cur_config.
    ask (write_configs H (gen_folder cli) num_verifiers
      (List.map (\<lambda>i. (i, generated_config cur_config ports secret_keys public_keys i)) [0..<num_verifiers])) (\<lambda>output.
    return (output @
      [''VERIFIER_PKS='' @ join_with '','' (List.map (hex_encode L) public_keys),
       ''OPERATOR_URL='' @ http_url (cfg_host cur_config) (ports ! (num_verifiers - 1))])))))"

section \<open>Reading and printing numbers\<close>

lemma split_at_char_not_Nil: "split_at_char c s \<noteq> []"
  by (cases s) (auto split: list.splits)

lemma digit_char: "i < 10 \<Longrightarrow> of_char (char_of (48 + i) :: char) = (48 + i :: nat)"
  by simp

lemma read_digits_append:
  "read_digits acc (xs @ ys) = (case read_digits acc xs of None \<Rightarrow> None | Some acc \<Rightarrow> read_digits acc ys)"
  by (induction xs arbitrary: acc) (simp_all add: Let_def)

lemma read_digits_decimal: "n < 65536 \<Longrightarrow> read_digits 0 (decimal n) = Some n"
proof (induction n rule: decimal.induct)
  case (1 n)
  then show ?case
    by (cases "n < 10") (subst decimal.simps, simp add: digit_char read_digits_append Let_def)+
qed

lemma decimal_not_Nil: "decimal n \<noteq> []"
  by (subst decimal.simps) simp

lemma decimal_digits: "set (decimal n) \<subseteq> set ''0123456789''"
proof (induction n rule: decimal.induct)
  case (1 n)
  have "\<forall>i \<in> set [0..<10]. char_of (48 + i :: nat) \<in> set ''0123456789''"
    by code_simp
  then have "char_of (48 + n mod 10) \<in> set ''0123456789''"
    by (rule bspec) simp
  with 1 show ?case
    by (subst decimal.simps) (simp split: if_split)
qed

text \<open>A port that is printed is read back.\<close>

lemma u16_from_decimal: "u16_from_str (decimal (unat port)) = Some port"
proof -
  obtain c cs where cs: "decimal (unat port) = c # cs" "c \<noteq> CHR ''+''"
    using decimal_digits [of "unat port"] decimal_not_Nil [of "unat port"] by (cases "decimal (unat port)") auto
  moreover have "read_digits 0 (decimal (unat port)) = Some (unat port)"
    using unat_less_pow [of port] by (intro read_digits_decimal) simp
  ultimately show ?thesis
    by (simp add: u16_from_str_def)
qed

lemma decimal_inj: "decimal n = decimal m \<Longrightarrow> n = m"
proof (induction n arbitrary: m rule: decimal.induct)
  case (1 n)
  have parts: "decimal k = (if k < 10 then [] else decimal (k div 10)) @ [char_of (48 + k mod 10)]" for k
    by (subst decimal.simps) simp
  from 1(2) have eq: "(if n < 10 then [] else decimal (n div 10)) = (if m < 10 then [] else decimal (m div 10))"
    "char_of (48 + n mod 10) = (char_of (48 + m mod 10) :: char)"
    by (simp_all only: parts [of n] parts [of m] append1_eq_conv)
  have last: "n mod 10 = m mod 10"
    using arg_cong [OF eq(2), of "of_char :: char \<Rightarrow> nat"] digit_char [of "n mod 10"] digit_char [of "m mod 10"]
    by simp
  show ?case
  proof (cases "n < 10")
    case True
    with eq(1) have "m < 10"
      using decimal_not_Nil [of "m div 10"] by (auto split: if_splits)
    with True last show ?thesis by simp
  next
    case False
    with eq(1) have "\<not> m < 10" "decimal (n div 10) = decimal (m div 10)"
      using decimal_not_Nil [of "n div 10"] by (auto split: if_splits)
    with 1(1) False have "n div 10 = m div 10"
      by blast
    with last show ?thesis
      by (metis div_mult_mod_eq)
  qed
qed

section \<open>Files\<close>

text \<open>Distinct files of a folder: a file written holds what was written, the others what they held.\<close>

definition separate_files :: "('n, 'f) host_ops \<Rightarrow> string set \<Rightarrow> bool" where
  "separate_files H names \<longleftrightarrow> (\<forall>p \<in> names. \<forall>s n n'. write_file H p s n = (Some (), n') \<longrightarrow>
     file_contents H p n' = Some s \<and>
     (\<forall>q \<in> names. q \<noteq> p \<longrightarrow> file_contents H q n' = file_contents H q n))"

text \<open>What the TOML crate prints it reads back.\<close>

definition toml_roundtrip :: "('n, 'f) host_ops \<Rightarrow> bool" where
  "toml_roundtrip H \<longleftrightarrow> (\<forall>config s. toml_to_string H config = Some s \<longrightarrow> toml_from_str H s = Some config)"

lemma config_file_name_inj: "config_file_name folder i = config_file_name folder j \<Longrightarrow> i = j"
  by (simp add: config_file_name_def decimal_inj)

lemma write_configs_Ok:
  assumes "separate_files H (range (config_file_name folder))"
    and "write_configs H folder k configs w = (Ok out, w')" "distinct (List.map fst configs)"
  shows "(\<forall>(i, c) \<in> set configs. \<exists>s. toml_to_string H c = Some s \<and>
      file_contents H (config_file_name folder i) (world_node w') = Some s) \<and>
    (\<forall>j. j \<notin> fst ` set configs \<longrightarrow>
      file_contents H (config_file_name folder j) (world_node w') =
      file_contents H (config_file_name folder j) (world_node w))"
  using assms(2,3)
proof (induction configs arbitrary: w out)
  case (Cons ic configs)
  obtain i c where ic: "ic = (i, c)"
    by fastforce
  let ?name = "config_file_name folder"
  from Cons.prems(1) obtain s w1 out' where s: "toml_to_string H c = Some s"
    and written: "write_file H (?name i) s (world_node w) = (Some (), world_node w1)"
    and rest: "write_configs H folder k configs w1 = (Ok out', w')"
    by (auto simp: ic ask_eq_Ok Let_def dest!: request_eq_Ok)
  have kept: "file_contents H (?name i) (world_node w1) = Some s"
    "\<And>j. j \<noteq> i \<Longrightarrow> file_contents H (?name j) (world_node w1) = file_contents H (?name j) (world_node w)"
    using assms(1) written config_file_name_inj [of folder] unfolding separate_files_def by blast+
  have i: "i \<notin> fst ` set configs"
    using Cons.prems(2) by (simp add: ic)
  note IH = Cons.IH [OF rest]
  show ?case
    using IH Cons.prems(2) s kept i by (auto simp: ic)
qed simp

lemma draw_secret_keys_length: "draw_secret_keys H n w = (Ok keys, w') \<Longrightarrow> length keys = n"
  by (induction n arbitrary: w keys) (auto simp: ask_eq_Ok)

lemma generated_config_fields [simp]:
  "cfg_port (generated_config template ports keys pks i) = ports ! i"
  "cfg_secret_key (generated_config template ports keys pks i) = keys ! i"
  "cfg_verifiers_public_keys (generated_config template ports keys pks i) = pks"
  "cfg_network (generated_config template ports keys pks i) = cfg_network template"
  "cfg_operators_xonly_pks (generated_config template ports keys pks i) = cfg_operators_xonly_pks template"
  "cfg_host (generated_config template ports keys pks i) = cfg_host template"
  by (simp_all add: generated_config_def Let_def)

lemma written_config_read:
  assumes "separate_files H (range (config_file_name folder))"
    and "write_configs H folder n (List.map (\<lambda>i. (i, config i)) [0..<n]) w = (Ok out, w')"
    and "toml_roundtrip H" "i < n" "world_node w0 = world_node w'"
  shows "fst (try_parse_file H (config_file_name folder i) w0) = Ok (config i)"
proof -
  have "(i, config i) \<in> set (List.map (\<lambda>i. (i, config i)) [0..<n])"
    using assms(4) by simp
  moreover have "distinct (List.map fst (List.map (\<lambda>i. (i, config i)) [0..<n]))"
    by (simp add: comp_def)
  ultimately obtain s where "toml_to_string H (config i) = Some s"
      "file_contents H (config_file_name folder i) (world_node w') = Some s"
    using write_configs_Ok [OF assms(1,2)] by blast
  with assms(3,5) show ?thesis
    by (simp add: toml_roundtrip_def try_parse_file_eq try_parse_from_def)
qed

lemma generated_config_verifier:
  assumes "i < length ports" "length keys = length ports" "world_faults w0 = []"
    and "pks = List.map (\<lambda>sk. keypair_public_key L (keypair_from_secret_key L sk)) keys"
  shows "fst (verifier_new L (generated_config template ports keys pks i) w0) =
    attempt (from_musig2_pks L pks None False) (\<lambda>pk.
      Ok \<lparr>verifier_signer = actor_new L (keys ! i) (cfg_network template),
        verifier_config = generated_config template ports keys pks i, verifier_nofn_xonly_pk = pk,
        verifier_operator_xonly_pks = cfg_operators_xonly_pks template\<rparr>)"
proof -
  have "keypair_public_key L (keypair_from_secret_key L (keys ! i)) \<in> set pks"
    using assms(1,2,4) by simp
  then show ?thesis
    using assms(3) query_no_fault [of w0 "\<lambda>d. (Inr (), d)" "()"]
    by (cases "from_musig2_pks L pks None False")
      (simp_all add: verifier_new_def Let_def database_new_def ask_def)
qed

lemma generated_config_eq:
  assumes "i < length ports"
  shows "generated_config template ports keys pks i = template
    \<lparr>cfg_secret_key := keys ! i, cfg_verifiers_public_keys := pks, cfg_num_verifiers := length ports,
      cfg_port := ports ! i, cfg_verifier_endpoints :=
        if Suc i = length ports then Some (List.map (http_url (cfg_host template)) (butlast ports))
        else cfg_verifier_endpoints template\<rparr>"
  using assms by (auto simp: generated_config_def Let_def butlast_conv_take)

section \<open>Properties\<close>

text \<open>
  C39. When the generator ends, its folder holds a configuration for every port of its list, in order:
  the one read from the template file, but for the port, the number of verifiers, the secret key, one
  of those drawn for the ports, and the public keys of all of them; and the last one's endpoints are
  those of the others. Each is read back as it is, and a verifier starts with each of them exactly
  when these public keys can be aggregated, with that aggregated key, its own secret key and the
  operators of the template. So the last one starts an operator only if the template already lists
  its fresh key.
\<close>

theorem generated_configs_start:
  fixes H :: "('n, 'f) host_ops" and w :: "('d, 'n) world"
  assumes "config_generator_main H L cli w = (Ok output, w')"
    and "separate_files H (range (config_file_name (gen_folder cli)))"
    and "toml_roundtrip H"
  shows "\<exists>ports keys w2 template public_keys configs.
    List.map (\<lambda>s. u16_from_str (trim s)) (split_at_char CHR '','' (gen_ports cli)) = List.map Some ports \<and>
    draw_secret_keys H (length ports) w = (Ok keys, w2) \<and> length keys = length ports \<and>
    fst (try_parse_file H (gen_config_file cli) w2) = Ok template \<and>
    public_keys = List.map (\<lambda>sk. keypair_public_key L (keypair_from_secret_key L sk)) keys \<and>
    configs = List.map (\<lambda>i. template
      \<lparr>cfg_secret_key := keys ! i, cfg_verifiers_public_keys := public_keys, cfg_num_verifiers := length ports,
        cfg_port := ports ! i, cfg_verifier_endpoints :=
          if Suc i = length ports then Some (List.map (http_url (cfg_host template)) (butlast ports))
          else cfg_verifier_endpoints template\<rparr>) [0..<length ports] \<and>
    (\<forall>i < length configs.
      (\<forall>w0 :: ('d, 'n) world. world_node w0 = world_node w' \<longrightarrow>
        fst (try_parse_file H (config_file_name (gen_folder cli) i) w0) = Ok (configs ! i)) \<and>
      (\<forall>w0 :: (database, 'n) world. world_faults w0 = [] \<longrightarrow> fst (verifier_new L (configs ! i) w0) =
        attempt (from_musig2_pks L public_keys None False) (\<lambda>pk.
        Ok \<lparr>verifier_signer = actor_new L (keys ! i) (cfg_network template),
          verifier_config = configs ! i, verifier_nofn_xonly_pk = pk,
          verifier_operator_xonly_pks = cfg_operators_xonly_pks template\<rparr>)))"
proof -
  obtain ports keys w2 template w3 out where
    ports: "attempt_map (\<lambda>s. unwrap (u16_from_str (trim s))) (split_at_char CHR '','' (gen_ports cli)) = Ok ports"
    and keys: "draw_secret_keys H (length ports) w = (Ok keys, w2)"
    and template: "try_parse_file H (gen_config_file cli) w2 = (Ok template, w3)"
    and written: "write_configs H (gen_folder cli) (length ports) (List.map (\<lambda>i. (i, generated_config template ports keys
      (List.map (\<lambda>sk. keypair_public_key L (keypair_from_secret_key L sk)) keys) i)) [0..<length ports]) w3 = (Ok out, w')"
    using assms(1) by (simp add: config_generator_main_def ask_eq_Ok Let_def) blast
  let ?pks = "List.map (\<lambda>sk. keypair_public_key L (keypair_from_secret_key L sk)) keys"
  let ?config = "generated_config template ports keys ?pks"
  define configs where "configs = List.map (\<lambda>i. template
      \<lparr>cfg_secret_key := keys ! i, cfg_verifiers_public_keys := ?pks, cfg_num_verifiers := length ports,
        cfg_port := ports ! i, cfg_verifier_endpoints :=
          if Suc i = length ports then Some (List.map (http_url (cfg_host template)) (butlast ports))
          else cfg_verifier_endpoints template\<rparr>) [0..<length ports]"
  then have len: "length configs = length ports"
    by simp
  have nth: "configs ! i = ?config i" if "i < length ports" for i
    unfolding generated_config_eq [OF that] configs_def using that by (simp only: nth_map length_upt nth_upt) simp
  have list: "List.map (\<lambda>s. u16_from_str (trim s)) (split_at_char CHR '','' (gen_ports cli)) = List.map Some ports"
    using attempt_map_length [OF ports] attempt_map_nth [OF ports] by (auto intro: nth_equalityI)
  have read: "fst (try_parse_file H (config_file_name (gen_folder cli) i) w0) = Ok (configs ! i)"
    if "i < length configs" "world_node w0 = world_node w'" for i and w0 :: "('d, 'n) world"
    using that unfolding len nth [OF that(1) [unfolded len]]
    by (intro written_config_read [OF assms(2) written assms(3)])
  have start: "fst (verifier_new L (configs ! i) w0) = attempt (from_musig2_pks L ?pks None False) (\<lambda>pk.
        Ok \<lparr>verifier_signer = actor_new L (keys ! i) (cfg_network template),
          verifier_config = configs ! i, verifier_nofn_xonly_pk = pk,
          verifier_operator_xonly_pks = cfg_operators_xonly_pks template\<rparr>)"
    if "i < length configs" "world_faults w0 = []" for i and w0 :: "(database, 'n) world"
    using that unfolding len nth [OF that(1) [unfolded len]]
    by (intro generated_config_verifier [OF _ draw_secret_keys_length [OF keys] _ refl])
  have "fst (try_parse_file H (gen_config_file cli) w2) = Ok template"
    by (simp add: template)
  with list keys draw_secret_keys_length [OF keys] configs_def read start show ?thesis
    by (intro exI [of _ ports] exI [of _ keys] exI [of _ w2] exI [of _ template] exI [of _ ?pks]
        exI [of _ configs] conjI allI impI) (assumption | rule refl | blast)+
qed

text \<open>Two configurations, on a host that is a map of files and a counter for keys.\<close>

definition example_ports :: "u16 list" where
  "example_ports = [17001, 17002]"

definition example_keys :: "secret_key list" where
  "example_keys = [replicate 32 (word_of_nat 0), replicate 32 (word_of_nat (Suc 0))]"

definition example_generated :: "nat \<Rightarrow> bridge_config" where
  "example_generated = generated_config (example_config []) example_ports example_keys
     (List.map (\<lambda>sk. keypair_public_key example_lib (keypair_from_secret_key example_lib sk)) example_keys)"

definition example_files :: "(string \<times> bridge_config) list" where
  "example_files = [(''t'', example_config []), (''0'', example_generated 0), (''1'', example_generated 1)]"

definition files_host :: "((string \<rightharpoonup> string) \<times> nat, string) host_ops" where
  "files_host = \<lparr>clap_args = (\<lambda>args. None),
     open_file = (\<lambda>path n. (if fst n path = None then None else Some path, n)),
     read_to_string = (\<lambda>path n. (fst n path, n)),
     write_file = (\<lambda>path contents n. (Some (), (fst n)(path \<mapsto> contents), snd n)),
     env_var = (\<lambda>name n. (None, n)), try_init = (\<lambda>level json n. (None, n)),
     toml_from_str = map_of example_files,
     toml_to_string = (\<lambda>config. map_option fst (List.find (\<lambda>(s, c). c = config) example_files)),
     new_secret_key = (\<lambda>n. (replicate 32 (word_of_nat (snd n)), fst n, Suc (snd n))), thread_name = None,
     cargo_manifest_dir = []\<rparr>"

definition example_generator :: generator_args where
  "example_generator = \<lparr>gen_config_file = ''t.toml'', gen_ports = ''17001, 17002'', gen_folder = ''out''\<rparr>"

definition files_world :: "(unit, (string \<rightharpoonup> string) \<times> nat) world" where
  "files_world = \<lparr>world_db = (), world_faults = [], world_node = ([''t.toml'' \<mapsto> ''t''], 0)\<rparr>"

lemma example_files_distinct: "distinct (List.map fst example_files)"
  by (simp add: example_files_def)

lemma files_host_separate: "separate_files files_host names"
  by (auto simp: separate_files_def file_contents_def files_host_def)

lemma files_host_toml: "toml_roundtrip files_host"
  using map_of_eq_Some_iff [OF example_files_distinct]
  by (auto simp: toml_roundtrip_def files_host_def find_Some_iff) (metis nth_mem)

lemma files_host_prints: "config \<in> snd ` set example_files \<Longrightarrow> \<exists>s. toml_to_string files_host config = Some s"
  by (cases "List.find (\<lambda>(s, c). c = config) example_files") (auto simp: files_host_def find_None_iff)

lemma files_host_writes:
  "snd ` set configs \<subseteq> snd ` set example_files \<Longrightarrow> \<exists>out w'. write_configs files_host folder k configs w = (Ok out, w')"
proof (induction configs arbitrary: w)
  case (Cons ic configs)
  obtain i c s where ic: "ic = (i, c)" and s: "toml_to_string files_host c = Some s"
    using files_host_prints [of "snd ic"] Cons.prems by (cases ic) auto
  obtain w1 where "unwrapped (request (write_file files_host (config_file_name folder i) s) ConfigError) w = (Ok (), w1)"
    by (simp add: request_def ask_def call_def files_host_def)
  moreover obtain out w' where "write_configs files_host folder k configs w1 = (Ok out, w')"
    using Cons.IH [of w1] Cons.prems by auto
  ultimately show ?case
    using s by (auto simp: ic ask_eq_Ok Let_def)
qed simp

lemma example_ports_read:
  "split_at_char CHR '','' ''17001, 17002'' = [''17001'', '' 17002'']"
  "u16_from_str (trim ''17001'') = Some 17001" "u16_from_str (trim '' 17002'') = Some 17002"
  by (simp_all add: trim_def is_whitespace_def u16_from_str_def)

lemma example_keys_drawn: "draw_secret_keys files_host (length example_ports) files_world =
    (Ok example_keys, files_world\<lparr>world_node := ([''t.toml'' \<mapsto> ''t''], 2)\<rparr>)"
  by (simp add: example_ports_def example_keys_def ask_def call_def files_host_def files_world_def lift_def numeral_2_eq_2
      del: replicate.simps of_nat_Suc)

lemma example_generator_runs:
  "\<exists>out w'. config_generator_main files_host example_lib example_generator files_world = (Ok out, w')"
proof -
  have ports: "attempt_map (\<lambda>s. unwrap (u16_from_str (trim s))) (split_at_char CHR '','' ''17001, 17002'') =
      Ok example_ports"
    by (simp add: example_ports_read example_ports_def)
  let ?w1 = "files_world\<lparr>world_node := ([''t.toml'' \<mapsto> ''t''], 2)\<rparr>"
  note example_keys_drawn
  moreover have "try_parse_file files_host ''t.toml'' ?w1 = (Ok (example_config []), ?w1)"
    by (simp add: try_parse_file_def request_def ask_def call_def try_parse_from_def files_host_def
        example_files_def lift_def)
  moreover have "\<exists>out w'. write_configs files_host ''out'' (length example_ports)
      (List.map (\<lambda>i. (i, example_generated i)) [0..<length example_ports]) ?w1 = (Ok out, w')"
    by (rule files_host_writes) (auto simp: example_files_def example_ports_def upt_rec)
  ultimately show ?thesis
    using ports
    by (auto simp: config_generator_main_def example_generator_def ask_eq_Ok Let_def example_generated_def)
qed

theorem generated_configs_start_witness:
  "\<exists>configs w'. snd (config_generator_main files_host example_lib example_generator files_world) = w' \<and>
    List.map cfg_port configs = [17001, 17002] \<and> List.map cfg_secret_key configs = example_keys \<and>
    (\<forall>i < 2. fst (try_parse_file files_host (config_file_name ''out'' i) w') = Ok (configs ! i))"
proof -
  obtain out w' where run: "config_generator_main files_host example_lib example_generator files_world = (Ok out, w')"
    using example_generator_runs by blast
  from generated_configs_start [OF run files_host_separate files_host_toml] show ?thesis
  proof (elim exE conjE)
    fix ports keys w2 public_keys and configs :: "bridge_config list" and template :: bridge_config
    assume ports: "List.map (\<lambda>s. u16_from_str (trim s)) (split_at_char CHR '','' (gen_ports example_generator)) = List.map Some ports"
      and keys: "draw_secret_keys files_host (length ports) files_world = (Ok keys, w2)"
      and configs: "configs = List.map (\<lambda>i. template
        \<lparr>cfg_secret_key := keys ! i, cfg_verifiers_public_keys := public_keys, cfg_num_verifiers := length ports,
          cfg_port := ports ! i, cfg_verifier_endpoints :=
            if Suc i = length ports then Some (List.map (http_url (cfg_host template)) (butlast ports))
            else cfg_verifier_endpoints template\<rparr>) [0..<length ports]"
      and starts: "\<forall>i < length configs.
        (\<forall>w0 :: (unit, (string \<rightharpoonup> string) \<times> nat) world. world_node w0 = world_node w' \<longrightarrow>
          fst (try_parse_file files_host (config_file_name (gen_folder example_generator) i) w0) = Ok (configs ! i)) \<and>
        (\<forall>w0 :: (database, (string \<rightharpoonup> string) \<times> nat) world. world_faults w0 = [] \<longrightarrow>
          fst (verifier_new example_lib (configs ! i) w0) =
          attempt (from_musig2_pks example_lib public_keys None False) (\<lambda>pk.
          Ok \<lparr>verifier_signer = actor_new example_lib (keys ! i) (cfg_network template),
            verifier_config = configs ! i, verifier_nofn_xonly_pk = pk,
            verifier_operator_xonly_pks = cfg_operators_xonly_pks template\<rparr>))"
    have p: "ports = example_ports"
      using ports by (auto simp: example_ports_read example_generator_def example_ports_def)
    with keys example_keys_drawn have k: "keys = example_keys"
      by simp
    have "List.map cfg_port configs = [17001, 17002]" "List.map cfg_secret_key configs = example_keys"
      "length configs = 2"
      by (simp_all add: configs p k example_ports_def example_keys_def upt_rec)
    moreover have "fst (try_parse_file files_host (config_file_name ''out'' i) w') = Ok (configs ! i)" if "i < 2" for i
      using starts that calculation(3) by (simp add: example_generator_def)
    ultimately show ?thesis
      using run by (intro exI [of _ configs] exI [of _ w']) simp
  qed
qed

end
