(* ===== verification/Test_Cluster.thy ===== *)
theory Test_Cluster
  imports Config_Generator
begin

text \<open>
  The test cluster: \<open>get_test_config\<close> of \<open>mock/common.rs\<close>, \<open>mock/database.rs\<close>,
  \<open>create_verifiers_and_operators\<close> of \<open>servers.rs\<close> and \<open>main\<close> of \<open>bin/all_servers.rs\<close>. Futures that are
  joined run one after the other here; the real Bitcoin client is used, not the mock, and the code is
  not compiled for unit tests.
\<close>

section \<open>Loops\<close>

fun ask_map :: "('a \<Rightarrow> ('w, 'b) action) \<Rightarrow> 'a list \<Rightarrow> ('w, 'b list) action" where
  "ask_map f [] = return []"
| "ask_map f (x # xs) = ask (f x) (\<lambda>y. ask (ask_map f xs) (\<lambda>ys. return (y # ys)))"

text \<open>A property of the world that a loop keeps, and what each step has established.\<close>

lemma ask_map_Ok:
  assumes "ask_map f xs w = (Ok ys, w')"
    and "\<And>i x y w w'. i < length xs \<Longrightarrow> x = xs ! i \<Longrightarrow> f x w = (Ok y, w') \<Longrightarrow> I i w \<Longrightarrow> I (Suc i) w' \<and> Q i y"
    and "I 0 w"
  shows "length ys = length xs \<and> I (length xs) w' \<and> (\<forall>i < length xs. Q i (ys ! i))"
  using assms
proof (induction xs arbitrary: I Q ys w)
  case (Cons x xs)
  from Cons.prems(1) obtain y w1 ys' where 1: "f x w = (Ok y, w1)" "ask_map f xs w1 = (Ok ys', w')" "ys = y # ys'"
    by (auto simp: ask_eq_Ok)
  have first: "I (Suc 0) w1 \<and> Q 0 y"
    using Cons.prems(2) [of 0 x w y w1] Cons.prems(3) 1(1) by simp
  have "length ys' = length xs \<and> I (Suc (length xs)) w' \<and> (\<forall>i < length xs. Q (Suc i) (ys' ! i))"
  proof (rule Cons.IH [where I = "\<lambda>i. I (Suc i)" and Q = "\<lambda>i. Q (Suc i)", OF 1(2)])
    show "I (Suc (Suc i)) v' \<and> Q (Suc i) b"
      if "i < length xs" "a = xs ! i" "f a v = (Ok b, v')" "I (Suc i) v" for i a b v v'
      using Cons.prems(2) [of "Suc i" a v b v'] that by simp
  qed (use first in simp)
  with first 1(3) show ?case
    by (auto simp: less_Suc_eq_0_disj)
qed simp

section \<open>Test configurations\<close>

definition get_test_config :: "('n, 'f) host_ops \<Rightarrow> string \<Rightarrow> (('d, 'n) world, bridge_config) action" where
  "get_test_config H configuration_file =
    ask (call (env_var H ''TEST_CONFIG'')) (\<lambda>config_file_path.
    ask (case config_file_path of
        Some path \<Rightarrow> ask (try_parse_file H path) (\<lambda>c. return (Some c))
      | None \<Rightarrow> return None) (\<lambda>env_config.
    ask (try_parse_file H (cargo_manifest_dir H @ ''/tests/data/'' @ configuration_file)) (\<lambda>config.
    return (case env_config of
        Some env_config \<Rightarrow> config\<lparr>cfg_db_host := cfg_db_host env_config, cfg_db_port := cfg_db_port env_config,
          cfg_db_user := cfg_db_user env_config, cfg_db_password := cfg_db_password env_config,
          cfg_db_name := cfg_db_name env_config\<rparr>
      | None \<Rightarrow> config))))"

definition create_test_config ::
  "('n, 'f) host_ops \<Rightarrow> postgres \<Rightarrow> string \<Rightarrow> string \<Rightarrow> ('n, bridge_config) admin" where
  "create_test_config H P db_name config_file =
    ask (unwrapped (initialize_logger H 5)) (\<lambda>_.
    ask (unwrapped (get_test_config H config_file)) (\<lambda>config.
    let config = config\<lparr>cfg_db_name := db_name\<rparr> in
    ask (unwrapped (initialize_database P config)) (\<lambda>_.
    return config)))"

definition test_db_name :: "string \<Rightarrow> string option \<Rightarrow> string" where
  "test_db_name name suffix =
    last (split_at_char CHR '':'' name) @ (case suffix of Some suffix \<Rightarrow> suffix | None \<Rightarrow> [])"

definition create_test_config_with_thread_name ::
  "('n, 'f) host_ops \<Rightarrow> postgres \<Rightarrow> string \<Rightarrow> string option \<Rightarrow> ('n, bridge_config) admin" where
  "create_test_config_with_thread_name H P config_file suffix =
    ask (lift (unwrap (thread_name H))) (\<lambda>name.
    create_test_config H P (test_db_name name suffix) config_file)"

section \<open>The cluster\<close>

definition is_test_env :: "('n, 'f) host_ops \<Rightarrow> bool" where
  "is_test_env H \<longleftrightarrow> (case thread_name H of Some name \<Rightarrow> name | None \<Rightarrow> []) \<noteq> ''main''"

definition test_port :: "('n, 'f) host_ops \<Rightarrow> u16 \<Rightarrow> u16" where
  "test_port H port = (if is_test_env H then 0 else port)"

definition create_verifier ::
  "('n, 'f) host_ops \<Rightarrow> ('n, 'l) server_lib \<Rightarrow> postgres \<Rightarrow> 'x lib_scheme \<Rightarrow> string \<Rightarrow> u16 \<Rightarrow> nat \<times> secret_key \<Rightarrow>
   ('n, (verifier \<times> string \<times> u16) \<times> bridge_config) admin" where
  "create_verifier H S P L config_name start_port = (\<lambda>(i, sk).
    let port = start_port + word_of_nat i in
    ask (create_test_config_with_thread_name H P config_name (Some (decimal i))) (\<lambda>config_with_new_db.
    let config = config_with_new_db\<lparr>cfg_secret_key := sk, cfg_port := test_port H port\<rparr> in
    ask (on_database (cfg_db_name config) (create_verifier_server S L config)) (\<lambda>verifier.
    return (verifier, config_with_new_db))))"

definition create_operator ::
  "('n, 'f) host_ops \<Rightarrow> ('n, 'l) server_lib \<Rightarrow> 'x lib_scheme \<Rightarrow> 'n node_ops \<Rightarrow> u16 \<Rightarrow> nat \<Rightarrow>
   nat \<times> secret_key \<times> bridge_config \<Rightarrow> ('n, operator \<times> string \<times> u16) admin" where
  "create_operator H S L N start_port num_verifiers = (\<lambda>(i, sk, verifier_config).
    let port = start_port + word_of_nat i + word_of_nat num_verifiers;
        config = verifier_config\<lparr>cfg_secret_key := sk, cfg_port := test_port H port\<rparr> in
    on_database (cfg_db_name config) (create_operator_server S L N config))"

definition create_verifiers_and_operators ::
  "('n, 'f) host_ops \<Rightarrow> ('n, 'l) server_lib \<Rightarrow> postgres \<Rightarrow> 'x lib_scheme \<Rightarrow> 'n node_ops \<Rightarrow> string \<Rightarrow>
   ('n, (verifier \<times> string \<times> u16) list \<times> (operator \<times> string \<times> u16) list \<times> (aggregator \<times> string \<times> u16)) admin" where
  "create_verifiers_and_operators H S P L N config_name =
    ask (create_test_config_with_thread_name H P config_name None) (\<lambda>config.
    let start_port = cfg_port config in
    ask (extended_rpc_new S (cfg_bitcoin_rpc_url config) (cfg_bitcoin_rpc_user config)
      (cfg_bitcoin_rpc_password config)) (\<lambda>rpc.
    ask (lift (unwrap (cfg_all_verifiers_secret_keys config))) (\<lambda>all_verifiers_secret_keys.
    ask (ask_map (\<lambda>_. extended_rpc_clone S rpc) all_verifiers_secret_keys) (\<lambda>_.
    ask (unwrapped (ask_map (create_verifier H S P L config_name start_port)
      (List.enumerate 0 all_verifiers_secret_keys))) (\<lambda>verifier_results.
    let verifier_endpoints = List.map fst verifier_results;
        verifier_configs = List.map snd verifier_results in
    ask (lift (unwrap (cfg_all_operators_secret_keys config))) (\<lambda>all_operators_secret_keys.
    ask (ask_map (\<lambda>(i, sk).
      ask (extended_rpc_clone S rpc) (\<lambda>_.
      ask (lift (item_at verifier_configs i)) (\<lambda>verifier_config.
      return (i, sk, verifier_config)))) (List.enumerate 0 all_operators_secret_keys)) (\<lambda>operator_futures.
    ask (unwrapped (ask_map (create_operator H S L N start_port (length all_verifiers_secret_keys))
      operator_futures)) (\<lambda>operator_endpoints.
    ask (create_test_config_with_thread_name H P config_name None) (\<lambda>config.
    let port = start_port + word_of_nat (length all_verifiers_secret_keys) +
          word_of_nat (length all_operators_secret_keys);
        config = config\<lparr>cfg_port := test_port H port\<rparr> in
    ask (unwrapped (on_database (cfg_db_name config) (create_aggregator_server S L config))) (\<lambda>aggregator.
    return (verifier_endpoints, operator_endpoints, aggregator)))))))))))"

text \<open>
  \<open>main\<close> of \<open>bin/all_servers.rs\<close>: the lines it prints; then it waits for the servers to stop. \<open>None\<close> is
  \<open>exit(1)\<close>.
\<close>

definition all_servers_main ::
  "('n, 'f) host_ops \<Rightarrow> ('n, 'l) server_lib \<Rightarrow> postgres \<Rightarrow> 'x lib_scheme \<Rightarrow> 'n node_ops \<Rightarrow> string list \<Rightarrow>
   ('n, string list option) admin" where
  "all_servers_main H S P L N env_args =
    unless_exit (get_configuration_for_binaries H env_args) (\<lambda>(config, _).
    ask (create_verifiers_and_operators H S P L N ''test_config.toml'') (\<lambda>(verifier_clients, operator_clients, aggregator).
    let url = (\<lambda>addr :: string \<times> u16. http_url ''127.0.0.1'' (snd addr)) in
    ask (lift (from_musig2_pks L (cfg_verifiers_public_keys config) None False)) (\<lambda>xonly.
    return (Some
      [''OPERATOR_URLS='' @ join_with '','' (List.map (url \<circ> snd) operator_clients),
       ''VERIFIER_URLS='' @ join_with '','' (List.map (url \<circ> snd) verifier_clients),
       ''AGGREGATOR_URL='' @ url (snd aggregator),
       ''VERIFIER_PKS='' @ hex_encode L xonly]))))"

section \<open>What the cluster consists of\<close>

text \<open>The databases of a cluster: the one of the thread, and one for each verifier.\<close>

definition main_db :: "string \<Rightarrow> string" where
  "main_db name = test_db_name name None"

definition verifier_db :: "string \<Rightarrow> nat \<Rightarrow> string" where
  "verifier_db name i = test_db_name name (Some (decimal i))"

lemma test_dbs_distinct:
  "verifier_db name i = verifier_db name j \<longleftrightarrow> i = j" "verifier_db name i \<noteq> main_db name"
  "main_db name \<noteq> verifier_db name i"
  using decimal_inj by (auto simp: verifier_db_def main_db_def test_db_name_def decimal_not_Nil)

text \<open>The server reads each of these names as it is written.\<close>

definition plain_test_dbs :: "postgres \<Rightarrow> string \<Rightarrow> bool" where
  "plain_test_dbs P name \<longleftrightarrow>
    (\<forall>config. cfg_db_name config \<in> insert (main_db name) (range (verifier_db name)) \<longrightarrow> plain_name P config)"

lemma create_test_config_Ok:
  assumes "create_test_config_with_thread_name H P config_file suffix w = (Ok config, w')"
    and "thread_name H = Some name"
    and "\<And>config. cfg_db_name config = test_db_name name suffix \<Longrightarrow> plain_name P config"
  shows "cfg_db_name config = test_db_name name suffix \<and>
    world_db w' = (world_db w)(test_db_name name suffix \<mapsto> Some empty_database)"
proof -
  let ?name = "test_db_name name suffix"
  from assms(1,2) obtain u w1 c w2 u' where log: "initialize_logger H 5 w = (Ok u, w1)"
    and conf: "get_test_config H config_file w1 = (Ok c, w2)"
    and db: "initialize_database P (c\<lparr>cfg_db_name := ?name\<rparr>) w2 = (Ok u', w')"
    and config: "config = c\<lparr>cfg_db_name := ?name\<rparr>"
    by (auto simp: create_test_config_with_thread_name_def create_test_config_def ask_eq_Ok Let_def)
  have logger: "moves (=) (initialize_logger H 5)"
    unfolding initialize_logger_def by (intro same_db.moves_intros)
  have test: "moves (=) (get_test_config H config_file)"
    unfolding get_test_config_def try_parse_file_def by (intro same_db.moves_intros)
  have "world_db w2 = world_db w"
    using same_db.moves_ok [OF logger log] same_db.moves_ok [OF test conf] by simp
  with initialize_database_Ok [OF db assms(3)] config show ?thesis
    by simp
qed

text \<open>The state of the first \<open>n\<close> databases: only the funding output of an operator was written.\<close>

definition test_dbs_ready :: "string \<Rightarrow> nat \<Rightarrow> cluster \<Rightarrow> bool" where
  "test_dbs_ready name n c \<longleftrightarrow>
    (\<forall>i < n. \<exists>d. c (verifier_db name i) = Some (Some d) \<and> only_funding empty_database d)"

lemma test_dbs_ready_kept:
  "test_dbs_ready name n c \<Longrightarrow> test_dbs_ready name n (c(main_db name := x))"
  by (simp add: test_dbs_ready_def test_dbs_distinct)

lemma create_verifier_Ok:
  assumes "create_verifier H S P L config_name start_port (i, sk) w = (Ok (v, config), w')"
    and "thread_name H = Some name" "plain_test_dbs P name" "test_dbs_ready name i (world_db w)"
  shows "test_dbs_ready name (Suc i) (world_db w') \<and> cfg_db_name config = verifier_db name i \<and>
    verifier_config (fst v) = config\<lparr>cfg_secret_key := sk, cfg_port := test_port H (start_port + word_of_nat i)\<rparr> \<and>
    listens S (verifier_config (fst v)) (snd v)"
proof -
  let ?config = "config\<lparr>cfg_secret_key := sk, cfg_port := test_port H (start_port + word_of_nat i)\<rparr>"
  from assms(1) obtain w1 where
    conf: "create_test_config_with_thread_name H P config_name (Some (decimal i)) w = (Ok config, w1)"
    and server: "on_database (cfg_db_name config) (create_verifier_server S L ?config) w1 = (Ok v, w')"
    by (auto simp: create_verifier_def Let_def ask_eq_Ok)
  have "plain_name P c" if "cfg_db_name c = test_db_name name (Some (decimal i))" for c
    using assms(3) that by (auto simp: plain_test_dbs_def verifier_db_def)
  with create_test_config_Ok [OF conf assms(2)]
  have c: "cfg_db_name config = verifier_db name i"
    "world_db w1 = (world_db w)(verifier_db name i \<mapsto> Some empty_database)"
    by (simp_all add: verifier_db_def)
  with on_database_move [OF create_servers_move(1) server] have "world_db w' = world_db w1"
    by auto
  moreover have "test_dbs_ready name (Suc i) (world_db w1)"
    using assms(4) by (auto simp: test_dbs_ready_def c(2) less_Suc_eq test_dbs_distinct funding_order.refl)
  moreover from server obtain v1 v2 where "create_verifier_server S L ?config v1 = (Ok v, v2)"
    by (rule on_database_Ok)
  then have "listens S ?config (snd v) \<and> verifier_config (fst v) = ?config"
    by (cases v) (simp add: create_servers_listen(1))
  ultimately show ?thesis
    using c(1) by simp
qed

lemma create_operator_Ok:
  assumes "create_operator H S L N start_port n (i, sk, config) w = (Ok v, w')"
    and "cfg_db_name config = verifier_db name i" "i < n" "test_dbs_ready name n (world_db w)"
  shows "test_dbs_ready name n (world_db w') \<and>
    operator_config (fst v) = config\<lparr>cfg_secret_key := sk,
      cfg_port := test_port H (start_port + word_of_nat i + word_of_nat n)\<rparr> \<and>
    listens S (operator_config (fst v)) (snd v)"
proof -
  let ?config = "config\<lparr>cfg_secret_key := sk, cfg_port := test_port H (start_port + word_of_nat i + word_of_nat n)\<rparr>"
  have server: "on_database (verifier_db name i) (create_operator_server S L N ?config) w = (Ok v, w')"
    using assms(1,2) by (simp add: create_operator_def Let_def)
  from assms(3,4) obtain d where d: "world_db w (verifier_db name i) = Some (Some d)" "only_funding empty_database d"
    by (auto simp: test_dbs_ready_def)
  with on_database_move [OF create_servers_move(2) server] obtain d' where
    "world_db w' = (world_db w)(verifier_db name i \<mapsto> Some d')" "only_funding d d'"
    by blast
  with d(2) assms(4) have "test_dbs_ready name n (world_db w')"
    using funding_order.trans by (auto simp: test_dbs_ready_def test_dbs_distinct)
  moreover from server obtain v1 v2 where "create_operator_server S L N ?config v1 = (Ok v, v2)"
    by (rule on_database_Ok)
  then have "listens S ?config (snd v) \<and> operator_config (fst v) = ?config"
    by (cases v) (simp add: create_servers_listen(2))
  ultimately show ?thesis
    by simp
qed

text \<open>What the loops over the keys make: a verifier with its configuration, then an operator.\<close>

definition verifier_made ::
  "('n, 'f) host_ops \<Rightarrow> ('n, 'l) server_lib \<Rightarrow> string \<Rightarrow> u16 \<Rightarrow> secret_key list \<Rightarrow> nat \<Rightarrow>
   (verifier \<times> string \<times> u16) \<times> bridge_config \<Rightarrow> bool" where
  "verifier_made H S name start_port keys i r \<longleftrightarrow> cfg_db_name (snd r) = verifier_db name i \<and>
    verifier_config (fst (fst r)) =
      snd r\<lparr>cfg_secret_key := keys ! i, cfg_port := test_port H (start_port + word_of_nat i)\<rparr> \<and>
    listens S (verifier_config (fst (fst r))) (snd (fst r))"

definition operator_made ::
  "('n, 'f) host_ops \<Rightarrow> ('n, 'l) server_lib \<Rightarrow> u16 \<Rightarrow> bridge_config \<Rightarrow> secret_key \<Rightarrow> operator \<times> string \<times> u16 \<Rightarrow> bool" where
  "operator_made H S port config key r \<longleftrightarrow>
    operator_config (fst r) = config\<lparr>cfg_secret_key := key, cfg_port := test_port H port\<rparr> \<and>
    listens S (operator_config (fst r)) (snd r)"

lemma create_verifiers_Ok:
  assumes "ask_map (create_verifier H S P L config_name start_port) (List.enumerate 0 keys) w = (Ok results, w')"
    and "thread_name H = Some name" "plain_test_dbs P name"
  shows "length results = length keys \<and> test_dbs_ready name (length keys) (world_db w') \<and>
    (\<forall>i < length keys. verifier_made H S name start_port keys i (results ! i))"
proof -
  let ?n = "length (List.enumerate 0 keys)"
  have "length results = ?n \<and> test_dbs_ready name ?n (world_db w') \<and>
      (\<forall>i < ?n. verifier_made H S name start_port keys i (results ! i))"
  proof (rule ask_map_Ok [OF assms(1), where I = "\<lambda>i v. test_dbs_ready name i (world_db v)"])
    fix i x r v v'
    assume i: "i < ?n" "x = List.enumerate 0 keys ! i" "test_dbs_ready name i (world_db v)"
      and "create_verifier H S P L config_name start_port x v = (Ok r, v')"
    then have "create_verifier H S P L config_name start_port (i, keys ! i) v = (Ok (fst r, snd r), v')"
      by (simp add: nth_enumerate_eq)
    from create_verifier_Ok [OF this assms(2,3) i(3)]
    show "test_dbs_ready name (Suc i) (world_db v') \<and> verifier_made H S name start_port keys i r"
      unfolding verifier_made_def by blast
  qed (simp add: test_dbs_ready_def)
  then show ?thesis
    unfolding length_enumerate .
qed

lemma operator_futures_Ok:
  fixes S :: "('n, 'l) server_lib" and w w' :: "('d, 'n) world"
  assumes "ask_map (\<lambda>(i, sk).
      ask (extended_rpc_clone S rpc) (\<lambda>_.
      ask (lift (item_at configs i)) (\<lambda>verifier_config.
      return (i, sk, verifier_config)))) (List.enumerate 0 keys) w = (Ok futures, w')"
  shows "length futures = length keys \<and> world_db w' = world_db w \<and>
    (\<forall>i < length keys. futures ! i = (i, keys ! i, configs ! i) \<and> i < length configs)"
proof -
  let ?n = "length (List.enumerate 0 keys)" and ?made = "\<lambda>i f. f = (i, keys ! i, configs ! i) \<and> i < length configs"
  have "length futures = ?n \<and> world_db w' = world_db w \<and> (\<forall>i < ?n. ?made i (futures ! i))"
  proof (rule ask_map_Ok [OF assms, where I = "\<lambda>_ v. world_db v = world_db w" and Q = ?made])
    fix i x f v'
    fix v :: "('d, 'n) world"
    assume i: "i < ?n" "x = List.enumerate 0 keys ! i"
      "world_db v = world_db w" and "(case x of (i, sk) \<Rightarrow> ask (extended_rpc_clone S rpc) (\<lambda>_.
        ask (lift (item_at configs i)) (\<lambda>verifier_config.
        return (i, sk, verifier_config)))) v = (Ok f, v')"
    then obtain rpc' where "extended_rpc_clone S rpc v = (Ok rpc', v')" "?made i f"
      by (auto simp: nth_enumerate_eq ask_eq_Ok)
    with i(3) show "world_db v' = world_db w \<and> ?made i f"
      using same_db.moves_ok [OF extended_rpc_move(2)] by metis
  qed simp
  then show ?thesis
    unfolding length_enumerate .
qed

lemma create_operators_Ok:
  assumes "ask_map (create_operator H S L N start_port n) futures w = (Ok operators, w')"
    and "\<forall>i < length futures. futures ! i = (i, keys ! i, configs ! i) \<and> i < n"
    and "\<And>i. i < n \<Longrightarrow> cfg_db_name (configs ! i) = verifier_db name i" "test_dbs_ready name n (world_db w)"
  shows "length operators = length futures \<and> test_dbs_ready name n (world_db w') \<and>
    (\<forall>i < length futures. operator_made H S (start_port + word_of_nat i + word_of_nat n) (configs ! i) (keys ! i) (operators ! i))"
proof (rule ask_map_Ok [OF assms(1), where I = "\<lambda>_ v. test_dbs_ready name n (world_db v)"])
  fix i x r v v'
  assume i: "i < length futures" "x = futures ! i" "test_dbs_ready name n (world_db v)"
    and "create_operator H S L N start_port n x v = (Ok r, v')"
  then have "create_operator H S L N start_port n (i, keys ! i, configs ! i) v = (Ok r, v')" "i < n"
    using assms(2) by simp_all
  from create_operator_Ok [OF this(1) assms(3) [OF this(2)] this(2) i(3)]
  show "test_dbs_ready name n (world_db v') \<and>
      operator_made H S (start_port + word_of_nat i + word_of_nat n) (configs ! i) (keys ! i) r"
    unfolding operator_made_def .
qed (rule assms(4))

lemma create_aggregator_Ok:
  assumes "create_test_config_with_thread_name H P config_name None w = (Ok config, w1)"
    and "on_database (cfg_db_name config) (create_aggregator_server S L (config\<lparr>cfg_port := port\<rparr>)) w1 = (Ok aggregator, w')"
    and "thread_name H = Some name" "plain_test_dbs P name" "test_dbs_ready name n (world_db w)"
  shows "test_dbs_ready name n (world_db w') \<and> cfg_db_name (aggregator_config (fst aggregator)) = main_db name \<and>
    cfg_port (aggregator_config (fst aggregator)) = port \<and> listens S (aggregator_config (fst aggregator)) (snd aggregator)"
proof -
  have "plain_name P c" if "cfg_db_name c = test_db_name name None" for c
    using assms(4) that by (auto simp: plain_test_dbs_def main_db_def)
  with create_test_config_Ok [OF assms(1,3)] have c: "cfg_db_name config = main_db name"
    "world_db w1 = (world_db w)(main_db name \<mapsto> Some empty_database)"
    by (simp_all add: main_db_def)
  with on_database_move [OF create_servers_move(3) assms(2)] have "world_db w' = world_db w1"
    by auto
  then have "test_dbs_ready name n (world_db w')"
    using assms(5) by (simp add: c(2) test_dbs_ready_kept)
  moreover from assms(2) obtain v1 v2 where
    "create_aggregator_server S L (config\<lparr>cfg_port := port\<rparr>) v1 = (Ok aggregator, v2)"
    by (rule on_database_Ok)
  then have "listens S (config\<lparr>cfg_port := port\<rparr>) (snd aggregator) \<and>
      aggregator_config (fst aggregator) = config\<lparr>cfg_port := port\<rparr>"
    by (cases aggregator) (simp add: create_servers_listen(3))
  ultimately show ?thesis
    using c(1) by simp
qed

section \<open>Properties\<close>

text \<open>
  C38. When the test cluster stands, each verifier has a database of its own that was made for it and
  holds nothing but perhaps a funding output, and the \<open>i\<close>-th operator runs on the configuration and
  the database of the \<open>i\<close>-th verifier, so there are at most as many operators as verifiers; every
  server listens, on consecutive ports unless the run is a test, which takes any free port.
\<close>

theorem test_cluster_shares_databases:
  assumes "create_verifiers_and_operators H S P L N config_name w = (Ok (verifiers, operators, aggregator), w')"
    and "thread_name H = Some name" "plain_test_dbs P name"
  shows "\<exists>start_port. let n = length verifiers; m = length operators in m \<le> n \<and>
    (\<forall>i < n. let v = verifiers ! i; config = verifier_config (fst v) in
      cfg_db_name config = verifier_db name i \<and> listens S config (snd v) \<and>
      cfg_port config = test_port H (start_port + word_of_nat i) \<and>
      (\<exists>d. world_db w' (verifier_db name i) = Some (Some d) \<and> only_funding empty_database d)) \<and>
    (\<forall>i < m. let v = operators ! i; config = operator_config (fst v) in
      (\<exists>key port. config = (verifier_config (fst (verifiers ! i)))\<lparr>cfg_secret_key := key, cfg_port := port\<rparr>) \<and>
      listens S config (snd v) \<and> cfg_port config = test_port H (start_port + word_of_nat (n + i))) \<and>
    (let config = aggregator_config (fst aggregator) in cfg_db_name config = main_db name \<and>
      listens S config (snd aggregator) \<and> cfg_port config = test_port H (start_port + word_of_nat (n + m)))"
proof -
  obtain config w1 rpc w2 keys w3 u results w4 operator_keys futures w5 w6 config2 w7 where
    "create_test_config_with_thread_name H P config_name None w = (Ok config, w1)"
    and "extended_rpc_new S (cfg_bitcoin_rpc_url config) (cfg_bitcoin_rpc_user config)
      (cfg_bitcoin_rpc_password config) w1 = (Ok rpc, w2)"
    and "ask_map (\<lambda>_. extended_rpc_clone S rpc) keys w2 = (Ok u, w3)"
    and results: "ask_map (create_verifier H S P L config_name (cfg_port config)) (List.enumerate 0 keys) w3 =
      (Ok results, w4)"
    and futures: "ask_map (\<lambda>(i, sk).
      ask (extended_rpc_clone S rpc) (\<lambda>_.
      ask (lift (item_at (List.map snd results) i)) (\<lambda>verifier_config.
      return (i, sk, verifier_config)))) (List.enumerate 0 operator_keys) w4 = (Ok futures, w5)"
    and operators: "ask_map (create_operator H S L N (cfg_port config) (length keys)) futures w5 = (Ok operators, w6)"
    and conf: "create_test_config_with_thread_name H P config_name None w6 = (Ok config2, w7)"
    and aggregator: "on_database (cfg_db_name config2) (create_aggregator_server S L (config2\<lparr>cfg_port := test_port H
      (cfg_port config + word_of_nat (length keys) + word_of_nat (length operator_keys))\<rparr>)) w7 = (Ok aggregator, w')"
    and verifiers: "verifiers = List.map fst results"
    using assms(1) by (simp add: create_verifiers_and_operators_def ask_eq_Ok Let_def) blast
  let ?port = "cfg_port config" and ?n = "length keys" and ?m = "length operator_keys"
  have v: "length results = ?n" "test_dbs_ready name ?n (world_db w4)"
      "\<And>i. i < ?n \<Longrightarrow> verifier_made H S name ?port keys i (results ! i)"
    using create_verifiers_Ok [OF results assms(2,3)] by blast+
  have f: "length futures = ?m" "world_db w5 = world_db w4"
      "\<forall>i < ?m. futures ! i = (i, operator_keys ! i, List.map snd results ! i) \<and> i < ?n"
    using operator_futures_Ok [OF futures] v(1) by (metis length_map)+
  have "cfg_db_name (List.map snd results ! i) = verifier_db name i" if "i < ?n" for i
    using v(3) [OF that] that v(1) by (simp add: verifier_made_def)
  from create_operators_Ok [OF operators f(3) [folded f(1)] this v(2) [folded f(2)]]
  have o: "length operators = ?m" "test_dbs_ready name ?n (world_db w6)"
      "\<And>i. i < ?m \<Longrightarrow> operator_made H S (?port + word_of_nat i + word_of_nat ?n) (List.map snd results ! i)
        (operator_keys ! i) (operators ! i)"
    using f(1) by metis+
  note a = create_aggregator_Ok [OF conf aggregator assms(2,3) o(2)]
  have len: "length verifiers = ?n" "length operators = ?m"
    using v(1) o(1) by (simp_all add: verifiers)
  have m: "?m \<le> ?n"
    using f(3) by (metis not_less order_refl)
  have vs: "let v = verifiers ! i; config = verifier_config (fst v) in
      cfg_db_name config = verifier_db name i \<and> listens S config (snd v) \<and>
      cfg_port config = test_port H (?port + word_of_nat i) \<and>
      (\<exists>d. world_db w' (verifier_db name i) = Some (Some d) \<and> only_funding empty_database d)" if "i < ?n" for i
    using v(1) v(3) [OF that] a that by (auto simp: verifiers verifier_made_def test_dbs_ready_def)
  have os: "let v = operators ! i; config = operator_config (fst v) in
      (\<exists>key port. config = (verifier_config (fst (verifiers ! i)))\<lparr>cfg_secret_key := key, cfg_port := port\<rparr>) \<and>
      listens S config (snd v) \<and> cfg_port config = test_port H (?port + word_of_nat (?n + i))" if i: "i < ?m" for i
  proof -
    have "operator_config (fst (operators ! i)) = (verifier_config (fst (verifiers ! i)))
        \<lparr>cfg_secret_key := operator_keys ! i, cfg_port := test_port H (?port + word_of_nat (?n + i))\<rparr>"
      using o(3) [OF i] v(3) [of i] i m v(1) by (simp add: verifiers verifier_made_def operator_made_def add_ac)
    moreover from this have "cfg_port (operator_config (fst (operators ! i))) = test_port H (?port + word_of_nat (?n + i))"
      by simp
    moreover have "listens S (operator_config (fst (operators ! i))) (snd (operators ! i))"
      using o(3) [OF i] unfolding operator_made_def by (rule conjunct2)
    ultimately show ?thesis
      unfolding Let_def by blast
  qed
  have "cfg_port (aggregator_config (fst aggregator)) = test_port H (?port + word_of_nat (?n + ?m))"
    using a by (simp add: add_ac)
  with a m vs os show ?thesis
    unfolding len Let_def by blast
qed

section \<open>An example cluster\<close>

text \<open>
  Two verifiers and an operator on the example node. The example server takes what follows the last
  slash of a URL for the name of the database, and reads the two statements word by word.
\<close>

definition cluster_config :: bridge_config where
  "cluster_config = (example_config [])\<lparr>
     cfg_all_verifiers_secret_keys := Some [replicate 32 1, replicate 32 3],
     cfg_all_operators_secret_keys := Some [replicate 32 2]\<rparr>"

definition cluster_host :: "(example_chain, unit) host_ops" where
  "cluster_host = example_host\<lparr>toml_from_str := \<lambda>s. Some cluster_config, thread_name := Some ''main''\<rparr>"

definition cluster_statement :: "string \<Rightarrow> admin_statement" where
  "cluster_statement sql =
    (if take 16 sql = ''CREATE DATABASE '' then
       Create_Database (takeWhile (\<lambda>c. c \<noteq> CHR '' '') (drop 16 sql))
         (drop 12 (dropWhile (\<lambda>c. c \<noteq> CHR '' '') (drop 16 sql)))
     else Drop_Database_If_Exists (drop 24 sql))"

definition last_segment :: "string \<Rightarrow> string" where
  "last_segment url = rev (takeWhile (\<lambda>c. c \<noteq> CHR ''/'') (rev url))"

definition cluster_postgres :: postgres where
  "cluster_postgres = \<lparr>pg_resolve = (\<lambda>url. Some (last_segment url)),
     pg_statement = (\<lambda>sql. Some (cluster_statement sql))\<rparr>"

definition cluster_home :: string where
  "cluster_home = last_segment (get_postgresql_url cluster_config)"

definition cluster_world :: "(cluster, example_chain) world" where
  "cluster_world = \<lparr>world_db = [cluster_home \<mapsto> None], world_faults = [], world_node = world_node start_world\<rparr>"

lemma plain_characters:
  assumes "name = main_db ''main'' \<or> name \<in> range (verifier_db ''main'')" "c \<in> set name"
  shows "c \<noteq> CHR ''/'' \<and> c \<noteq> CHR '' ''"
  using assms subsetD [OF decimal_digits, of c] by (auto simp: main_db_def verifier_db_def test_db_name_def)

lemma last_segment_name: "\<forall>c \<in> set name. c \<noteq> CHR ''/'' \<Longrightarrow> last_segment (url @ ''/'' @ name) = name"
  by (simp add: last_segment_def takeWhile_append)

lemma cluster_dbs_plain: "plain_test_dbs cluster_postgres ''main''"
  unfolding plain_test_dbs_def
proof (intro allI impI)
  fix config :: bridge_config
  assume "cfg_db_name config \<in> insert (main_db ''main'') (range (verifier_db ''main''))"
  then have plain: "\<forall>c \<in> set (cfg_db_name config). c \<noteq> CHR ''/''" "\<forall>c \<in> set (cfg_db_name config). c \<noteq> CHR '' ''"
    using plain_characters [of "cfg_db_name config"] by blast+
  have "takeWhile (\<lambda>c. c \<noteq> CHR '' '') (cfg_db_name config @ '' WITH OWNER '' @ cfg_db_user config) = cfg_db_name config"
    "dropWhile (\<lambda>c. c \<noteq> CHR '' '') (cfg_db_name config @ '' WITH OWNER '' @ cfg_db_user config) =
      '' WITH OWNER '' @ cfg_db_user config"
    using plain(2) by (simp_all add: takeWhile_append2 dropWhile_append2)
  then have "cluster_statement (create_database_text config) =
      Create_Database (cfg_db_name config) (cfg_db_user config)"
    by (simp add: cluster_statement_def create_database_text_def)
  moreover have "cluster_statement (drop_database_text config) = Drop_Database_If_Exists (cfg_db_name config)"
    by (simp add: cluster_statement_def drop_database_text_def)
  ultimately show "plain_name cluster_postgres config"
    using last_segment_name [OF plain(1)]
    by (simp add: plain_name_def cluster_postgres_def get_postgresql_database_url_def)
qed

text \<open>Without lost messages the databases are made, and nothing else changes.\<close>

lemma keeps_query:
  "keeps (\<lambda>w. world_faults w = [] \<and> world_node w = n) (query q)"
  by (auto simp: keeps_def query_def ask_def run_sql_no_fault or_database_error_def)

lemma cluster_database:
  assumes "world_faults w = []" "world_db w cluster_home \<noteq> None"
    and "config = cluster_config\<lparr>cfg_db_name := name\<rparr>" "plain_name cluster_postgres config" "cluster_home \<noteq> name"
  shows "\<exists>w'. initialize_database cluster_postgres config w = (Ok (), w') \<and> world_faults w' = [] \<and>
    world_node w' = world_node w \<and> world_db w' = (world_db w)(name \<mapsto> Some empty_database)"
proof -
  have "fst (initialize_database cluster_postgres config w) = Ok ()"
  proof (rule initialize_database_progress)
    show "pg_resolve cluster_postgres (get_postgresql_url config) = Some cluster_home"
      by (simp add: assms(3) cluster_postgres_def cluster_home_def get_postgresql_url_def)
  qed (use assms in simp_all)
  then obtain w' where run: "initialize_database cluster_postgres config w = (Ok (), w')"
    by (metis prod.collapse)
  have "keeps (\<lambda>v. world_faults v = [] \<and> world_node v = world_node w) (initialize_database cluster_postgres config)"
    unfolding initialize_database_def drop_database_def create_database_def run_schema_script_def
      connect_database_def pg_connect_def
    by (intro keeps_ask keeps_query)
  then have "world_faults w' = [] \<and> world_node w' = world_node w"
    using run assms(1) unfolding keeps_def by (metis snd_conv)
  with run initialize_database_Ok [OF run assms(4)] assms(3) show ?thesis
    by simp
qed

lemma cluster_test_config: "get_test_config cluster_host config_file w = (Ok cluster_config, w)"
  by (simp add: get_test_config_def try_parse_file_def try_parse_from_def request_def ask_def call_def lift_def
      cluster_host_def example_host_def)

lemma cluster_logger: "initialize_logger cluster_host 5 w = (Ok (), w)"
  by (simp add: initialize_logger_def level_of_def ask_def call_def cluster_host_def example_host_def)

lemma cluster_test_database:
  assumes "world_faults w = []" "world_db w cluster_home \<noteq> None"
    and "test_db_name ''main'' suffix \<in> insert (main_db ''main'') (range (verifier_db ''main''))"
    and "test_db_name ''main'' suffix \<noteq> cluster_home"
  shows "\<exists>w'. create_test_config_with_thread_name cluster_host cluster_postgres config_file suffix w =
      (Ok (cluster_config\<lparr>cfg_db_name := test_db_name ''main'' suffix\<rparr>), w') \<and> world_faults w' = [] \<and>
    world_node w' = world_node w \<and>
    world_db w' = (world_db w)(test_db_name ''main'' suffix \<mapsto> Some empty_database)"
proof -
  let ?config = "cluster_config\<lparr>cfg_db_name := test_db_name ''main'' suffix\<rparr>"
  have "plain_name cluster_postgres ?config"
    using cluster_dbs_plain [unfolded plain_test_dbs_def, rule_format, of ?config] assms(3) by simp
  from cluster_database [OF assms(1,2) refl this] assms(4) obtain w' where
    "initialize_database cluster_postgres ?config w = (Ok (), w')" "world_faults w' = []"
    "world_node w' = world_node w" "world_db w' = (world_db w)(test_db_name ''main'' suffix \<mapsto> Some empty_database)"
    by metis
  moreover have "thread_name cluster_host = Some ''main''"
    by (simp add: cluster_host_def)
  ultimately show ?thesis
    by (simp add: create_test_config_with_thread_name_def create_test_config_def ask_def unwrapped_def
        cluster_logger cluster_test_config Let_def)
qed

text \<open>The servers of the verifiers and of the aggregator change nothing.\<close>

lemma cluster_keys:
  "is_Ok (from_musig2_pks example_lib (cfg_verifiers_public_keys cluster_config) None False)"
  "keypair_public_key example_lib (keypair_from_secret_key example_lib (replicate 32 1)) \<in>
    set (cfg_verifiers_public_keys cluster_config)"
  "keypair_public_key example_lib (keypair_from_secret_key example_lib (replicate 32 3)) \<in>
    set (cfg_verifiers_public_keys cluster_config)"
  by code_simp+

lemma cluster_verifier_server:
  assumes "world_faults w = []" "sk = replicate 32 1 \<or> sk = replicate 32 3"
    and "config = cluster_config\<lparr>cfg_db_name := name, cfg_secret_key := sk, cfg_port := port\<rparr>"
  shows "\<exists>v. create_verifier_server example_server_lib example_lib config w = (Ok v, w)"
proof -
  obtain key where "from_musig2_pks example_lib (cfg_verifiers_public_keys cluster_config) None False = Ok key"
    using cluster_keys(1) by (auto simp: is_Ok_iff)
  moreover have "keypair_public_key example_lib (keypair_from_secret_key example_lib sk) \<in>
      set (cfg_verifiers_public_keys cluster_config)"
    using cluster_keys(2,3) assms(2) by auto
  ultimately show ?thesis
    using assms(1,3) query_no_fault [of w "\<lambda>d. (Inr (), d)" "()"]
    by (simp add: create_verifier_server_def verifier_new_def database_new_def request_def ask_def call_def lift_def
        Let_def example_server_lib_def)
qed

lemma cluster_aggregator_server:
  assumes "config = cluster_config\<lparr>cfg_db_name := name, cfg_port := port\<rparr>"
  shows "\<exists>a. create_aggregator_server example_server_lib example_lib config w = (Ok a, w)"
proof -
  obtain key where "from_musig2_pks example_lib (cfg_verifiers_public_keys cluster_config) None False = Ok key"
    using cluster_keys(1) by (auto simp: is_Ok_iff)
  then show ?thesis
    using assms
    by (simp add: create_aggregator_server_def aggregator_new_def request_def ask_def call_def lift_def
        example_server_lib_def)
qed

lemma cluster_operator_server:
  "case create_operator_server example_server_lib example_lib example_node
     (cluster_config\<lparr>cfg_db_name := ''main0'', cfg_secret_key := replicate 32 2, cfg_port := 3032\<rparr>) start_world of
     (Ok _, w) \<Rightarrow> world_faults w = [] | _ \<Rightarrow> False"
  by code_simp

lemma cluster_home_eq: "cluster_home = '':@:5432''"
  by (simp add: cluster_home_def last_segment_def get_postgresql_url_def cluster_config_def example_config_def
      decimal.simps char_of_def bit_0)

lemma cluster_home_other: "test_db_name ''main'' suffix \<noteq> cluster_home"
  by (simp add: cluster_home_eq test_db_name_def)

definition verifier_test_config :: "nat \<Rightarrow> bridge_config" where
  "verifier_test_config i = cluster_config\<lparr>cfg_db_name := verifier_db ''main'' i\<rparr>"

lemma cluster_verifier:
  assumes "world_faults w = []" "world_db w cluster_home \<noteq> None" "sk = replicate 32 1 \<or> sk = replicate 32 3"
  shows "\<exists>v w'. create_verifier cluster_host example_server_lib cluster_postgres example_lib config_name start_port
      (i, sk) w = (Ok (v, verifier_test_config i), w') \<and> world_faults w' = [] \<and> world_node w' = world_node w \<and>
    world_db w' = (world_db w)(verifier_db ''main'' i \<mapsto> Some empty_database)"
proof -
  let ?config = "verifier_test_config i"
  let ?own = "?config\<lparr>cfg_secret_key := sk, cfg_port := test_port cluster_host (start_port + word_of_nat i)\<rparr>"
  obtain w1 where w1: "create_test_config_with_thread_name cluster_host cluster_postgres config_name (Some (decimal i)) w =
      (Ok ?config, w1)" "world_faults w1 = []" "world_node w1 = world_node w"
      "world_db w1 = (world_db w)(verifier_db ''main'' i \<mapsto> Some empty_database)"
    using cluster_test_database [OF assms(1,2) _ cluster_home_other, of "Some (decimal i)" config_name]
    by (auto simp: verifier_test_config_def verifier_db_def)
  let ?w = "\<lparr>world_db = empty_database, world_faults = world_faults w1, world_node = world_node w1\<rparr>"
  have "\<exists>v. create_verifier_server example_server_lib example_lib ?own ?w = (Ok v, ?w)"
    by (rule cluster_verifier_server [OF _ assms(3), where name = "verifier_db ''main'' i" and
        port = "test_port cluster_host (start_port + word_of_nat i)"]) (simp_all add: w1(2) verifier_test_config_def)
  then obtain v where v: "create_verifier_server example_server_lib example_lib ?own ?w = (Ok v, ?w)"
    by blast
  have "on_database (cfg_db_name ?config) (create_verifier_server example_server_lib example_lib ?own) w1 = (Ok v, w1)"
    using v w1(4) by (auto simp: on_database_def verifier_test_config_def fun_upd_idem)
  then have "create_verifier cluster_host example_server_lib cluster_postgres example_lib config_name start_port
      (i, sk) w = (Ok (v, ?config), w1)"
    using w1(1) by (simp add: create_verifier_def Let_def ask_def)
  with w1 show ?thesis by blast
qed

lemma cluster_operator:
  assumes "world_faults w = []" "world_db w ''main0'' = Some (Some empty_database)"
    and "world_node w = world_node start_world"
  shows "\<exists>op w'. create_operator cluster_host example_server_lib example_lib example_node 3030 2
      (0, replicate 32 2, verifier_test_config 0) w = (Ok op, w') \<and> world_faults w' = [] \<and>
    world_db w' cluster_home = world_db w cluster_home"
proof -
  let ?config = "cluster_config\<lparr>cfg_db_name := ''main0'', cfg_secret_key := replicate 32 2, cfg_port := 3032\<rparr>"
  let ?m = "create_operator_server example_server_lib example_lib example_node ?config"
  obtain op w1 where op: "?m start_world = (Ok op, w1)" "world_faults w1 = []"
    using cluster_operator_server by (auto split: prod.splits outcome.splits)
  have start: "\<lparr>world_db = empty_database, world_faults = world_faults w, world_node = world_node w\<rparr> = start_world"
    using assms(1,3) by (simp add: start_world_def)
  have "create_operator cluster_host example_server_lib example_lib example_node 3030 2
      (0, replicate 32 2, verifier_test_config 0) w = on_database ''main0'' ?m w"
    by (simp add: create_operator_def Let_def verifier_test_config_def verifier_db_def test_db_name_def
        test_port_def is_test_env_def cluster_host_def decimal.simps char_of_def bit_0)
  also have "\<dots> = (Ok op, \<lparr>world_db = (world_db w)(''main0'' \<mapsto> Some (world_db w1)), world_faults = [],
      world_node = world_node w1\<rparr>)" (is "_ = (Ok op, ?w')")
    using op assms(2) start by (simp add: on_database_def)
  moreover have "world_faults ?w' = []" "world_db ?w' cluster_home = world_db w cluster_home"
    by (simp_all add: cluster_home_eq)
  ultimately show ?thesis
    by metis
qed

lemma cluster_runs:
  "\<exists>verifiers operators aggregator w'. create_verifiers_and_operators cluster_host example_server_lib
      cluster_postgres example_lib example_node ''test_config.toml'' cluster_world =
    (Ok (verifiers, operators, aggregator), w') \<and> length verifiers = 2 \<and> length operators = 1"
proof -
  let ?conf = "create_test_config_with_thread_name cluster_host cluster_postgres ''test_config.toml''"
  let ?config = "cluster_config\<lparr>cfg_db_name := main_db ''main''\<rparr>"
  let ?verifier = "create_verifier cluster_host example_server_lib cluster_postgres example_lib ''test_config.toml'' 3030"
  have conf: "\<exists>w'. ?conf None w = (Ok ?config, w') \<and> world_faults w' = [] \<and> world_node w' = world_node w \<and>
      world_db w' cluster_home = world_db w cluster_home \<and> world_db w' (main_db ''main'') = Some (Some empty_database)"
    if "world_faults w = []" "world_db w cluster_home \<noteq> None" for w
    using cluster_test_database [OF that _ cluster_home_other, of None "''test_config.toml''"]
      cluster_home_other [of None] by (auto simp: main_db_def)
  obtain w1 where 1: "?conf None cluster_world = (Ok ?config, w1)" "world_faults w1 = []"
      "world_node w1 = world_node start_world" "world_db w1 cluster_home \<noteq> None"
    using conf [of cluster_world] by (auto simp: cluster_world_def)
  obtain v0 w2 where 2: "?verifier (0, replicate 32 1) w1 = (Ok (v0, verifier_test_config 0), w2)"
      "world_faults w2 = []" "world_node w2 = world_node w1"
      "world_db w2 = (world_db w1)(verifier_db ''main'' 0 \<mapsto> Some empty_database)"
    using cluster_verifier [OF 1(2,4)] by blast
  then have home2: "world_db w2 cluster_home \<noteq> None"
    using 1(4) by simp
  obtain v1 w3 where 3: "?verifier (1, replicate 32 3) w2 = (Ok (v1, verifier_test_config 1), w3)"
      "world_faults w3 = []" "world_node w3 = world_node w2"
      "world_db w3 = (world_db w2)(verifier_db ''main'' 1 \<mapsto> Some empty_database)"
    using cluster_verifier [OF 2(2) home2] by blast
  have "verifier_db ''main'' 0 = ''main0''"
    by (simp add: verifier_db_def test_db_name_def decimal.simps char_of_def bit_0)
  then have "world_db w3 ''main0'' = Some (Some empty_database)" "world_node w3 = world_node start_world"
    using 1(3) 2(3,4) 3(3,4) test_dbs_distinct(1) [of "''main''" 0 1] by auto
  from cluster_operator [OF 3(2) this] obtain op w4 where
    4: "create_operator cluster_host example_server_lib example_lib example_node 3030 2
      (0, replicate 32 2, verifier_test_config 0) w3 = (Ok op, w4)" "world_faults w4 = []"
      "world_db w4 cluster_home = world_db w3 cluster_home"
    by blast
  moreover have "world_db w3 cluster_home \<noteq> None"
    using home2 3(4) by simp
  ultimately obtain w5 where 5: "?conf None w4 = (Ok ?config, w5)"
      "world_db w5 (main_db ''main'') = Some (Some empty_database)"
    using conf [of w4] by auto
  obtain a where 6: "create_aggregator_server example_server_lib example_lib (?config\<lparr>cfg_port := 3033\<rparr>)
      \<lparr>world_db = empty_database, world_faults = world_faults w5, world_node = world_node w5\<rparr> =
      (Ok a, \<lparr>world_db = empty_database, world_faults = world_faults w5, world_node = world_node w5\<rparr>)"
    using cluster_aggregator_server [OF refl] by blast
  have fields: "cfg_port cluster_config = 3030"
    "cfg_all_verifiers_secret_keys cluster_config = Some [replicate 32 1, replicate 32 3]"
    "cfg_all_operators_secret_keys cluster_config = Some [replicate 32 2]"
    by (simp_all add: cluster_config_def example_config_def)
  have port: "test_port cluster_host p = p" for p
    by (simp add: test_port_def is_test_env_def cluster_host_def)
  have "on_database (main_db ''main'') (create_aggregator_server example_server_lib example_lib
      (?config\<lparr>cfg_port := 3033\<rparr>)) w5 = (Ok a, w5)"
    using 6 5(2) by (simp add: on_database_def fun_upd_idem)
  then have "create_verifiers_and_operators cluster_host example_server_lib
      cluster_postgres example_lib example_node ''test_config.toml'' cluster_world =
    (Ok ([v0, v1], [op], a), w5)"
    using 1(1) 2(1) 3(1) 4(1) [unfolded numeral_2_eq_2] 5(1)
    by (simp add: create_verifiers_and_operators_def ask_def unwrapped_def lift_def fields port example_rpc Let_def)
  moreover have "length [v0, v1] = 2" "length [op] = 1"
    by simp_all
  ultimately show ?thesis
    by metis
qed

theorem test_cluster_shares_databases_witness:
  "\<exists>verifiers operators aggregator w'. create_verifiers_and_operators cluster_host example_server_lib
      cluster_postgres example_lib example_node ''test_config.toml'' cluster_world =
    (Ok (verifiers, operators, aggregator), w') \<and>
    cfg_db_name (operator_config (fst (operators ! 0))) = cfg_db_name (verifier_config (fst (verifiers ! 0))) \<and>
    cfg_db_name (verifier_config (fst (verifiers ! 1))) = verifier_db ''main'' 1"
proof -
  obtain verifiers operators aggregator w' where run: "create_verifiers_and_operators cluster_host
      example_server_lib cluster_postgres example_lib example_node ''test_config.toml'' cluster_world =
    (Ok (verifiers, operators, aggregator), w')" and len: "length verifiers = 2" "length operators = 1"
    using cluster_runs by blast
  have "thread_name cluster_host = Some ''main''"
    by (simp add: cluster_host_def)
  note shares = test_cluster_shares_databases [OF run this cluster_dbs_plain, unfolded len Let_def]
  then have "cfg_db_name (verifier_config (fst (verifiers ! 1))) = verifier_db ''main'' 1"
    by auto
  moreover from shares obtain key port where "operator_config (fst (operators ! 0)) =
      (verifier_config (fst (verifiers ! 0)))\<lparr>cfg_secret_key := key, cfg_port := port\<rparr>"
    by (metis less_one)
  then have "cfg_db_name (operator_config (fst (operators ! 0))) = cfg_db_name (verifier_config (fst (verifiers ! 0)))"
    by simp
  ultimately show ?thesis
    using run by blast
qed

end
