(* ===== verification/Port_Search.thy ===== *)
theory Port_Search
  imports Btc_Types World
begin

text \<open>
  \<open>find_consecutive_idle_ports\<close> of \<open>mock/common.rs\<close>: the search for ports on which a test cluster can
  listen. Binding a port is a parameter that says whether the port was free.
\<close>

section \<open>The search\<close>

lemma next_port_nat: "(current :: u16) < 65535 \<Longrightarrow> unat (current + 1) = Suc (unat current)"
  by (simp add: word_less_nat_alt unat_word_ariths)

function idle_ports_loop ::
  "(u16 \<Rightarrow> 'n \<Rightarrow> bool \<times> 'n) \<Rightarrow> u64 \<Rightarrow> u16 \<Rightarrow> u16 list \<Rightarrow> 'n \<Rightarrow> u16 list \<times> 'n" where
  "idle_ports_loop bind_port num current_port idle_ports n =
    (if current_port < 65535 then
       (case bind_port current_port n of
          (True, n) \<Rightarrow>
            let idle_ports = idle_ports @ [current_port]; current_port = current_port + 1 in
            if word_of_nat (length idle_ports) = num + 1 then (idle_ports, n)
            else idle_ports_loop bind_port num current_port idle_ports n
        | (False, n) \<Rightarrow> idle_ports_loop bind_port num (current_port + 1) [] n)
     else (idle_ports, n))"
  by pat_completeness auto

termination
  by (relation "measure (\<lambda>(bind_port, num, current_port, idle_ports, n). 65535 - unat current_port)")
    (auto simp: next_port_nat word_less_nat_alt)

declare idle_ports_loop.simps [simp del]

definition find_consecutive_idle_ports ::
  "(u16 \<Rightarrow> 'n \<Rightarrow> bool \<times> 'n) \<Rightarrow> u16 \<Rightarrow> u64 \<Rightarrow> (('d, 'n) world, u16) action" where
  "find_consecutive_idle_ports bind_port port num =
    ask (call (idle_ports_loop bind_port num port [])) (\<lambda>idle_ports.
    if word_of_nat (length idle_ports) = num + 1 then lift (item_at idle_ports 0)
    else lift (Err PortError))"

section \<open>What it finds\<close>

text \<open>
  Every port is tried at most once, so what binding answers is a set of ports; the ports tried are
  recorded in the order of the calls.
\<close>

definition trying :: "(u16 \<Rightarrow> bool) \<Rightarrow> u16 \<Rightarrow> u16 list \<Rightarrow> bool \<times> u16 list" where
  "trying free port tried = (free port, tried @ [port])"

definition last_port :: nat where "last_port = 65535"

definition idle_run :: "(u16 \<Rightarrow> bool) \<Rightarrow> nat \<Rightarrow> nat \<Rightarrow> bool" where
  "idle_run free num p \<longleftrightarrow> p + num < last_port \<and> (\<forall>q \<in> {p..p + num}. free (word_of_nat q))"

text \<open>
  The state of a search that has come to port \<open>d\<close> from \<open>p\<close>, having given up the ports from \<open>low\<close> on
  that are not among the last \<open>k\<close>.
\<close>

definition searched :: "(u16 \<Rightarrow> bool) \<Rightarrow> nat \<Rightarrow> nat \<Rightarrow> nat \<Rightarrow> u16 list \<Rightarrow> u16 list \<times> u16 list \<Rightarrow> bool" where
  "searched free num low p tried result \<longleftrightarrow> (\<exists>d k.
    result = (List.map word_of_nat [d - k..<d], tried @ List.map word_of_nat [p..<d]) \<and>
    p \<le> d \<and> d \<le> last_port \<and> k \<le> d \<and> low \<le> d - k \<and> (\<forall>q \<in> {d - k..<d}. free (word_of_nat q)) \<and>
    (k = Suc num \<or> d = last_port \<and> k \<le> num) \<and>
    (\<forall>q. low \<le> q \<longrightarrow> q < d - k \<longrightarrow> \<not> idle_run free num q))"

lemma searched_later:
  assumes "searched free num low' (Suc p) (tried @ [word_of_nat p]) result" "low \<le> low'"
    and "\<And>q. low \<le> q \<Longrightarrow> q < low' \<Longrightarrow> \<not> idle_run free num q"
  shows "searched free num low p tried result"
proof -
  obtain d k where d:
    "result = (List.map word_of_nat [d - k..<d], (tried @ [word_of_nat p]) @ List.map word_of_nat [Suc p..<d])"
    "Suc p \<le> d" "d \<le> last_port" "k \<le> d" "low' \<le> d - k" "\<forall>q \<in> {d - k..<d}. free (word_of_nat q)"
    "k = Suc num \<or> d = last_port \<and> k \<le> num" "\<forall>q. low' \<le> q \<longrightarrow> q < d - k \<longrightarrow> \<not> idle_run free num q"
    using assms(1) unfolding searched_def by blast
  have "[p..<d] = p # [Suc p..<d]"
    using d(2) by (simp add: upt_conv_Cons)
  then have "result = (List.map word_of_nat [d - k..<d], tried @ List.map word_of_nat [p..<d])"
    using d(1) by simp
  moreover have "\<forall>q. low \<le> q \<longrightarrow> q < d - k \<longrightarrow> \<not> idle_run free num q"
    using assms(3) d(8) not_less by blast
  moreover have "p \<le> d" "low \<le> d - k"
    using d(2,5) assms(2) by linarith+
  ultimately show ?thesis
    unfolding searched_def using d(3,4,6,7) by blast
qed

lemma idle_ports_loop_step:
  assumes "c < 65535" "k \<le> unat c" "k \<le> unat num" "num + 1 \<noteq> 0"
  shows "idle_ports_loop (trying free) num c (List.map word_of_nat [unat c - k..<unat c]) tried =
    (if \<not> free c then idle_ports_loop (trying free) num (c + 1) [] (tried @ [c])
     else if k = unat num then (List.map word_of_nat [unat c - k..<Suc (unat c)], tried @ [c])
     else idle_ports_loop (trying free) num (c + 1) (List.map word_of_nat [unat c - k..<Suc (unat c)]) (tried @ [c]))"
proof -
  have "unat (num + 1) = Suc (unat num)"
    using assms(4) unatSuc [of num] by (simp add: add.commute)
  then have "word_of_nat (Suc k) = num + 1 \<longleftrightarrow> k = unat num"
    using assms(3) unat_less_pow [of "num + 1"] by (simp add: word_unat_eq_iff unat_of_nat del: of_nat_Suc)
  moreover have "List.map word_of_nat [unat c - k..<Suc (unat c)] = List.map word_of_nat [unat c - k..<unat c] @ [c]"
    using assms(2) by simp
  ultimately show ?thesis
    using assms(1,2)
    by (cases "k = unat num"; subst idle_ports_loop.simps) (simp_all add: trying_def del: upt_Suc)
qed

lemma idle_ports_loop_stops:
  assumes "\<not> c < 65535" "k \<le> unat c" "k \<le> unat num" "\<forall>q \<in> {unat c - k..<unat c}. free (word_of_nat q)"
  shows "searched free (unat num) (unat c - k) (unat c) tried
    (idle_ports_loop (trying free) num c (List.map word_of_nat [unat c - k..<unat c]) tried)"
proof -
  have "unat c = last_port"
    using assms(1) unat_less_pow [of c] by (simp add: word_less_nat_alt last_port_def)
  moreover have "idle_ports_loop (trying free) num c idle tried = (idle, tried)" for idle
    using assms(1) by (simp add: idle_ports_loop.simps)
  ultimately show ?thesis
    using assms(2-4) unfolding searched_def by (intro exI [of _ last_port] exI [of _ k]) simp
qed

lemma idle_ports_loop_finds:
  assumes "k \<le> unat c" "k \<le> unat num" "num + 1 \<noteq> 0" "\<forall>q \<in> {unat c - k..<unat c}. free (word_of_nat q)"
  shows "searched free (unat num) (unat c - k) (unat c) tried
    (idle_ports_loop (trying free) num c (List.map word_of_nat [unat c - k..<unat c]) tried)"
  using assms
proof (induction "last_port - unat c" arbitrary: c k tried rule: less_induct)
  case less
  show ?case
  proof (cases "c < 65535")
    case False
    then show ?thesis
      using less.prems(1,2,4) by (rule idle_ports_loop_stops)
  next
    case True
    let ?p = "unat c"
    have c: "unat (c + 1) = Suc ?p" "?p < last_port" "word_of_nat ?p = c"
      using True next_port_nat [of c] by (simp_all add: word_less_nat_alt last_port_def)
    note step = idle_ports_loop_step [OF True less.prems(1-3)]
    consider (busy) "\<not> free c" | (found) "free c" "k = unat num" | (more) "free c" "k < unat num"
      using less.prems(2) by linarith
    then show ?thesis
    proof cases
      case busy
      have "\<not> idle_run free (unat num) q" if "?p - k \<le> q" "q < Suc ?p" for q
        using that busy less.prems(2) c(3) by (auto simp: idle_run_def intro!: bexI [of _ ?p])
      moreover have "searched free (unat num) (Suc ?p) (Suc ?p) (tried @ [c])
          (idle_ports_loop (trying free) num (c + 1) [] (tried @ [c]))"
        using less.hyps [of "c + 1" 0 "tried @ [c]"] less.prems(3) c by simp
      ultimately show ?thesis
        using step busy searched_later [of free "unat num" "Suc ?p" ?p tried _ "?p - k"] c(3) by simp
    next
      case found
      have "\<forall>q \<in> {?p - k..<Suc ?p}. free (word_of_nat q)"
        using less.prems(4) found(1) c(3) by (auto simp: less_Suc_eq)
      with found less.prems(1) step c show ?thesis
        unfolding searched_def by (intro exI [of _ "Suc ?p"] exI [of _ "Suc k"]) simp
    next
      case more
      have "\<forall>q \<in> {?p - k..<Suc ?p}. free (word_of_nat q)"
        using less.prems(4) more(1) c(3) by (auto simp: less_Suc_eq)
      then have "searched free (unat num) (?p - k) (Suc ?p) (tried @ [c]) (idle_ports_loop (trying free)
          num (c + 1) (List.map word_of_nat [?p - k..<Suc ?p]) (tried @ [c]))"
        using less.hyps [of "c + 1" "Suc k" "tried @ [c]"] less.prems(1,3) more c by (simp del: upt_Suc)
      with step more searched_later [of free "unat num" "?p - k" ?p tried _ "?p - k"] c(3) show ?thesis
        by (simp del: upt_Suc)
    qed
  qed
qed

section \<open>Properties\<close>

text \<open>
  C40. The search ends after binding each port from the given one at most once and never the last,
  65535; it returns the least port that begins \<open>num + 1\<close> consecutive free ones below 65535 (not \<open>num\<close>, as
  its comment says), and the error exactly when there is none.
\<close>

theorem idle_port_search:
  assumes "num + 1 \<noteq> 0"
  shows "case find_consecutive_idle_ports (trying free) port num
      \<lparr>world_db = db, world_faults = faults, world_node = []\<rparr> of (r, w') \<Rightarrow>
    (\<exists>d \<le> last_port. world_node w' = List.map word_of_nat [unat port..<d]) \<and>
    (case r of
       Ok p \<Rightarrow> port \<le> p \<and> idle_run free (unat num) (unat p) \<and>
         (\<forall>q. unat port \<le> q \<longrightarrow> q < unat p \<longrightarrow> \<not> idle_run free (unat num) q)
     | Err e \<Rightarrow> e = PortError \<and> (\<forall>q. unat port \<le> q \<longrightarrow> \<not> idle_run free (unat num) q)
     | Panic \<Rightarrow> False)"
proof -
  obtain d k where loop: "idle_ports_loop (trying free) num port [] [] =
      (List.map word_of_nat [d - k..<d], List.map word_of_nat [unat port..<d])"
    and d: "d \<le> last_port" "k \<le> d" "unat port \<le> d - k" "\<forall>q \<in> {d - k..<d}. free (word_of_nat q)"
    and k: "k = Suc (unat num) \<or> d = last_port \<and> k \<le> unat num"
    and least: "\<forall>q. unat port \<le> q \<longrightarrow> q < d - k \<longrightarrow> \<not> idle_run free (unat num) q"
    using idle_ports_loop_finds [of 0 port num free "[]"] assms by (auto simp: searched_def)
  have num: "unat (num + 1) = Suc (unat num)"
    using assms unatSuc [of num] by (simp add: add.commute)
  have enough: "word_of_nat k = num + 1 \<longleftrightarrow> k = Suc (unat num)"
    using k num unat_less_pow [of "num + 1"] by (auto simp: word_unat_eq_iff unat_of_nat)
  have len: "length (List.map word_of_nat [d - k..<d]) = k"
    using d(2) by simp
  show ?thesis
  proof (cases "k = Suc (unat num)")
    case True
    let ?p = "d - k"
    have small: "unat (word_of_nat i :: u16) = i" if "i < 65536" for i
      using that by (simp add: unat_of_nat)
    have "unat (word_of_nat ?p :: u16) = ?p"
      using d(1) by (intro small) (simp add: last_port_def)
    moreover have "?p < d" "?p + unat num = d - 1"
      using True d(2) by simp_all
    ultimately have p: "?p < d" "unat (word_of_nat ?p :: u16) = ?p" "?p + unat num = d - 1"
      by simp_all
    have "item_at (List.map word_of_nat [?p..<d]) 0 = Ok (word_of_nat ?p)"
      using p(1) by simp
    moreover have "idle_run free (unat num) ?p"
      unfolding idle_run_def
    proof
      show "?p + unat num < last_port"
        using p d(1) by linarith
      have "{?p..?p + unat num} = {?p..<d}"
        using p(1,3) by auto
      with d(4) show "\<forall>q \<in> {?p..?p + unat num}. free (word_of_nat q)"
        by simp
    qed
    moreover have "port \<le> word_of_nat ?p"
      using d(3) p(2) by (simp add: word_le_nat_alt)
    ultimately show ?thesis
      using d(1) least p(2) enough True len
      by (auto simp: find_consecutive_idle_ports_def call_def ask_def loop)
  next
    case False
    have "\<not> idle_run free (unat num) q" if "d - k \<le> q" for q
      using that k False by (auto simp: idle_run_def)
    with least have "\<forall>q. unat port \<le> q \<longrightarrow> \<not> idle_run free (unat num) q"
      using not_less by blast
    with False enough d(1) len show ?thesis
      by (auto simp: find_consecutive_idle_ports_def call_def ask_def loop)
  qed
qed

theorem idle_port_search_witness:
  "\<exists>p. fst (find_consecutive_idle_ports (trying (\<lambda>p. p \<noteq> 3002)) 3000 2
      \<lparr>world_db = (), world_faults = [], world_node = []\<rparr>) = Ok p \<and> 3000 \<le> p \<and>
    idle_run (\<lambda>p. p \<noteq> 3002) 2 (unat p)"
proof -
  have "idle_run (\<lambda>p. p \<noteq> 3002) 2 3003"
    by (auto simp: idle_run_def last_port_def word_unat_eq_iff unat_of_nat)
  with idle_port_search [of 2 3000 "\<lambda>p. p \<noteq> 3002" "()" "[]"] show ?thesis
    by (fastforce split: prod.splits outcome.splits)
qed

end
