(* ===== verification/Spec2Isabelle.thy ===== *)
theory Spec2Isabelle
  imports Deposit_Protocol Bridge_Completeness Column_Types Test_Cluster Port_Search
begin

text \<open>
  Clementine is a bridge between Bitcoin and Citrea. It has two halves, which share no code but the
  conventions of Bitcoin, and this development models both: the zero-knowledge circuit that proves
  to a verifier what happened on chain, and the processes that move a deposit to the bridge and pay
  operators back.

  \<^bold>\<open>The circuit\<close> (\<open>circuits/src\<close>, \<open>risc0-guests\<close>). \<open>Environment\<close> is the trait of \<open>env.rs\<close> as a record of
  functions on a hidden tape, with the hash macros of \<open>hashes.rs\<close> over a parameter for SHA-256.
  \<open>Bitcoin_Circuit\<close>: compact targets and proof of work of \<open>bitcoin.rs\<close>. \<open>Transaction_Circuit\<close>: the
  reader of transactions. \<open>Commitment_Circuit\<close>: Merkle paths and the taproot commitment.
  \<open>Incremental_Merkle\<close> with \<open>Merkle_Spec\<close>: the incremental tree against the root of the full tree.
  \<open>Bridge_Circuit\<close>: \<open>bridge.rs\<close>, every function and the whole of \<open>bridge_proof\<close>. \<open>Guest_Programs\<close>: the
  two \<open>main\<close> functions. \<open>Bridge_Completeness\<close>: the data of an honest host, and that the circuit
  accepts it. A panic is the value \<open>None\<close>. The theorems say what a returned proof implies
  about the chain (one valid chain of headers, withdrawals paid in its blocks, preimages committed
  and revealed), that the tree holds exactly the added leaves, and that the reader accepts exactly
  well-formed transactions.

  \<^bold>\<open>The processes\<close> (\<open>core/src\<close>). How functions end is in \<open>Bridge_Outcome\<close> (a value, an error of
  \<open>errors.rs\<close>, or a panic), and where handlers run in \<open>World\<close>: the tables, the node as an opaque state,
  and which of the next database messages are lost. A handler is an action on the world; \<open>?\<close> is
  \<open>ask\<close>, a database transaction \<open>in_dbtx\<close>. On these stand, in the order of the calls:

  \<^item> \<open>Btc_Types\<close>: the data of the \<open>bitcoin\<close> crate that the code uses, \<open>UTXO\<close> of \<open>lib.rs\<close>, \<open>TxHandler\<close>,
    \<open>BridgeConfig\<close> of \<open>config.rs\<close>, and the crates as records of functions. \<open>Utilities\<close>: \<open>utils.rs\<close>.
  \<^item> \<open>Script_Builder\<close> and \<open>Tx_Builder\<close>: the scripts, addresses and transactions of \<open>builder/\<close>, with their
    amounts at 64 bits and their panics; \<open>handle_taproot_witness_new\<close>.
  \<^item> \<open>Signing\<close>: \<open>actor.rs\<close> and \<open>musig2.rs\<close>. \<open>Key_Laws\<close>: what they rely on from the crates.
  \<^item> \<open>Bridge_Database\<close>: the tables, keys, checks and the trigger of \<open>scripts/schema.sql\<close> and the queries
    of \<open>database/common.rs\<close>. \<open>Nonce_Table\<close>: what happens to rows of nonces. \<open>Column_Types\<close>: how
    \<open>database/wrapper.rs\<close> writes values into text columns. \<open>Database_Admin\<close>: \<open>database/mod.rs\<close>, with the
    server as a map from names to databases.
  \<^item> \<open>Chain_Rpc\<close>: \<open>extended_rpc.rs\<close>.
  \<^item> \<open>Operator_Role\<close>, \<open>Verifier_Role\<close>, \<open>Aggregator_Role\<close>, \<open>User_Role\<close>: the constructors and handlers of
    \<open>operator.rs\<close>, \<open>verifier.rs\<close>, \<open>aggregator.rs\<close> and \<open>user.rs\<close>, each handler as a whole.
  \<^item> \<open>Operator_Service\<close>: what the answers of an operator are worth. \<open>Reimbursement\<close>: an operator and a
    verifier on one database, and what the operator can do with the transactions it gets; \<open>Reimbursement_Progress\<close>:
    when it gets them. \<open>Deposit_Protocol\<close>: what the roles owe each other.
  \<^item> \<open>Rpc_Interface\<close>: the traits of \<open>traits/rpc.rs\<close> as requests and their implementations as functions that
    serve them.
  \<^item> \<open>Configuration\<close>: \<open>cli.rs\<close>, \<open>initialize_logger\<close> of \<open>utils.rs\<close> and the reading of \<open>config.rs\<close>: arguments, environment variables and
    files, with exits of the process. \<open>Server_Startup\<close>: the servers of the roles in \<open>servers.rs\<close> and the whole
    \<open>main\<close> of \<open>bin/server.rs\<close>. \<open>Config_Generator\<close>: \<open>bin/config_generator.rs\<close>, and that what it writes starts a
    server. \<open>Port_Search\<close>: the search for free ports in \<open>mock/common.rs\<close>. \<open>Test_Cluster\<close>: the
    configurations of \<open>mock/common.rs\<close> and \<open>mock/database.rs\<close>, \<open>create_verifiers_and_operators\<close> of \<open>servers.rs\<close> and
    \<open>bin/all_servers.rs\<close>: a whole bridge in one process.
  \<^item> \<open>Example_Lib\<close>, \<open>Example_Node\<close>, \<open>Deposit_Session\<close>: an instance of the crates, a node, and a run of
    the protocol by two verifiers, an operator and the aggregator, from the constructors to the
    reimbursement. Only the witnesses use them.

  \<^bold>\<open>Runs.\<close> \<open>operator_step\<close>, \<open>verifier_step\<close> and \<open>shared_step\<close> are one request with any arguments, a restart,
  or any change outside the tables; a run is any sequence of them, with any lost messages. They are
  exactly the lists of events that \<open>after_event\<close> of \<open>Rpc_Interface\<close> executes. On runs
  from empty tables the theorems give the invariants (kickoff outputs are assigned once, exist and
  are worth what the verifiers demand; a deposit has all its nonces or none; a row of nonces signs
  one message), that answers never change, and when an operator gets the transactions of its
  reimbursement, which it can publish. The
  handlers change the tables only along a relation that every statement keeps; the locale
  \<open>db_order\<close> proves this once for each such relation, and \<open>write_once_table\<close> is the contract of
  tables with a primary key.

  \<^bold>\<open>Between the roles\<close>, for participants made by the constructors from configurations with the same
  public parameters: a deposit is accepted exactly when it pays to the address the user was given; a
  verifier's checks pass on an operator's answer; the aggregator's signatures are for the messages
  the verifiers signed and pass their checks; a user's withdrawal is one that an operator pays.

  \<^bold>\<open>Parameters and hypotheses.\<close> The crates \<open>bitcoin\<close>, \<open>secp256k1\<close>, \<open>musig2\<close>, \<open>k256\<close> and \<open>hex\<close>, SHA-256, the
  Bitcoin node, the Citrea node, \<open>jsonrpsee\<close>, \<open>clap\<close>, \<open>toml\<close>, \<open>tracing\<close>, the files and variables of the host, and how
  PostgreSQL reads URLs and names are arguments of the definitions. Where a theorem relies on them
  the hypothesis is named: \<open>tx_roundtrip\<close> (a serialised transaction is read back),
  \<open>txid_ignores_witness\<close>, \<open>schnorr_correct\<close>, \<open>taproot_keys\<close> (the tweaked key is the one the address pays
  to), \<open>musig_correct\<close> (aggregated signatures are verified before they are returned), \<open>sighash_total\<close> and
  \<open>control_blocks_exist\<close> (an input that exists can be signed, a script of an address has a control block).

  \<^bold>\<open>Bounds.\<close> Loops over lists and counters are structural. The search for kickoff
  transactions, \<open>search_generator_txs\<close>, has the 25 rounds of the code; the search for free ports ends by a
  measure, the ports that are left below the end of the range. The number of kickoff outputs of a
  transaction is below \<open>2 ^ 31\<close> where the code stores it as an \<open>i32\<close>. Integers are words of their
  width; arithmetic on plain integers wraps as in the release profile, arithmetic on amounts panics.

  \<^bold>\<open>Not modelled.\<close> \<open>env_writer.rs\<close>, \<open>merkle.rs\<close> and \<open>mock/env.rs\<close> are commented out, and the mock of the
  Bitcoin node is used by tests alone. Tests and build scripts are left out, the transport of JSON-RPC is a
  library, and what is logged is not recorded. Handlers run one after the other: the interleaving of
  transactions inside PostgreSQL, and of futures that are joined, is not modelled. Payloads of errors
  from other crates are dropped.
\<close>

end
